theory Spec2Isabelle
  imports Complex_Main "HOL-Library.Product_Lexorder" "HOL-Library.Sublist"
begin

section \<open>The SQLAlchemy tracking store of MLflow\<close>

text \<open>
  A shallow embedding of \<^verbatim>\<open>mlflow/store/sqlalchemy_store.py\<close>. The relational
  database is a record of tables (lists of rows), a SQLAlchemy session is a record
  holding the committed database, the view of the running transaction, the writes
  that its unit of work has not flushed yet and the calls made on it. Every
  \<^verbatim>\<open>raise\<close> of the source is a value \<open>Inl e\<close>.

  Naming: a source name with a leading underscore (\<^verbatim>\<open>_get_run\<close>) is written
  with the prefix \<open>priv_\<close> (\<open>priv_get_run\<close>); a column \<open>c\<close> of a model class is
  the field \<open>exp_c\<close>, \<open>run_c\<close>, \<open>metric_c\<close>, \<open>latest_c\<close>, \<open>param_c\<close>, \<open>tag_c\<close> or
  \<open>etag_c\<close> of the row record.
\<close>

subsection \<open>Error codes and exceptions\<close>

text \<open>
  The error codes imported from \<^verbatim>\<open>mlflow.protos.databricks_pb2\<close>. The error
  kinds of the specification are these codes: InvalidArgument is
  \<open>INVALID_PARAMETER_VALUE\<close>, AlreadyExists is \<open>RESOURCE_ALREADY_EXISTS\<close>,
  NotFound is \<open>RESOURCE_DOES_NOT_EXIST\<close>, InvalidState is \<open>INVALID_STATE\<close> and
  Internal is \<open>INTERNAL_ERROR\<close>.
\<close>

datatype error_code =
    INVALID_PARAMETER_VALUE
  | RESOURCE_ALREADY_EXISTS
  | INVALID_STATE
  | RESOURCE_DOES_NOT_EXIST
  | INTERNAL_ERROR

datatype lifecycle_stage = ACTIVE | DELETED

text \<open>\<^verbatim>\<open>ViewType\<close>; \<open>ALL_STAGES\<close> is \<^verbatim>\<open>ViewType.ALL\<close>.\<close>

datatype view_type = ACTIVE_ONLY | DELETED_ONLY | ALL_STAGES

text \<open>
  A message is the format string of the source together with the arguments given
  to \<^verbatim>\<open>format\<close>, in the order of the source; \<open>Wrapped e\<close> is the message of
  \<^verbatim>\<open>MlflowException(message=e, ...)\<close>, the exception \<open>e\<close> itself.
  \<^item> \<open>Invalid_experiment_name\<close>: \<^verbatim>\<open>Invalid experiment name\<close>
  \<^item> \<open>Experiment_already_exists name e\<close>:
    \<^verbatim>\<open>Experiment(name={}) already exists. Error: {}\<close>
  \<^item> \<open>No_experiment_with_id i\<close>: \<^verbatim>\<open>No Experiment with id={} exists\<close>
  \<^item> \<open>Expected_only_1_experiment i n\<close>:
    \<^verbatim>\<open>Expected only 1 experiment with id={}. Found {}.\<close>
  \<^item> \<open>Cannot_rename_non_active\<close>: \<^verbatim>\<open>Cannot rename a non-active experiment.\<close>
  \<^item> \<open>Run_not_found r\<close>: \<^verbatim>\<open>Run with id={} not found\<close>
  \<^item> \<open>Expected_only_1_run r n\<close>: \<^verbatim>\<open>Expected only 1 run with id={}. Found {}.\<close>
  \<^item> \<open>Run_must_be_active r stage\<close>:
    \<^verbatim>\<open>The run {} must be in the 'active' state. Current state is {}.\<close>
  \<^item> \<open>Experiment_must_be_active i stage\<close>:
    \<^verbatim>\<open>The experiment {} must be in the 'active' state. Current state is {}.\<close>
  \<^item> \<open>Changing_param_value k old r new\<close>:
    \<^verbatim>\<open>Changing param value is not allowed. Param with key='{}' was already
    logged with value='{}' for run ID='{}. Attempted logging new value '{}'.\<close>
  \<^item> \<open>No_tag_with_name k r\<close>: \<^verbatim>\<open>No tag with name: {} in run with id {}\<close>
  \<^item> \<open>Bad_data_in_database\<close>: \<^verbatim>\<open>Bad data in database - tags for a specific run
    must have a single unique value. ...\<close>
  \<^item> \<open>Text t\<close>: any other text (the messages of the validators).
\<close>

text \<open>
  An experiment id as a caller passes it. The source converts it with \<^verbatim>\<open>int\<close>
  and tests its truth value (\<^verbatim>\<open>experiment_id or DEFAULT_EXPERIMENT_ID\<close>), so four
  kinds of value are told apart: \<open>Id_of n\<close> is a string or an integer that
  \<^verbatim>\<open>int\<close> converts to \<open>n\<close>, \<open>Not_a_number\<close> is a string that is not empty and on
  which \<^verbatim>\<open>int\<close> raises \<^verbatim>\<open>ValueError\<close>, \<open>Empty_string\<close> is the string \<^verbatim>\<open>""\<close>
  (falsy, and \<^verbatim>\<open>int\<close> raises \<^verbatim>\<open>ValueError\<close> on it) and \<open>Py_None\<close> is \<^verbatim>\<open>None\<close>
  (falsy, and \<^verbatim>\<open>int\<close> raises \<^verbatim>\<open>TypeError\<close> on it). (The integer \<open>0\<close>, which is
  falsy, is replaced by the string \<^verbatim>\<open>"0"\<close> and converted back to \<open>0\<close>: it is
  \<open>Id_of 0\<close>.)
\<close>

datatype experiment_id_arg = Id_of int | Not_a_number | Empty_string | Py_None

datatype py_exception =
    MlflowException message error_code
  | IntegrityError
  | MultipleResultsFound
  | AttributeError
  | ValueError
  | TypeError
  | OtherException string
and message =
    Invalid_experiment_name
  | Experiment_already_exists string py_exception
  | No_experiment_with_id experiment_id_arg
  | Expected_only_1_experiment experiment_id_arg nat
  | Cannot_rename_non_active
  | Run_not_found string
  | Expected_only_1_run string nat
  | Run_must_be_active string lifecycle_stage
  | Experiment_must_be_active int lifecycle_stage
  | Changing_param_value string string string string
  | No_tag_with_name string string
  | Bad_data_in_database
  | Wrapped py_exception
  | Text string

text \<open>\<^verbatim>\<open>isinstance(e, MlflowException)\<close>, as the \<^verbatim>\<open>except MlflowException\<close> clauses test it.\<close>

fun is_MlflowException :: "py_exception \<Rightarrow> bool" where
  "is_MlflowException (MlflowException m c) = True"
| "is_MlflowException e = False"

fun error_code_of :: "py_exception \<Rightarrow> error_code option" where
  "error_code_of (MlflowException m c) = Some c"
| "error_code_of e = None"

subsection \<open>Values\<close>

text \<open>
  The value of a metric as Python holds it: a NaN, an infinity, or a finite number,
  given by the real number it denotes. A float denotes a 64-bit float (\<open>is_float64\<close>
  below); \<open>log_metric\<close> receives an int in the same way, and an int denotes itself,
  whether a 64-bit float represents it or not. The finite numbers are those within
  the range of the floats: on an int beyond it \<^verbatim>\<open>math.isnan\<close> raises
  \<^verbatim>\<open>OverflowError\<close>. \<open>math_isnan\<close>, \<open>math_isinf\<close> and \<open>float_gt_zero\<close> are
  \<^verbatim>\<open>math.isnan\<close>, \<^verbatim>\<open>math.isinf\<close> and the comparison \<^verbatim>\<open>metric.value > 0\<close>.
\<close>

datatype py_float = Finite real | PosInf | NegInf | NaN

fun math_isnan :: "py_float \<Rightarrow> bool" where
  "math_isnan NaN = True"
| "math_isnan v = False"

fun math_isinf :: "py_float \<Rightarrow> bool" where
  "math_isinf PosInf = True"
| "math_isinf NegInf = True"
| "math_isinf v = False"

fun float_gt_zero :: "py_float \<Rightarrow> bool" where
  "float_gt_zero (Finite x) = (x > 0)"
| "float_gt_zero PosInf = True"
| "float_gt_zero NegInf = False"
| "float_gt_zero NaN = False"

text \<open>
  The double that the literal \<^verbatim>\<open>1.7976931348623157e308\<close> of \<open>log_metric\<close>
  denotes: the literal is rounded to the nearest double, which is the greatest
  finite one, \<open>(2^53 - 1) * 2^971\<close> (lemma \<open>literal_rounds_to_MAX_FLOAT64\<close> below).
\<close>

definition MAX_FLOAT64 :: real where
  "MAX_FLOAT64 = (2 ^ 53 - 1) * 2 ^ 971"

text \<open>
  Modelled from the spec: the finite 64-bit floats (IEEE 754 binary64), of which the
  specification names the maximum and the minimum: a significand of at most 53 bits
  times a power of two whose exponent lies between -1074 and 971.
\<close>

definition is_float64 :: "real \<Rightarrow> bool" where
  "is_float64 x = (\<exists>(m::nat) (e::int). m < 2 ^ 53 \<and> - 1074 \<le> e \<and> e \<le> 971
                     \<and> (x = real m * 2 powi e \<or> x = - (real m * 2 powi e)))"

text \<open>
  Modelled from the spec: the value column of a metric is a finite 64-bit float (the
  declaration of the column, in \<^verbatim>\<open>mlflow.store.dbmodels.models\<close>, is not among the
  sources). A number that is written to the column is stored as the 64-bit float
  nearest to it, the one with the even significand when two are equally near:
  \<open>float64_exponent x\<close> is the exponent of the floats around \<open>x\<close> (they are the
  multiples of two to that power), \<open>round_half_even\<close> rounds to the nearest
  integer. A 64-bit float is stored as it is (lemma \<open>nearest_float64_exact\<close> below).
\<close>

definition round_half_even :: "real \<Rightarrow> int" where
  "round_half_even q =
     (let f = \<lfloor>q\<rfloor>; r = q - of_int f
      in if r < 1 / 2 then f else if 1 / 2 < r then f + 1 else if even f then f else f + 1)"

definition float64_exponent :: "real \<Rightarrow> int" where
  "float64_exponent x = max (- 1074) (\<lfloor>log 2 \<bar>x\<bar>\<rfloor> - 52)"

definition nearest_float64 :: "real \<Rightarrow> real" where
  "nearest_float64 x =
     (if x = 0 then 0
      else of_int (round_half_even (x / 2 powi float64_exponent x)) * 2 powi float64_exponent x)"

text \<open>The entities of \<^verbatim>\<open>mlflow.entities\<close> that the logging operations receive.\<close>

record Metric =
  metric_in_key :: string
  metric_in_value :: py_float
  metric_in_timestamp :: int
  metric_in_step :: int

record Param =
  param_in_key :: string
  param_in_value :: string

record RunTag =
  tag_in_key :: string
  tag_in_value :: string

datatype run_status = RUNNING | SCHEDULED | FINISHED | FAILED | KILLED

subsection \<open>Tables\<close>

text \<open>
  The rows of \<^verbatim>\<open>mlflow.store.dbmodels.models\<close>. The value of a metric row is a
  64-bit float: every row that the operations below build holds \<open>nearest_float64\<close>
  of the number it is given. Of \<open>SqlRun\<close> the columns are kept that the operations below read or write
  (\<open>name\<close>, \<open>source_type\<close>, \<open>source_name\<close>, \<open>entry_point_name\<close> and
  \<open>source_version\<close> are written by \<open>create_run\<close> only).
\<close>

record SqlExperiment =
  exp_experiment_id :: int
  exp_name :: string
  exp_artifact_location :: "string option"
  exp_lifecycle_stage :: lifecycle_stage

record SqlRun =
  run_run_uuid :: string
  run_experiment_id :: int
  run_user_id :: string
  run_status :: run_status
  run_start_time :: int
  run_end_time :: "int option"
  run_artifact_uri :: string
  run_lifecycle_stage :: lifecycle_stage

record SqlMetric =
  metric_run_uuid :: string
  metric_key :: string
  metric_value :: real
  metric_timestamp :: int
  metric_step :: int
  metric_is_nan :: bool

record SqlLatestMetric =
  latest_run_uuid :: string
  latest_key :: string
  latest_value :: real
  latest_timestamp :: int
  latest_step :: int
  latest_is_nan :: bool

record SqlParam =
  param_run_uuid :: string
  param_key :: string
  param_value :: string

record SqlTag =
  tag_run_uuid :: string
  tag_key :: string
  tag_value :: string

record SqlExperimentTag =
  etag_experiment_id :: "int option"
  etag_key :: string
  etag_value :: string

record database =
  experiments :: "SqlExperiment list"
  runs :: "SqlRun list"
  metrics :: "SqlMetric list"
  latest_metrics :: "SqlLatestMetric list"
  params :: "SqlParam list"
  tags :: "SqlTag list"
  experiment_tags :: "SqlExperimentTag list"

subsection \<open>The database: statements and constraints\<close>

text \<open>
  The writes that a flush sends to the database. The table declarations
  (\<^verbatim>\<open>mlflow.store.dbmodels.models\<close>) are not part of the repository's files, so
  the keys and constraints are modelled from the spec: \<open>experiment_id\<close> is assigned
  by the store, an experiment's \<open>name\<close> is unique, \<open>(run_id, key)\<close> is unique within
  Param, \<open>(owner_id, key)\<close> is unique within Tag and ExperimentTag, LatestMetric has
  at most one row per \<open>(run_id, key)\<close>, and several Metric facts may share
  \<open>(run_id, key)\<close>. The uniqueness of \<open>name\<close> is taken over all rows of the table:
  \<open>get_experiment_by_name\<close> of the source searches every lifecycle stage and treats
  two rows of one name as corrupt data.
\<close>

datatype statement =
    INSERT_experiment string "string option" lifecycle_stage
  | UPDATE_experiment_lifecycle_stage int lifecycle_stage
  | UPDATE_experiment_name int string
  | UPDATE_experiment_artifact_location int string
  | UPDATE_run_lifecycle_stage string lifecycle_stage
  | UPDATE_run_status_end_time string run_status "int option"
  | INSERT_metric SqlMetric
  | MERGE_latest_metric SqlLatestMetric
  | INSERT_param SqlParam
  | MERGE_tag SqlTag
  | MERGE_experiment_tag SqlExperimentTag
  | DELETE_tag SqlTag

text \<open>
  Modelled from the spec: the key that the database assigns to a new experiment
  (an auto-incremented column): one more than the greatest key in the table, the
  reserved key \<open>0\<close> of the default experiment included.
\<close>

definition autoincrement :: "int list \<Rightarrow> int" where
  "autoincrement ids = fold max ids 0 + 1"

text \<open>
  \<^verbatim>\<open>session.merge\<close> on a table with primary key \<open>pk\<close>: the row of that key is
  overwritten, and a row whose key is new is inserted.
\<close>

definition merge_row :: "('r \<Rightarrow> 'k) \<Rightarrow> 'r \<Rightarrow> 'r list \<Rightarrow> 'r list" where
  "merge_row pk row rows =
     (if (\<exists>r \<in> set rows. pk r = pk row)
      then map (\<lambda>r. if pk r = pk row then row else r) rows
      else rows @ [row])"

fun execute :: "statement \<Rightarrow> database \<Rightarrow> py_exception + database" where
  "execute (INSERT_experiment name location stage) d =
     (if name \<in> set (map exp_name (experiments d)) then Inl IntegrityError
      else Inr (d\<lparr>experiments := experiments d @
             [\<lparr>exp_experiment_id = autoincrement (map exp_experiment_id (experiments d)),
               exp_name = name, exp_artifact_location = location,
               exp_lifecycle_stage = stage\<rparr>]\<rparr>))"
| "execute (UPDATE_experiment_lifecycle_stage i stage) d =
     Inr (d\<lparr>experiments := map (\<lambda>e. if exp_experiment_id e = i
                                     then e\<lparr>exp_lifecycle_stage := stage\<rparr> else e)
                                (experiments d)\<rparr>)"
| "execute (UPDATE_experiment_name i name) d =
     (if (\<exists>e \<in> set (experiments d). exp_experiment_id e \<noteq> i \<and> exp_name e = name)
      then Inl IntegrityError
      else Inr (d\<lparr>experiments := map (\<lambda>e. if exp_experiment_id e = i
                                          then e\<lparr>exp_name := name\<rparr> else e)
                                     (experiments d)\<rparr>))"
| "execute (UPDATE_experiment_artifact_location i location) d =
     Inr (d\<lparr>experiments := map (\<lambda>e. if exp_experiment_id e = i
                                     then e\<lparr>exp_artifact_location := Some location\<rparr> else e)
                                (experiments d)\<rparr>)"
| "execute (UPDATE_run_lifecycle_stage r stage) d =
     Inr (d\<lparr>runs := map (\<lambda>x. if run_run_uuid x = r
                              then x\<lparr>run_lifecycle_stage := stage\<rparr> else x) (runs d)\<rparr>)"
| "execute (UPDATE_run_status_end_time r status end_time) d =
     Inr (d\<lparr>runs := map (\<lambda>x. if run_run_uuid x = r
                              then x\<lparr>run_status := status, run_end_time := end_time\<rparr> else x)
                         (runs d)\<rparr>)"
| "execute (INSERT_metric m) d = Inr (d\<lparr>metrics := metrics d @ [m]\<rparr>)"
| "execute (MERGE_latest_metric l) d =
     Inr (d\<lparr>latest_metrics :=
              merge_row (\<lambda>x. (latest_run_uuid x, latest_key x)) l (latest_metrics d)\<rparr>)"
| "execute (INSERT_param p) d =
     (if (\<exists>x \<in> set (params d). param_run_uuid x = param_run_uuid p \<and> param_key x = param_key p)
      then Inl IntegrityError
      else Inr (d\<lparr>params := params d @ [p]\<rparr>))"
| "execute (MERGE_tag t) d =
     Inr (d\<lparr>tags := merge_row (\<lambda>x. (tag_run_uuid x, tag_key x)) t (tags d)\<rparr>)"
| "execute (MERGE_experiment_tag t) d =
     (if etag_experiment_id t = None then Inl IntegrityError
      else Inr (d\<lparr>experiment_tags :=
                   merge_row (\<lambda>x. (etag_experiment_id x, etag_key x)) t (experiment_tags d)\<rparr>))"
| "execute (DELETE_tag t) d =
     Inr (d\<lparr>tags := filter (\<lambda>x. \<not> (tag_run_uuid x = tag_run_uuid t \<and> tag_key x = tag_key t))
                           (tags d)\<rparr>)"

text \<open>The key that a statement makes the database generate, if any.\<close>

fun generated_key :: "statement \<Rightarrow> database \<Rightarrow> int option" where
  "generated_key (INSERT_experiment name location stage) d =
     Some (autoincrement (map exp_experiment_id (experiments d)))"
| "generated_key q d = None"

text \<open>
  The statements of a flush, in order; the first one that the database rejects
  raises, and none after it is sent. The second component is the key generated
  last.
\<close>

fun execute_all :: "statement list \<Rightarrow> database \<Rightarrow> int option
                      \<Rightarrow> py_exception + database \<times> int option" where
  "execute_all [] d k = Inr (d, k)"
| "execute_all (q # qs) d k =
     (case execute q d of
        Inl e \<Rightarrow> Inl e
      | Inr d' \<Rightarrow> execute_all qs d' (case generated_key q d of None \<Rightarrow> k | Some i \<Rightarrow> Some i))"

subsection \<open>Sessions\<close>

text \<open>
  A session of \<^verbatim>\<open>sqlalchemy.orm.sessionmaker(bind=engine)\<close>: \<open>committed\<close> is the
  database as other sessions see it, \<open>txn\<close> the database as the transaction of this
  session sees it, \<open>pending\<close> the writes of its unit of work that no flush has sent
  yet, \<open>new_key\<close> the primary key that a flush gave to the object added by this
  session (\<^verbatim>\<open>experiment.experiment_id\<close>; \<open>None\<close> before the flush), and \<open>calls\<close>
  the calls of \<open>commit\<close>, \<open>rollback\<close> and \<open>close\<close> made on it so far.
\<close>

datatype session_call = Commit | Rollback | Close

record session =
  committed :: database
  txn :: database
  pending :: "statement list"
  new_key :: "int option"
  calls :: "session_call list"

type_synonym 'a action = "session \<Rightarrow> (py_exception + 'a) \<times> session"

definition return :: "'a \<Rightarrow> 'a action" where
  "return x s = (Inr x, s)"

definition raise :: "py_exception \<Rightarrow> 'a action" where
  "raise e s = (Inl e, s)"

text \<open>One statement after another: an exception of the first skips the second.\<close>

definition and_then :: "'a action \<Rightarrow> ('a \<Rightarrow> 'b action) \<Rightarrow> 'b action" where
  "and_then m f s = (case m s of (Inl e, s') \<Rightarrow> (Inl e, s') | (Inr x, s') \<Rightarrow> f x s')"

definition SessionMaker :: "database \<Rightarrow> session" where
  "SessionMaker d = \<lparr>committed = d, txn = d, pending = [], new_key = None, calls = []\<rparr>"

text \<open>
  \<^verbatim>\<open>session.add\<close> of a new object, an assignment to a column of a persistent
  object and \<^verbatim>\<open>session.delete\<close> register a write with the unit of work; the
  database sees it at the next flush.
\<close>

definition queue :: "statement \<Rightarrow> unit action" where
  "queue q s = (Inr (), s\<lparr>pending := pending s @ [q]\<rparr>)"

text \<open>
  \<^verbatim>\<open>session.flush()\<close>. A flush that the database rejects raises and leaves the
  transaction rolled back.
\<close>

definition flush :: "unit action" where
  "flush s =
     (case execute_all (pending s) (txn s) (new_key s) of
        Inl e \<Rightarrow> (Inl e, s\<lparr>txn := committed s, pending := []\<rparr>)
      | Inr (d, k) \<Rightarrow> (Inr (), s\<lparr>txn := d, pending := [], new_key := k\<rparr>))"

text \<open>
  A query (\<^verbatim>\<open>session.query(...)\<close> run by \<^verbatim>\<open>all\<close>, \<^verbatim>\<open>first\<close> or \<^verbatim>\<open>one_or_none\<close>,
  or the lazy load of a relationship): the session flushes first (autoflush is on
  by default), then reads the transaction's view.
\<close>

definition query :: "(database \<Rightarrow> 'a) \<Rightarrow> 'a action" where
  "query select = and_then flush (\<lambda>_ s. (Inr (select (txn s)), s))"

text \<open>\<^verbatim>\<open>session.merge\<close>: looks the row up by its primary key (a query), then
  registers the write.\<close>

definition session_merge :: "statement \<Rightarrow> unit action" where
  "session_merge q = and_then flush (\<lambda>_. queue q)"

definition commit :: "unit action" where
  "commit s =
     (case flush s of
        (Inl e, s') \<Rightarrow> (Inl e, s'\<lparr>calls := calls s' @ [Commit]\<rparr>)
      | (Inr u, s') \<Rightarrow> (Inr (), s'\<lparr>committed := txn s', calls := calls s' @ [Commit]\<rparr>))"

definition rollback :: "session \<Rightarrow> session" where
  "rollback s = s\<lparr>txn := committed s, pending := [], calls := calls s @ [Rollback]\<rparr>"

definition close :: "session \<Rightarrow> session" where
  "close s = s\<lparr>txn := committed s, pending := [], calls := calls s @ [Close]\<rparr>"

text \<open>
  \<open>make_managed_session\<close> of \<open>_get_managed_session_maker\<close>, applied to the body of
  the \<^verbatim>\<open>with\<close> statement: the result of the block and the session as it is left.
\<close>

definition make_managed_session :: "'a action \<Rightarrow> database \<Rightarrow> (py_exception + 'a) \<times> session" where
  "make_managed_session body d =
     (let session = SessionMaker d;
          except = (\<lambda>e s.
            if is_MlflowException e then (Inl e, close (rollback s))
            else (Inl (MlflowException (Wrapped e) INTERNAL_ERROR), close (rollback s)))
      in case body session of
           (Inl e, s) \<Rightarrow> except e s
         | (Inr x, s) \<Rightarrow>
             (case commit s of
                (Inl e, s') \<Rightarrow> except e s'
              | (Inr u, s') \<Rightarrow> (Inr x, close s')))"

text \<open>
  \<^verbatim>\<open>with self.ManagedSessionMaker() as session: body\<close>, as a caller of the store
  sees it: the result, and the database that the session leaves committed.
\<close>

definition ManagedSessionMaker :: "'a action \<Rightarrow> database \<Rightarrow> (py_exception + 'a) \<times> database" where
  "ManagedSessionMaker body d =
     (case make_managed_session body d of (r, s) \<Rightarrow> (r, committed s))"

subsection \<open>Collaborators outside the file\<close>

text \<open>
  The validators of \<^verbatim>\<open>mlflow.utils.validation\<close> are not part of the repository's
  files: they are parameters of the model. A validator returns the exception it
  raises, or \<open>None\<close> when it accepts its arguments.
\<close>

record validation =
  validate_metric :: "string \<Rightarrow> py_float \<Rightarrow> int \<Rightarrow> int \<Rightarrow> py_exception option"
  validate_experiment_tag :: "string \<Rightarrow> string \<Rightarrow> py_exception option"
  validate_tag :: "string \<Rightarrow> string \<Rightarrow> py_exception option"
  validate_run_id :: "string \<Rightarrow> py_exception option"
  validate_batch_log_data :: "Metric list \<Rightarrow> Param list \<Rightarrow> RunTag list \<Rightarrow> py_exception option"
  validate_batch_log_limits :: "Metric list \<Rightarrow> Param list \<Rightarrow> RunTag list \<Rightarrow> py_exception option"

text \<open>A call of a validator as a statement: it raises or goes on.\<close>

definition validated :: "py_exception option \<Rightarrow> unit action" where
  "validated v = (case v of Some e \<Rightarrow> raise e | None \<Rightarrow> return ())"

text \<open>
  Modelled from the spec: \<^verbatim>\<open>LifecycleStage.view_type_to_stages\<close> (the views are
  Active-only, Deleted-only and All).
\<close>

fun view_type_to_stages :: "view_type \<Rightarrow> lifecycle_stage list" where
  "view_type_to_stages ACTIVE_ONLY = [ACTIVE]"
| "view_type_to_stages DELETED_ONLY = [DELETED]"
| "view_type_to_stages ALL_STAGES = [ACTIVE, DELETED]"

text \<open>Python's \<^verbatim>\<open>int\<close> on an experiment id, and \<^verbatim>\<open>x or DEFAULT_EXPERIMENT_ID\<close>.\<close>

fun py_int :: "experiment_id_arg \<Rightarrow> py_exception + int" where
  "py_int (Id_of n) = Inr n"
| "py_int Not_a_number = Inl ValueError"
| "py_int Empty_string = Inl ValueError"
| "py_int Py_None = Inl TypeError"

definition DEFAULT_EXPERIMENT_ID :: experiment_id_arg where
  "DEFAULT_EXPERIMENT_ID = Id_of 0"

fun or_default :: "experiment_id_arg \<Rightarrow> experiment_id_arg" where
  "or_default Py_None = DEFAULT_EXPERIMENT_ID"
| "or_default Empty_string = DEFAULT_EXPERIMENT_ID"
| "or_default x = x"

text \<open>Python's \<^verbatim>\<open>str\<close> on an integer (decimal digits, a minus sign when negative).\<close>

definition digit_char :: "nat \<Rightarrow> char" where
  "digit_char n = char_of (48 + n)"

function str_nat :: "nat \<Rightarrow> string" where
  "str_nat n = (if n < 10 then [digit_char n] else str_nat (n div 10) @ [digit_char (n mod 10)])"
  by pat_completeness auto
termination
  by (relation "measure id") auto

declare str_nat.simps [simp del]

definition str_int :: "int \<Rightarrow> string" where
  "str_int i = (if i < 0 then ''-'' @ str_nat (nat (- i)) else str_nat (nat i))"

text \<open>\<^verbatim>\<open>posixpath.join\<close> of two components.\<close>

definition posixpath_join :: "string \<Rightarrow> string \<Rightarrow> string" where
  "posixpath_join a b =
     (if prefix ''/'' b then b
      else if a = [] \<or> suffix ''/'' a then a @ b
      else a @ ''/'' @ b)"

subsection \<open>Helpers of the store\<close>

text \<open>
  \<open>_save_to_db\<close> with a single object (the branch for a list is taken by
  \<open>create_run\<close> only): \<^verbatim>\<open>session.add(objs)\<close>. For a new object the write is its
  INSERT; for an object that was loaded and then assigned to, it is the UPDATE of
  the assigned columns.
\<close>

definition priv_save_to_db :: "statement \<Rightarrow> unit action" where
  "priv_save_to_db objs = queue objs"

text \<open>
  \<open>_get_or_create\<close>: \<open>table\<close> is the model's table, \<open>kwargs\<close> the row that the
  keyword arguments describe (they give every column, so \<^verbatim>\<open>filter_by(**kwargs)\<close>
  selects the rows equal to it) and \<open>model\<close> the INSERT of a new instance
  \<^verbatim>\<open>model(**kwargs)\<close>.
\<close>

definition priv_get_or_create ::
  "(database \<Rightarrow> 'r list) \<Rightarrow> 'r \<Rightarrow> ('r \<Rightarrow> statement) \<Rightarrow> ('r \<times> bool) action" where
  "priv_get_or_create table kwargs model =
     and_then (query (\<lambda>d. filter (\<lambda>r. r = kwargs) (table d)))
       (\<lambda>found. case found of
           instance # rest \<Rightarrow> return (instance, False)
         | [] \<Rightarrow> and_then (priv_save_to_db (model kwargs)) (\<lambda>_. return (kwargs, True)))"

definition priv_get_artifact_location :: "string \<Rightarrow> int \<Rightarrow> string" where
  "priv_get_artifact_location artifact_root_uri experiment_id =
     posixpath_join artifact_root_uri (str_int experiment_id)"

subsection \<open>Experiments\<close>

text \<open>
  \<open>create_experiment\<close>. \<open>name\<close> and \<open>artifact_location\<close> may be \<^verbatim>\<open>None\<close>; the
  result is \<^verbatim>\<open>experiment.experiment_id\<close>, of which the source returns the \<^verbatim>\<open>str\<close>.
  The assignment to \<^verbatim>\<open>experiment.artifact_location\<close> is made on the object that
  the query has flushed, so it is an UPDATE of the row of its key (a query that
  returns has flushed the INSERT and the object has its key: the branch for an
  object without a key is never taken).
\<close>

definition create_experiment ::
  "string \<Rightarrow> database \<Rightarrow> string option \<Rightarrow> string option \<Rightarrow> (py_exception + int option) \<times> database" where
  "create_experiment artifact_root_uri d name artifact_location =
     (case name of
        None \<Rightarrow> (Inl (MlflowException Invalid_experiment_name INVALID_PARAMETER_VALUE), d)
      | Some name \<Rightarrow>
          if name = [] then (Inl (MlflowException Invalid_experiment_name INVALID_PARAMETER_VALUE), d)
          else ManagedSessionMaker
            (\<lambda>session.
               case and_then (queue (INSERT_experiment name artifact_location ACTIVE))
                      (\<lambda>_. if artifact_location = None \<or> artifact_location = Some []
                            then and_then (query (\<lambda>d. filter (\<lambda>e. exp_name e = name) (experiments d)))
                                   (\<lambda>found. case found of
                                       [] \<Rightarrow> raise AttributeError
                                     | first # rest \<Rightarrow>
                                         (\<lambda>s. case new_key s of
                                            None \<Rightarrow> return () s
                                          | Some k \<Rightarrow>
                                              queue (UPDATE_experiment_artifact_location k
                                                (priv_get_artifact_location artifact_root_uri
                                                   (exp_experiment_id first))) s))
                            else return ()) session of
                 (Inl IntegrityError, s) \<Rightarrow>
                   (Inl (MlflowException (Experiment_already_exists name IntegrityError)
                           RESOURCE_ALREADY_EXISTS), s)
               | (Inl e, s) \<Rightarrow> (Inl e, s)
               | (Inr u, s) \<Rightarrow> and_then flush (\<lambda>_ s'. (Inr (new_key s'), s')) s) d)"

text \<open>
  \<open>_list_experiments\<close>: the conditions of the query it returns, as a predicate on
  rows; \<^verbatim>\<open>int(eid)\<close> may raise.
\<close>

fun int_ids :: "experiment_id_arg list \<Rightarrow> py_exception + int list" where
  "int_ids [] = Inr []"
| "int_ids (eid # ids) =
     (case py_int eid of
        Inl e \<Rightarrow> Inl e
      | Inr n \<Rightarrow> (case int_ids ids of Inl e \<Rightarrow> Inl e | Inr ns \<Rightarrow> Inr (n # ns)))"

definition priv_list_experiments ::
  "experiment_id_arg list option \<Rightarrow> string list option \<Rightarrow> view_type
     \<Rightarrow> py_exception + (SqlExperiment \<Rightarrow> bool)" where
  "priv_list_experiments ids names view_type =
     (let stages = view_type_to_stages view_type;
          in_stages = (\<lambda>e. exp_lifecycle_stage e \<in> set stages);
          in_names = (case names of
                        None \<Rightarrow> (\<lambda>e. True)
                      | Some ns \<Rightarrow> if length ns > 0 then (\<lambda>e. exp_name e \<in> set ns) else (\<lambda>e. True))
      in case ids of
           None \<Rightarrow> Inr (\<lambda>e. in_stages e \<and> in_names e)
         | Some is \<Rightarrow>
             if length is > 0
             then (case int_ids is of
                     Inl e \<Rightarrow> Inl e
                   | Inr ns \<Rightarrow> Inr (\<lambda>e. in_stages e \<and> exp_experiment_id e \<in> set ns \<and> in_names e))
             else Inr (\<lambda>e. in_stages e \<and> in_names e))"

definition priv_get_experiment :: "experiment_id_arg \<Rightarrow> view_type \<Rightarrow> SqlExperiment action" where
  "priv_get_experiment experiment_id view_type =
     (let experiment_id = or_default experiment_id
      in case priv_list_experiments (Some [experiment_id]) None view_type of
           Inl e \<Rightarrow> raise e
         | Inr conditions \<Rightarrow>
             and_then (query (\<lambda>d. filter conditions (experiments d)))
               (\<lambda>found. case found of
                   [] \<Rightarrow> raise (MlflowException (No_experiment_with_id experiment_id)
                                 RESOURCE_DOES_NOT_EXIST)
                 | [e] \<Rightarrow> return e
                 | e # rest \<Rightarrow>
                     raise (MlflowException
                              (Expected_only_1_experiment experiment_id (length found))
                              INVALID_STATE)))"

text \<open>
  \<open>get_experiment\<close>. \<^verbatim>\<open>to_mlflow_entity\<close> copies the columns of the row into an
  entity; the model returns the row.
\<close>

definition get_experiment ::
  "database \<Rightarrow> experiment_id_arg \<Rightarrow> (py_exception + SqlExperiment) \<times> database" where
  "get_experiment d experiment_id =
     ManagedSessionMaker (priv_get_experiment experiment_id ALL_STAGES) d"

definition delete_experiment ::
  "database \<Rightarrow> experiment_id_arg \<Rightarrow> (py_exception + unit) \<times> database" where
  "delete_experiment d experiment_id =
     ManagedSessionMaker
       (and_then (priv_get_experiment experiment_id ACTIVE_ONLY)
          (\<lambda>e. priv_save_to_db (UPDATE_experiment_lifecycle_stage (exp_experiment_id e) DELETED))) d"

definition restore_experiment ::
  "database \<Rightarrow> experiment_id_arg \<Rightarrow> (py_exception + unit) \<times> database" where
  "restore_experiment d experiment_id =
     ManagedSessionMaker
       (and_then (priv_get_experiment experiment_id DELETED_ONLY)
          (\<lambda>e. priv_save_to_db (UPDATE_experiment_lifecycle_stage (exp_experiment_id e) ACTIVE))) d"

definition rename_experiment ::
  "database \<Rightarrow> experiment_id_arg \<Rightarrow> string \<Rightarrow> (py_exception + unit) \<times> database" where
  "rename_experiment d experiment_id new_name =
     ManagedSessionMaker
       (and_then (priv_get_experiment experiment_id ALL_STAGES)
          (\<lambda>e. if exp_lifecycle_stage e \<noteq> ACTIVE
                then raise (MlflowException Cannot_rename_non_active INVALID_STATE)
                else priv_save_to_db (UPDATE_experiment_name (exp_experiment_id e) new_name))) d"

subsection \<open>Runs\<close>

definition priv_get_run :: "string \<Rightarrow> SqlRun action" where
  "priv_get_run run_uuid =
     and_then (query (\<lambda>d. filter (\<lambda>r. run_run_uuid r = run_uuid) (runs d)))
       (\<lambda>found. case found of
           [] \<Rightarrow> raise (MlflowException (Run_not_found run_uuid) RESOURCE_DOES_NOT_EXIST)
         | [r] \<Rightarrow> return r
         | r # rest \<Rightarrow>
             raise (MlflowException (Expected_only_1_run run_uuid (length found)) INVALID_STATE))"

definition priv_check_run_is_active :: "SqlRun \<Rightarrow> unit action" where
  "priv_check_run_is_active run =
     (if run_lifecycle_stage run \<noteq> ACTIVE
      then raise (MlflowException (Run_must_be_active (run_run_uuid run) (run_lifecycle_stage run))
                    INVALID_PARAMETER_VALUE)
      else return ())"

definition priv_check_experiment_is_active :: "SqlExperiment \<Rightarrow> unit action" where
  "priv_check_experiment_is_active e =
     (if exp_lifecycle_stage e \<noteq> ACTIVE
      then raise (MlflowException
                    (Experiment_must_be_active (exp_experiment_id e) (exp_lifecycle_stage e))
                    INVALID_PARAMETER_VALUE)
      else return ())"

text \<open>
  \<open>update_run_info\<close>; the result is the \<open>info\<close> of the entity, read from the updated
  object (the model returns the row as updated).
\<close>

definition update_run_info ::
  "database \<Rightarrow> string \<Rightarrow> run_status \<Rightarrow> int option \<Rightarrow> (py_exception + SqlRun) \<times> database" where
  "update_run_info d run_id status end_time =
     ManagedSessionMaker
       (and_then (priv_get_run run_id)
          (\<lambda>run. and_then (priv_check_run_is_active run)
             (\<lambda>_. and_then (priv_save_to_db (UPDATE_run_status_end_time (run_run_uuid run) status end_time))
                (\<lambda>_. return (run\<lparr>run_status := status, run_end_time := end_time\<rparr>))))) d"

definition delete_run :: "database \<Rightarrow> string \<Rightarrow> (py_exception + unit) \<times> database" where
  "delete_run d run_id =
     ManagedSessionMaker
       (and_then (priv_get_run run_id)
          (\<lambda>run. and_then (priv_check_run_is_active run)
             (\<lambda>_. priv_save_to_db (UPDATE_run_lifecycle_stage (run_run_uuid run) DELETED)))) d"

subsection \<open>Metrics\<close>

text \<open>
  The variable \<^verbatim>\<open>value\<close> of \<open>log_metric\<close>: the \<^verbatim>\<open>if\<close>/\<^verbatim>\<open>elif\<close>/\<^verbatim>\<open>else\<close> on
  \<^verbatim>\<open>math.isnan\<close> and \<^verbatim>\<open>math.isinf\<close>. In the last branch the value is finite. The
  row that \<open>log_metric\<close> looks for and creates holds it in its value column, as a
  64-bit float. (The object that \<open>_get_or_create\<close> creates keeps the number as it
  was given until the commit. For a float there is no difference. For an int that
  no float represents, \<open>_compare_metrics\<close> on the int and on its float differ only
  when the row of the LatestMetric table holds that float already, with the step
  and the timestamp of the new fact, and then the row that is merged is the row
  that exists: the tables that result are the same.)
\<close>

fun finite_value :: "py_float \<Rightarrow> real" where
  "finite_value (Finite x) = x"
| "finite_value v = 0"

definition stored_value :: "py_float \<Rightarrow> real" where
  "stored_value v =
     (if math_isnan v then 0
      else if math_isinf v then (if float_gt_zero v then MAX_FLOAT64 else - MAX_FLOAT64)
      else finite_value v)"

text \<open>\<open>_compare_metrics\<close>: Python's comparison of tuples is the lexicographic order.\<close>

definition priv_compare_metrics :: "SqlMetric \<Rightarrow> SqlLatestMetric \<Rightarrow> bool" where
  "priv_compare_metrics metric_a metric_b =
     ((metric_step metric_a, metric_timestamp metric_a, metric_value metric_a) >
      (latest_step metric_b, latest_timestamp metric_b, latest_value metric_b))"

text \<open>\<^verbatim>\<open>Query.one_or_none\<close>.\<close>

fun one_or_none :: "'a list \<Rightarrow> py_exception + 'a option" where
  "one_or_none [] = Inr None"
| "one_or_none [x] = Inr (Some x)"
| "one_or_none (x # y # rest) = Inl MultipleResultsFound"

definition priv_update_latest_metric_if_necessary :: "SqlMetric \<Rightarrow> unit action" where
  "priv_update_latest_metric_if_necessary logged_metric =
     and_then (query (\<lambda>d. filter (\<lambda>l. latest_run_uuid l = metric_run_uuid logged_metric
                                      \<and> latest_key l = metric_key logged_metric)
                              (latest_metrics d)))
       (\<lambda>found. case one_or_none found of
           Inl e \<Rightarrow> raise e
         | Inr latest_metric \<Rightarrow>
             if latest_metric = None
                \<or> (case latest_metric of None \<Rightarrow> False
                    | Some l \<Rightarrow> priv_compare_metrics logged_metric l)
             then session_merge (MERGE_latest_metric
                    \<lparr>latest_run_uuid = metric_run_uuid logged_metric,
                     latest_key = metric_key logged_metric,
                     latest_value = metric_value logged_metric,
                     latest_timestamp = metric_timestamp logged_metric,
                     latest_step = metric_step logged_metric,
                     latest_is_nan = metric_is_nan logged_metric\<rparr>)
             else return ())"

definition log_metric ::
  "validation \<Rightarrow> database \<Rightarrow> string \<Rightarrow> Metric \<Rightarrow> (py_exception + unit) \<times> database" where
  "log_metric V d run_id metric =
     (case validate_metric V (metric_in_key metric) (metric_in_value metric)
             (metric_in_timestamp metric) (metric_in_step metric) of
        Some e \<Rightarrow> (Inl e, d)
      | None \<Rightarrow>
          let is_nan = math_isnan (metric_in_value metric);
              v = stored_value (metric_in_value metric)
          in ManagedSessionMaker
               (and_then (priv_get_run run_id)
                  (\<lambda>run. and_then (priv_check_run_is_active run)
                     (\<lambda>_. and_then
                        (priv_get_or_create metrics
                           \<lparr>metric_run_uuid = run_id, metric_key = metric_in_key metric,
                            metric_value = nearest_float64 v,
                            metric_timestamp = metric_in_timestamp metric,
                            metric_step = metric_in_step metric, metric_is_nan = is_nan\<rparr>
                           INSERT_metric)
                        (\<lambda>(logged_metric, just_created).
                           if just_created
                           then priv_update_latest_metric_if_necessary logged_metric
                           else return ())))) d)"

subsection \<open>Params and tags\<close>

text \<open>
  \<open>log_param\<close>. The \<^verbatim>\<open>try\<close> block holds \<open>_get_or_create\<close> and the explicit
  \<^verbatim>\<open>session.commit()\<close>; its handler catches \<^verbatim>\<open>IntegrityError\<close> only, rolls the
  session back and reads \<^verbatim>\<open>run.params\<close> (a lazy load: a query).
\<close>

definition log_param :: "database \<Rightarrow> string \<Rightarrow> Param \<Rightarrow> (py_exception + unit) \<times> database" where
  "log_param d run_id param =
     ManagedSessionMaker
       (and_then (priv_get_run run_id)
          (\<lambda>run. and_then (priv_check_run_is_active run)
             (\<lambda>_ session.
                case and_then
                       (priv_get_or_create params
                          \<lparr>param_run_uuid = run_id, param_key = param_in_key param,
                           param_value = param_in_value param\<rparr>
                          INSERT_param)
                       (\<lambda>_. commit) session of
                  (Inl IntegrityError, s) \<Rightarrow>
                    and_then (query (\<lambda>d. filter (\<lambda>p. param_run_uuid p = run_run_uuid run) (params d)))
                      (\<lambda>run_params.
                         let existing_params =
                               map param_value
                                 (filter (\<lambda>p. param_key p = param_in_key param) run_params)
                         in case existing_params of
                              old_value # rest \<Rightarrow>
                                raise (MlflowException
                                         (Changing_param_value (param_in_key param) old_value
                                            run_id (param_in_value param))
                                         INVALID_PARAMETER_VALUE)
                            | [] \<Rightarrow> raise IntegrityError)
                      (rollback s)
                | (r, s) \<Rightarrow> (r, s)))) d"

text \<open>
  \<open>set_experiment_tag\<close>. The tag row is built from the \<open>experiment_id\<close> as the
  caller passed it (the database converts a numeric string), not from the id of
  the experiment that was found.
\<close>

fun column_of_experiment_id :: "experiment_id_arg \<Rightarrow> int option" where
  "column_of_experiment_id (Id_of n) = Some n"
| "column_of_experiment_id x = None"

definition set_experiment_tag ::
  "validation \<Rightarrow> database \<Rightarrow> experiment_id_arg \<Rightarrow> RunTag \<Rightarrow> (py_exception + unit) \<times> database" where
  "set_experiment_tag V d experiment_id tag =
     (case validate_experiment_tag V (tag_in_key tag) (tag_in_value tag) of
        Some e \<Rightarrow> (Inl e, d)
      | None \<Rightarrow>
          ManagedSessionMaker
            (and_then (priv_get_experiment experiment_id ALL_STAGES)
               (\<lambda>e. and_then (priv_check_experiment_is_active e)
                  (\<lambda>_. session_merge (MERGE_experiment_tag
                          \<lparr>etag_experiment_id = column_of_experiment_id experiment_id,
                           etag_key = tag_in_key tag, etag_value = tag_in_value tag\<rparr>)))) d)"

definition set_tag ::
  "validation \<Rightarrow> database \<Rightarrow> string \<Rightarrow> RunTag \<Rightarrow> (py_exception + unit) \<times> database" where
  "set_tag V d run_id tag =
     ManagedSessionMaker
       (and_then (validated (validate_tag V (tag_in_key tag) (tag_in_value tag)))
          (\<lambda>_. and_then (priv_get_run run_id)
             (\<lambda>run. and_then (priv_check_run_is_active run)
                (\<lambda>_. session_merge (MERGE_tag
                        \<lparr>tag_run_uuid = run_id, tag_key = tag_in_key tag,
                         tag_value = tag_in_value tag\<rparr>))))) d"

definition delete_tag :: "database \<Rightarrow> string \<Rightarrow> string \<Rightarrow> (py_exception + unit) \<times> database" where
  "delete_tag d run_id key =
     ManagedSessionMaker
       (and_then (priv_get_run run_id)
          (\<lambda>run. and_then (priv_check_run_is_active run)
             (\<lambda>_. and_then (query (\<lambda>d. filter (\<lambda>t. tag_run_uuid t = run_id \<and> tag_key t = key) (tags d)))
                (\<lambda>filtered_tags. case filtered_tags of
                    [] \<Rightarrow> raise (MlflowException (No_tag_with_name key run_id)
                                  RESOURCE_DOES_NOT_EXIST)
                  | [t] \<Rightarrow> queue (DELETE_tag t)
                  | t # rest \<Rightarrow> raise (MlflowException Bad_data_in_database INVALID_STATE))))) d"

subsection \<open>Batches\<close>


text \<open>
  The handlers of \<open>log_batch\<close>: \<^verbatim>\<open>except MlflowException as e: raise e\<close> and
  \<^verbatim>\<open>except Exception as e: raise MlflowException(e, INTERNAL_ERROR)\<close>.
\<close>

definition reraise :: "py_exception \<Rightarrow> py_exception" where
  "reraise e = (if is_MlflowException e then e else MlflowException (Wrapped e) INTERNAL_ERROR)"


text \<open>The row of the params table that \<open>log_param\<close> looks for and creates.\<close>

definition param_row :: "string \<Rightarrow> Param \<Rightarrow> SqlParam" where
  "param_row run_id param = \<lparr>param_run_uuid = run_id, param_key = param_in_key param,
                              param_value = param_in_value param\<rparr>"

subsection \<open>Notions used to state the properties\<close>

text \<open>
  The Metric fact that \<open>log_metric\<close> looks for and creates (the keyword arguments
  of its \<open>_get_or_create\<close>), and the LatestMetric row that
  \<open>_update_latest_metric_if_necessary\<close> merges for a fact.
\<close>

definition metric_row :: "string \<Rightarrow> Metric \<Rightarrow> SqlMetric" where
  "metric_row run_id metric =
     \<lparr>metric_run_uuid = run_id, metric_key = metric_in_key metric,
      metric_value = nearest_float64 (stored_value (metric_in_value metric)),
      metric_timestamp = metric_in_timestamp metric,
      metric_step = metric_in_step metric,
      metric_is_nan = math_isnan (metric_in_value metric)\<rparr>"

definition latest_of :: "SqlMetric \<Rightarrow> SqlLatestMetric" where
  "latest_of f = \<lparr>latest_run_uuid = metric_run_uuid f, latest_key = metric_key f,
                  latest_value = metric_value f, latest_timestamp = metric_timestamp f,
                  latest_step = metric_step f, latest_is_nan = metric_is_nan f\<rparr>"

text \<open>The LatestMetric rows of a run and key, and the tuple that orders facts.\<close>

definition latest_for :: "string \<Rightarrow> string \<Rightarrow> database \<Rightarrow> SqlLatestMetric list" where
  "latest_for r k d = filter (\<lambda>l. latest_run_uuid l = r \<and> latest_key l = k) (latest_metrics d)"

definition metric_tuple :: "SqlMetric \<Rightarrow> int \<times> int \<times> real" where
  "metric_tuple f = (metric_step f, metric_timestamp f, metric_value f)"

text \<open>
  The facts of a run and key, in the order in which the table holds them: a new
  fact is appended, so this is the order in which they were created.
\<close>

definition facts_of :: "string \<Rightarrow> string \<Rightarrow> database \<Rightarrow> SqlMetric list" where
  "facts_of r k d = filter (\<lambda>f. metric_run_uuid f = r \<and> metric_key f = k) (metrics d)"

text \<open>
  The invariant of the LatestMetric table, for one run and key. Without a fact of
  that run and key there is no row. With facts there is exactly one row, and it
  holds the first of the facts whose \<open>(step, timestamp, value)\<close> is greatest: the
  facts created earlier are strictly smaller, the facts created later are not
  greater. (Two facts have the same tuple when one was logged as NaN and the other
  as \<open>0\<close>.) The invariant of the table is that of every run and key.
\<close>

definition latest_row_inv :: "string \<Rightarrow> string \<Rightarrow> database \<Rightarrow> bool" where
  "latest_row_inv r k d =
     ((facts_of r k d = [] \<and> latest_for r k d = [])
      \<or> (\<exists>earlier g later.
            facts_of r k d = earlier @ g # later
            \<and> latest_for r k d = [latest_of g]
            \<and> (\<forall>h \<in> set earlier. metric_tuple h < metric_tuple g)
            \<and> (\<forall>h \<in> set later. metric_tuple h \<le> metric_tuple g)))"

definition latest_metric_inv :: "database \<Rightarrow> bool" where
  "latest_metric_inv d = (\<forall>r k. latest_row_inv r k d)"

text \<open>A sequence of calls of \<open>log_metric\<close>, each on the database that the call
  before it left, whether it failed or not.\<close>

fun log_metrics :: "validation \<Rightarrow> database \<Rightarrow> (string \<times> Metric) list \<Rightarrow> database" where
  "log_metrics V d [] = d"
| "log_metrics V d ((run_id, metric) # rest) =
     log_metrics V (snd (log_metric V d run_id metric)) rest"

text \<open>
  The facts that such a sequence logs: the fact of every call that returns without
  an error, in the order of the calls. \<open>add_fact\<close> appends a fact to a table that
  does not hold it.
\<close>

fun logged_facts :: "validation \<Rightarrow> database \<Rightarrow> (string \<times> Metric) list \<Rightarrow> SqlMetric list" where
  "logged_facts V d [] = []"
| "logged_facts V d ((run_id, metric) # rest) =
     (case log_metric V d run_id metric of
        (Inl e, d') \<Rightarrow> logged_facts V d' rest
      | (Inr u, d') \<Rightarrow> metric_row run_id metric # logged_facts V d' rest)"

definition add_fact :: "SqlMetric \<Rightarrow> SqlMetric list \<Rightarrow> SqlMetric list" where
  "add_fact f table = (if f \<in> set table then table else table @ [f])"

text \<open>
  What the session of \<open>log_metric\<close> commits once it has created the fact \<open>f\<close>:
  the fact, and the LatestMetric row of \<open>f\<close> when no row of that run and key exists
  or \<open>f\<close> compares greater than the one that exists.
\<close>

definition after_new_fact :: "SqlMetric \<Rightarrow> database \<Rightarrow> (py_exception + unit) \<times> database" where
  "after_new_fact f d =
     (let merged = d\<lparr>metrics := metrics d @ [f],
                     latest_metrics := merge_row (\<lambda>x. (latest_run_uuid x, latest_key x))
                                         (latest_of f) (latest_metrics d)\<rparr>
      in case latest_for (metric_run_uuid f) (metric_key f) d of
           [] \<Rightarrow> (Inr (), merged)
         | [l] \<Rightarrow> if priv_compare_metrics f l then (Inr (), merged)
                  else (Inr (), d\<lparr>metrics := metrics d @ [f]\<rparr>)
         | l # l' # rest \<Rightarrow>
             (Inl (MlflowException (Wrapped MultipleResultsFound) INTERNAL_ERROR), d))"

text \<open>An action that never changes the committed database.\<close>

definition keeps_committed :: "'a action \<Rightarrow> bool" where
  "keeps_committed m = (\<forall>s r s'. m s = (r, s') \<longrightarrow> committed s' = committed s)"




subsection \<open>A small store\<close>

text \<open>
  A store used to run the operations on concrete data: the default experiment, a
  deleted experiment, an active and a deleted run, one param and one tag; and
  validators that accept every argument.
\<close>

definition accept_all :: validation where
  "accept_all = \<lparr>validate_metric = (\<lambda>k v t s. None),
                  validate_experiment_tag = (\<lambda>k v. None),
                  validate_tag = (\<lambda>k v. None),
                  validate_run_id = (\<lambda>r. None),
                  validate_batch_log_data = (\<lambda>m p t. None),
                  validate_batch_log_limits = (\<lambda>m p t. None)\<rparr>"

definition default_experiment :: SqlExperiment where
  "default_experiment = \<lparr>exp_experiment_id = 0, exp_name = ''Default'',
     exp_artifact_location = Some ''root/0'', exp_lifecycle_stage = ACTIVE\<rparr>"

definition old_experiment :: SqlExperiment where
  "old_experiment = \<lparr>exp_experiment_id = 1, exp_name = ''old'',
     exp_artifact_location = Some ''root/1'', exp_lifecycle_stage = DELETED\<rparr>"

definition active_run :: SqlRun where
  "active_run = \<lparr>run_run_uuid = ''r1'', run_experiment_id = 0, run_user_id = ''u'',
     run_status = RUNNING, run_start_time = 0, run_end_time = None,
     run_artifact_uri = ''root/0/r1/artifacts'', run_lifecycle_stage = ACTIVE\<rparr>"

definition deleted_run :: SqlRun where
  "deleted_run = \<lparr>run_run_uuid = ''r2'', run_experiment_id = 0, run_user_id = ''u'',
     run_status = FINISHED, run_start_time = 0, run_end_time = Some 9,
     run_artifact_uri = ''root/0/r2/artifacts'', run_lifecycle_stage = DELETED\<rparr>"

definition small_store :: database where
  "small_store = \<lparr>experiments = [default_experiment, old_experiment],
     runs = [active_run, deleted_run],
     metrics = [], latest_metrics = [],
     params = [\<lparr>param_run_uuid = ''r1'', param_key = ''lr'', param_value = ''0.1''\<rparr>],
     tags = [\<lparr>tag_run_uuid = ''r1'', tag_key = ''t'', tag_value = ''a''\<rparr>],
     experiment_tags = []\<rparr>"

section \<open>Properties\<close>

subsection \<open>Flushing and committing\<close>

lemma flush_nopending: "pending s = [] \<Longrightarrow> flush s = (Inr (), s)"
  by (simp add: flush_def)

lemma query_nopending: "pending s = [] \<Longrightarrow> query select s = (Inr (select (txn s)), s)"
  by (simp add: query_def and_then_def flush_nopending)

text \<open>The database rejects a statement with an integrity error and nothing else.\<close>

lemma execute_error: "execute q d = Inl e \<Longrightarrow> e = IntegrityError"
  by (cases q) (simp_all split: if_splits)

lemma execute_all_error: "execute_all qs d k = Inl e \<Longrightarrow> e = IntegrityError"
  by (induction qs arbitrary: d k) (auto split: sum.splits dest: execute_error)

lemma flush_calls:
  assumes "flush s = (r, s')"
  shows "calls s' = calls s" and "committed s' = committed s"
    and "r = Inl e \<Longrightarrow> e = IntegrityError"
proof -
  show "calls s' = calls s"
    using assms by (cases "execute_all (pending s) (txn s) (new_key s)") (auto simp: flush_def)
  show "committed s' = committed s"
    using assms by (cases "execute_all (pending s) (txn s) (new_key s)") (auto simp: flush_def)
  show "r = Inl e \<Longrightarrow> e = IntegrityError"
    using assms execute_all_error[of "pending s" "txn s" "new_key s"]
    by (cases "execute_all (pending s) (txn s) (new_key s)") (auto simp: flush_def)
qed

lemma commit_Inr: "flush s = (Inr u, sf) \<Longrightarrow>
    commit s = (Inr (), sf\<lparr>committed := txn sf, calls := calls s @ [Commit]\<rparr>)"
  using flush_calls(1)[of s "Inr u" sf] by (simp add: commit_def)

lemma commit_Inl: "flush s = (Inl e, sf) \<Longrightarrow>
    commit s = (Inl IntegrityError, sf\<lparr>calls := calls s @ [Commit]\<rparr>) \<and> e = IntegrityError"
  using flush_calls(1)[of s "Inl e" sf] flush_calls(3)[of s "Inl e" sf e]
  by (simp add: commit_def)

lemma and_then_Inr: "m s = (Inr x, s') \<Longrightarrow> and_then m f s = f x s'"
  by (simp add: and_then_def)

lemma and_then_Inl: "m s = (Inl e, s') \<Longrightarrow> and_then m f s = (Inl e, s')"
  by (simp add: and_then_def)

lemma SessionMaker_simps:
  "pending (SessionMaker d) = []" "txn (SessionMaker d) = d" "committed (SessionMaker d) = d"
  "new_key (SessionMaker d) = None" "calls (SessionMaker d) = []"
  by (simp_all add: SessionMaker_def)

subsection \<open>The managed session\<close>

lemma managed_Inl_Mlflow:
  "body (SessionMaker d) = (Inl (MlflowException m c), sb) \<Longrightarrow>
   make_managed_session body d = (Inl (MlflowException m c), close (rollback sb))"
  by (simp add: make_managed_session_def)

lemma managed_Inl_other:
  "body (SessionMaker d) = (Inl e, sb) \<Longrightarrow> \<not> is_MlflowException e \<Longrightarrow>
   make_managed_session body d =
     (Inl (MlflowException (Wrapped e) INTERNAL_ERROR), close (rollback sb))"
  by (simp add: make_managed_session_def)

lemma managed_Inr_ok:
  "body (SessionMaker d) = (Inr x, sb) \<Longrightarrow> flush sb = (Inr u, sf) \<Longrightarrow>
   make_managed_session body d =
     (Inr x, close (sf\<lparr>committed := txn sf, calls := calls sb @ [Commit]\<rparr>))"
  by (simp add: make_managed_session_def commit_Inr)

lemma managed_Inr_rejected:
  "body (SessionMaker d) = (Inr x, sb) \<Longrightarrow> flush sb = (Inl e, sf) \<Longrightarrow>
   make_managed_session body d =
     (Inl (MlflowException (Wrapped IntegrityError) INTERNAL_ERROR),
      close (rollback (sf\<lparr>calls := calls sb @ [Commit]\<rparr>)))"
  by (simp add: make_managed_session_def commit_Inl)

lemma calls_close_rollback: "calls (close (rollback s)) = calls s @ [Rollback, Close]"
  by (simp add: close_def rollback_def)

lemma committed_close_rollback: "committed (close (rollback s)) = committed s"
  by (simp add: close_def rollback_def)

text \<open>
  Claim C3. Let the body of a managed session end with the result \<open>rb\<close> in the
  session \<open>sb\<close>. If the body returns, the manager calls \<open>commit\<close>: when the flush of
  the commit goes through, the block returns the body's value and the flushed
  transaction is the committed database; when the database rejects the flush, the
  session is rolled back and the rejection is raised wrapped as an internal error.
  If the body raises an \<open>MlflowException\<close>, the session is rolled back and the same
  exception is raised; if it raises any other exception, the session is rolled back
  and the exception is raised wrapped in an \<open>MlflowException\<close> with
  \<open>INTERNAL_ERROR\<close>. In every case the manager closes the session exactly once, as
  its last call.
\<close>

theorem managed_session_contract:
  assumes body: "body (SessionMaker d) = (rb, sb)"
    and res: "make_managed_session body d = (r, s_end)"
  shows "(\<forall>x sf. rb = Inr x \<and> flush sb = (Inr (), sf) \<longrightarrow>
            r = Inr x \<and> calls s_end = calls sb @ [Commit, Close] \<and> committed s_end = txn sf)
       \<and> (\<forall>x e sf. rb = Inr x \<and> flush sb = (Inl e, sf) \<longrightarrow>
            r = Inl (MlflowException (Wrapped e) INTERNAL_ERROR)
            \<and> calls s_end = calls sb @ [Commit, Rollback, Close] \<and> committed s_end = committed sb)
       \<and> (\<forall>m c. rb = Inl (MlflowException m c) \<longrightarrow>
            r = Inl (MlflowException m c)
            \<and> calls s_end = calls sb @ [Rollback, Close] \<and> committed s_end = committed sb)
       \<and> (\<forall>e. rb = Inl e \<and> \<not> is_MlflowException e \<longrightarrow>
            r = Inl (MlflowException (Wrapped e) INTERNAL_ERROR)
            \<and> calls s_end = calls sb @ [Rollback, Close] \<and> committed s_end = committed sb)
       \<and> count_list (calls s_end) Close = count_list (calls sb) Close + 1"
proof -
  have ok: "r = Inr x \<and> calls s_end = calls sb @ [Commit, Close] \<and> committed s_end = txn sf"
    if "rb = Inr x" "flush sb = (Inr (), sf)" for x sf
    using managed_Inr_ok[of body d x sb "()" sf] that body res by (simp add: close_def)
  have rejected: "r = Inl (MlflowException (Wrapped e) INTERNAL_ERROR)
      \<and> calls s_end = calls sb @ [Commit, Rollback, Close] \<and> committed s_end = committed sb"
    if "rb = Inr x" "flush sb = (Inl e, sf)" for x e sf
    using managed_Inr_rejected[of body d x sb e sf] commit_Inl[of sb e sf]
      flush_calls(2)[of sb "Inl e" sf] that body res
    by (simp add: close_def rollback_def)
  have domain: "r = Inl (MlflowException m c)
      \<and> calls s_end = calls sb @ [Rollback, Close] \<and> committed s_end = committed sb"
    if "rb = Inl (MlflowException m c)" for m c
    using managed_Inl_Mlflow[of body d m c sb] that body res
    by (simp add: calls_close_rollback committed_close_rollback)
  have other: "r = Inl (MlflowException (Wrapped e) INTERNAL_ERROR)
      \<and> calls s_end = calls sb @ [Rollback, Close] \<and> committed s_end = committed sb"
    if "rb = Inl e" "\<not> is_MlflowException e" for e
    using managed_Inl_other[of body d e sb] that body res
    by (simp add: calls_close_rollback committed_close_rollback)
  have once: "count_list (calls s_end) Close = count_list (calls sb) Close + 1"
  proof (cases rb)
    case (Inl e)
    show ?thesis
    proof (cases "is_MlflowException e")
      case True
      then obtain m c where "e = MlflowException m c" by (cases e) simp_all
      with domain[of m c] Inl show ?thesis by simp
    next
      case False
      with other[of e] Inl show ?thesis by simp
    qed
  next
    case (Inr x)
    obtain rf sf where fl: "flush sb = (rf, sf)" by (cases "flush sb")
    show ?thesis
    proof (cases rf)
      case (Inl e)
      with rejected[of x e sf] Inr fl show ?thesis by simp
    next
      case (Inr u)
      with ok[of x sf] \<open>rb = Inr x\<close> fl show ?thesis by simp
    qed
  qed
  from ok rejected domain other once show ?thesis by blast
qed

subsection \<open>Looking rows up\<close>

lemma filter_key_unique:
  "distinct (map f xs) \<Longrightarrow> x \<in> set xs \<Longrightarrow> filter (\<lambda>y. f y = f x) xs = [x]"
proof (induction xs)
  case Nil
  then show ?case by simp
next
  case (Cons a xs)
  show ?case
  proof (cases "a = x")
    case True
    have "f x \<notin> f ` set xs"
      using Cons.prems(1) True by simp
    then have "\<forall>y \<in> set xs. f y \<noteq> f x"
      by (metis imageI)
    then have "filter (\<lambda>y. f y = f x) xs = []"
      by (simp add: filter_empty_conv)
    with True show ?thesis by simp
  next
    case False
    with Cons.prems have "x \<in> set xs" by simp
    moreover from this Cons.prems(1) have "f a \<noteq> f x" by auto
    ultimately show ?thesis using Cons by simp
  qed
qed

lemma stage_cases: "s = ACTIVE \<or> s = DELETED"
  by (cases s) simp_all

lemma list_all_stages:
  "priv_list_experiments (Some [Id_of n]) None ALL_STAGES = Inr c \<Longrightarrow>
   filter c xs = filter (\<lambda>e. exp_experiment_id e = n) xs"
  using stage_cases by (auto simp: priv_list_experiments_def Let_def intro!: filter_cong)

lemma list_experiments_ok:
  "\<exists>c. priv_list_experiments (Some [Id_of n]) None v = Inr c
      \<and> (\<forall>e. c e = (exp_lifecycle_stage e \<in> set (view_type_to_stages v) \<and> exp_experiment_id e = n))"
  by (simp add: priv_list_experiments_def Let_def)

lemma list_experiments_not_a_number:
  "priv_list_experiments (Some [Not_a_number]) None v = Inl ValueError"
  by (simp add: priv_list_experiments_def Let_def)

text \<open>What a lookup of the experiment \<open>n\<close> in the view \<open>v\<close> returns.\<close>

lemma priv_get_experiment_rows:
  assumes "pending s = []" and "or_default i = Id_of n"
  shows "priv_get_experiment i v s =
     (case filter (\<lambda>e. exp_lifecycle_stage e \<in> set (view_type_to_stages v) \<and> exp_experiment_id e = n)
             (experiments (txn s)) of
        [] \<Rightarrow> (Inl (MlflowException (No_experiment_with_id (Id_of n)) RESOURCE_DOES_NOT_EXIST), s)
      | [e] \<Rightarrow> (Inr e, s)
      | e # e' # rest \<Rightarrow> (Inl (MlflowException (Expected_only_1_experiment (Id_of n)
             (length (filter (\<lambda>e. exp_lifecycle_stage e \<in> set (view_type_to_stages v) \<and> exp_experiment_id e = n)
             (experiments (txn s))))) INVALID_STATE), s))"
proof -
  obtain c where c: "priv_list_experiments (Some [Id_of n]) None v = Inr c"
    and ce: "\<And>e. c e = (exp_lifecycle_stage e \<in> set (view_type_to_stages v) \<and> exp_experiment_id e = n)"
    using list_experiments_ok[of n v] by blast
  have "c = (\<lambda>e. exp_lifecycle_stage e \<in> set (view_type_to_stages v) \<and> exp_experiment_id e = n)"
    using ce by auto
  then show ?thesis
    using assms c
    by (simp add: priv_get_experiment_def Let_def and_then_def query_def flush_nopending
          return_def raise_def split: list.splits)
qed

lemma priv_get_experiment_not_a_number:
  "priv_get_experiment Not_a_number v s = (Inl ValueError, s)"
  by (simp add: priv_get_experiment_def Let_def list_experiments_not_a_number raise_def)

lemma or_default_cases:
  "or_default i = Not_a_number \<and> i = Not_a_number \<or> (\<exists>n. or_default i = Id_of n)"
  by (cases i) (simp_all add: DEFAULT_EXPERIMENT_ID_def)



lemma Managed_Inr:
  "body (SessionMaker d) = (Inr x, sb) \<Longrightarrow> flush sb = (Inr u, sf) \<Longrightarrow>
   ManagedSessionMaker body d = (Inr x, txn sf)"
  by (simp add: ManagedSessionMaker_def managed_Inr_ok close_def)

lemma Managed_Inr_rejected:
  "body (SessionMaker d) = (Inr x, sb) \<Longrightarrow> flush sb = (Inl e, sf) \<Longrightarrow>
   ManagedSessionMaker body d =
     (Inl (MlflowException (Wrapped IntegrityError) INTERNAL_ERROR), committed sb)"
  using flush_calls(2)[of sb "Inl e" sf]
  by (simp add: ManagedSessionMaker_def managed_Inr_rejected close_def rollback_def)

lemma Managed_Inl:
  "body (SessionMaker d) = (Inl e, sb) \<Longrightarrow>
   ManagedSessionMaker body d = (Inl (reraise e), committed sb)"
  by (cases "is_MlflowException e")
     (simp_all add: ManagedSessionMaker_def make_managed_session_def reraise_def
        close_def rollback_def)


lemma Managed_readonly_Inr:
  "body (SessionMaker d) = (Inr x, SessionMaker d) \<Longrightarrow> ManagedSessionMaker body d = (Inr x, d)"
  using Managed_Inr[of body d x "SessionMaker d" "()" "SessionMaker d"]
  by (simp add: flush_nopending SessionMaker_simps)

lemma reraise_Mlflow: "reraise (MlflowException m c) = MlflowException m c"
  by (simp add: reraise_def)

lemma get_experiment_rows:
  assumes "or_default i = Id_of n"
  shows "get_experiment d i =
     (case filter (\<lambda>e. exp_experiment_id e = n) (experiments d) of
        [] \<Rightarrow> (Inl (MlflowException (No_experiment_with_id (Id_of n)) RESOURCE_DOES_NOT_EXIST), d)
      | [e] \<Rightarrow> (Inr e, d)
      | e # e' # rest \<Rightarrow> (Inl (MlflowException (Expected_only_1_experiment (Id_of n)
             (length (filter (\<lambda>e. exp_experiment_id e = n) (experiments d)))) INVALID_STATE), d))"
proof -
  let ?rows = "filter (\<lambda>e. exp_experiment_id e = n) (experiments d)"
  have all: "(\<lambda>e. exp_lifecycle_stage e \<in> set (view_type_to_stages ALL_STAGES) \<and> exp_experiment_id e = n)
      = (\<lambda>e. exp_experiment_id e = n)"
    using stage_cases by auto
  have body: "priv_get_experiment i ALL_STAGES (SessionMaker d) =
     (case ?rows of
        [] \<Rightarrow> (Inl (MlflowException (No_experiment_with_id (Id_of n)) RESOURCE_DOES_NOT_EXIST), SessionMaker d)
      | [e] \<Rightarrow> (Inr e, SessionMaker d)
      | e # e' # rest \<Rightarrow> (Inl (MlflowException (Expected_only_1_experiment (Id_of n)
             (length ?rows)) INVALID_STATE), SessionMaker d))"
    using priv_get_experiment_rows[of "SessionMaker d" i n ALL_STAGES] assms
    by (simp only: all SessionMaker_simps)
  show ?thesis
  proof (cases ?rows)
    case Nil
    with body show ?thesis
      by (simp add: get_experiment_def Managed_Inl reraise_Mlflow SessionMaker_simps)
  next
    case (Cons e rest)
    show ?thesis
    proof (cases rest)
      case Nil
      with Cons body show ?thesis
        by (simp add: get_experiment_def Managed_readonly_Inr)
    next
      case (Cons e' rest')
      with \<open>?rows = e # rest\<close> body show ?thesis
        by (simp add: get_experiment_def Managed_Inl reraise_Mlflow SessionMaker_simps)
    qed
  qed
qed

lemma get_experiment_not_a_number:
  "get_experiment d Not_a_number = (Inl (MlflowException (Wrapped ValueError) INTERNAL_ERROR), d)"
  by (simp add: get_experiment_def Managed_Inl[OF priv_get_experiment_not_a_number]
        reraise_def SessionMaker_simps)

text \<open>
  The contract of the managed session on three blocks run on the small store: a
  lookup that returns, a guard that raises an \<open>MlflowException\<close>, and a lookup that
  raises a \<^verbatim>\<open>ValueError\<close>.
\<close>

theorem managed_session_contract_witness:
  "fst (make_managed_session (priv_get_run ''r1'') small_store) = Inr active_run
   \<and> calls (snd (make_managed_session (priv_get_run ''r1'') small_store)) = [Commit, Close]
   \<and> committed (snd (make_managed_session (priv_get_run ''r1'') small_store)) = small_store
   \<and> fst (make_managed_session (and_then (priv_get_run ''r2'') priv_check_run_is_active) small_store)
       = Inl (MlflowException (Run_must_be_active ''r2'' DELETED) INVALID_PARAMETER_VALUE)
   \<and> calls (snd (make_managed_session (and_then (priv_get_run ''r2'') priv_check_run_is_active) small_store))
       = [Rollback, Close]
   \<and> fst (make_managed_session (priv_get_experiment Not_a_number ALL_STAGES) small_store)
       = Inl (MlflowException (Wrapped ValueError) INTERNAL_ERROR)
   \<and> calls (snd (make_managed_session (priv_get_experiment Not_a_number ALL_STAGES) small_store))
       = [Rollback, Close]"
proof -
  let ?s = "SessionMaker small_store"
  have runs: "runs small_store = [active_run, deleted_run]"
    by (simp add: small_store_def)
  have b1: "priv_get_run ''r1'' ?s = (Inr active_run, ?s)"
    by (simp add: priv_get_run_def and_then_def query_nopending SessionMaker_simps runs
          active_run_def deleted_run_def return_def)
  have b2: "and_then (priv_get_run ''r2'') priv_check_run_is_active ?s
      = (Inl (MlflowException (Run_must_be_active ''r2'' DELETED) INVALID_PARAMETER_VALUE), ?s)"
    by (simp add: priv_get_run_def and_then_def query_nopending SessionMaker_simps runs
          active_run_def deleted_run_def return_def raise_def priv_check_run_is_active_def)
  have b3: "priv_get_experiment Not_a_number ALL_STAGES ?s = (Inl ValueError, ?s)"
    by (rule priv_get_experiment_not_a_number)
  let ?m1 = "make_managed_session (priv_get_run ''r1'') small_store"
  let ?m2 = "make_managed_session (and_then (priv_get_run ''r2'') priv_check_run_is_active) small_store"
  let ?m3 = "make_managed_session (priv_get_experiment Not_a_number ALL_STAGES) small_store"
  note c1 = managed_session_contract[of "priv_get_run ''r1''" small_store
      "Inr active_run" ?s "fst ?m1" "snd ?m1"]
  note c2 = managed_session_contract[of "and_then (priv_get_run ''r2'') priv_check_run_is_active"
      small_store "Inl (MlflowException (Run_must_be_active ''r2'' DELETED) INVALID_PARAMETER_VALUE)"
      ?s "fst ?m2" "snd ?m2"]
  note c3 = managed_session_contract[of "priv_get_experiment Not_a_number ALL_STAGES" small_store
      "Inl ValueError" ?s "fst ?m3" "snd ?m3"]
  show ?thesis
    using c1 c2 c3 b1 b2 b3 by (simp add: flush_nopending SessionMaker_simps)
qed

subsection \<open>Reading an experiment\<close>

text \<open>
  Claim C10. In a store whose experiment ids are distinct (the primary key),
  \<open>get_experiment\<close> returns every experiment of the table for its id, whatever
  its lifecycle stage, and it raises \<open>RESOURCE_DOES_NOT_EXIST\<close> exactly when the id
  is that of no row of the table (\<^verbatim>\<open>None\<close> and the empty string stand for the
  default id \<open>0\<close>).
\<close>

theorem get_experiment_any_stage:
  assumes "distinct (map exp_experiment_id (experiments d))"
  shows "(\<forall>e \<in> set (experiments d). get_experiment d (Id_of (exp_experiment_id e)) = (Inr e, d))
       \<and> (\<forall>i. (\<exists>m d'. get_experiment d i = (Inl (MlflowException m RESOURCE_DOES_NOT_EXIST), d'))
              \<longleftrightarrow> (\<exists>n. or_default i = Id_of n \<and> n \<notin> set (map exp_experiment_id (experiments d))))"
proof (intro conjI ballI allI)
  fix e assume "e \<in> set (experiments d)"
  then have "filter (\<lambda>x. exp_experiment_id x = exp_experiment_id e) (experiments d) = [e]"
    using assms by (rule filter_key_unique[rotated])
  then show "get_experiment d (Id_of (exp_experiment_id e)) = (Inr e, d)"
    by (simp add: get_experiment_rows[of "Id_of (exp_experiment_id e)" "exp_experiment_id e" d])
next
  fix i
  show "(\<exists>m d'. get_experiment d i = (Inl (MlflowException m RESOURCE_DOES_NOT_EXIST), d'))
      \<longleftrightarrow> (\<exists>n. or_default i = Id_of n \<and> n \<notin> set (map exp_experiment_id (experiments d)))"
  proof (cases "or_default i")
    case (Id_of n)
    have "(filter (\<lambda>e. exp_experiment_id e = n) (experiments d) = [])
        = (n \<notin> set (map exp_experiment_id (experiments d)))"
      by (auto simp: filter_empty_conv)
    then show ?thesis
      using Id_of by (auto simp: get_experiment_rows[OF Id_of] split: list.splits)
  next
    case Not_a_number
    then have "i = Not_a_number" by (cases i) (simp_all add: DEFAULT_EXPERIMENT_ID_def)
    with Not_a_number show ?thesis by (simp add: get_experiment_not_a_number)
  next
    case Empty_string
    then show ?thesis by (cases i) (simp_all add: DEFAULT_EXPERIMENT_ID_def)
  next
    case Py_None
    then show ?thesis by (cases i) (simp_all add: DEFAULT_EXPERIMENT_ID_def)
  qed
qed

theorem get_experiment_any_stage_witness:
  "get_experiment small_store (Id_of 1) = (Inr old_experiment, small_store)
   \<and> exp_lifecycle_stage old_experiment = DELETED
   \<and> (\<exists>m d'. get_experiment small_store (Id_of 7)
                 = (Inl (MlflowException m RESOURCE_DOES_NOT_EXIST), d'))"
proof -
  have exps: "experiments small_store = [default_experiment, old_experiment]"
    by (simp add: small_store_def)
  have ids: "map exp_experiment_id (experiments small_store) = [0, 1]"
    by (simp add: exps default_experiment_def old_experiment_def)
  have d: "distinct (map exp_experiment_id (experiments small_store))"
    by (simp add: ids)
  note main = get_experiment_any_stage[OF d]
  from main have "get_experiment small_store (Id_of (exp_experiment_id old_experiment))
      = (Inr old_experiment, small_store)"
    by (simp add: exps)
  then have a: "get_experiment small_store (Id_of 1) = (Inr old_experiment, small_store)"
    by (simp add: old_experiment_def)
  from main have "(\<exists>m d'. get_experiment small_store (Id_of 7)
        = (Inl (MlflowException m RESOURCE_DOES_NOT_EXIST), d'))
      \<longleftrightarrow> (\<exists>n. or_default (Id_of 7) = Id_of n
               \<and> n \<notin> set (map exp_experiment_id (experiments small_store)))"
    by blast
  then have b: "\<exists>m d'. get_experiment small_store (Id_of 7)
        = (Inl (MlflowException m RESOURCE_DOES_NOT_EXIST), d')"
    by (simp add: ids)
  from a b show ?thesis by (simp add: old_experiment_def)
qed

subsection \<open>Lifecycle guards, deletion and params\<close>

lemma priv_get_run_rows:
  assumes "pending s = []"
  shows "priv_get_run r s =
     (case filter (\<lambda>x. run_run_uuid x = r) (runs (txn s)) of
        [] \<Rightarrow> (Inl (MlflowException (Run_not_found r) RESOURCE_DOES_NOT_EXIST), s)
      | [x] \<Rightarrow> (Inr x, s)
      | x # y # rest \<Rightarrow> (Inl (MlflowException (Expected_only_1_run r
            (length (filter (\<lambda>x. run_run_uuid x = r) (runs (txn s))))) INVALID_STATE), s))"
  using assms
  by (simp add: priv_get_run_def and_then_def query_nopending return_def raise_def
        split: list.splits)

lemma priv_get_run_found:
  assumes "distinct (map run_run_uuid (runs d))" and "run \<in> set (runs d)"
  shows "priv_get_run (run_run_uuid run) (SessionMaker d) = (Inr run, SessionMaker d)"
  using filter_key_unique[OF assms]
  by (simp add: priv_get_run_rows SessionMaker_simps)

lemma and_then_return: "and_then (return x) f = f x"
  by (rule ext) (simp add: and_then_def return_def)

text \<open>The guard at the head of every operation on a run, on a run that is not active.\<close>

lemma run_guard_raises:
  assumes "distinct (map run_run_uuid (runs d))" and "run \<in> set (runs d)"
    and "run_lifecycle_stage run \<noteq> ACTIVE"
  shows "and_then (priv_get_run (run_run_uuid run))
           (\<lambda>r. and_then (priv_check_run_is_active r) (f r)) (SessionMaker d)
       = (Inl (MlflowException (Run_must_be_active (run_run_uuid run) (run_lifecycle_stage run))
                 INVALID_PARAMETER_VALUE), SessionMaker d)"
  using assms(3) priv_get_run_found[OF assms(1,2)]
  by (simp add: and_then_def priv_check_run_is_active_def raise_def)

lemma run_guard_passes:
  assumes "distinct (map run_run_uuid (runs d))" and "run \<in> set (runs d)"
    and "run_lifecycle_stage run = ACTIVE"
  shows "and_then (priv_get_run (run_run_uuid run))
           (\<lambda>r. and_then (priv_check_run_is_active r) (f r)) (SessionMaker d)
       = f run () (SessionMaker d)"
  using assms(3) priv_get_run_found[OF assms(1,2)]
  by (simp add: and_then_def priv_check_run_is_active_def return_def)

lemma Managed_raises:
  "body (SessionMaker d) = (Inl (MlflowException m c), SessionMaker d) \<Longrightarrow>
   ManagedSessionMaker body d = (Inl (MlflowException m c), d)"
  by (simp add: Managed_Inl reraise_Mlflow SessionMaker_simps)

lemma Managed_run_guard_raises:
  assumes "distinct (map run_run_uuid (runs d))" and "run \<in> set (runs d)"
    and "run_lifecycle_stage run \<noteq> ACTIVE"
  shows "ManagedSessionMaker (and_then (priv_get_run (run_run_uuid run))
           (\<lambda>r. and_then (priv_check_run_is_active r) (f r))) d
       = (Inl (MlflowException (Run_must_be_active (run_run_uuid run) (run_lifecycle_stage run))
                 INVALID_PARAMETER_VALUE), d)"
  by (rule Managed_raises) (rule run_guard_raises[OF assms])

lemma priv_get_experiment_found:
  assumes "distinct (map exp_experiment_id (experiments d))" and "e \<in> set (experiments d)"
    and "exp_lifecycle_stage e \<in> set (view_type_to_stages v)"
  shows "priv_get_experiment (Id_of (exp_experiment_id e)) v (SessionMaker d) = (Inr e, SessionMaker d)"
proof -
  have "filter (\<lambda>x. exp_lifecycle_stage x \<in> set (view_type_to_stages v)
                     \<and> exp_experiment_id x = exp_experiment_id e) (experiments d)
      = filter (\<lambda>x. exp_lifecycle_stage x \<in> set (view_type_to_stages v))
          (filter (\<lambda>x. exp_experiment_id x = exp_experiment_id e) (experiments d))"
    by (simp add: conj_commute)
  also have "\<dots> = [e]"
    using filter_key_unique[OF assms(1,2)] assms(3) by simp
  finally show ?thesis
    by (simp add: priv_get_experiment_rows[of "SessionMaker d" _ "exp_experiment_id e"]
          SessionMaker_simps)
qed

lemma in_all_stages: "s \<in> set (view_type_to_stages ALL_STAGES)"
  by (cases s) simp_all

text \<open>
  Claim C4, amended. In a store whose run ids and experiment ids are distinct, every
  mutating operation on a run or an experiment that is not active fails and leaves
  the database as it was. The error code is \<open>INVALID_PARAMETER_VALUE\<close> (the code
  that \<open>_check_run_is_active\<close> and \<open>_check_experiment_is_active\<close> raise) for
  \<open>log_param\<close>, \<open>log_metric\<close>, \<open>set_tag\<close>, \<open>delete_tag\<close>, \<open>update_run_info\<close>,
  \<open>delete_run\<close> and \<open>set_experiment_tag\<close> (for the three with a validator, when
  the validator accepts the arguments), and \<open>INVALID_STATE\<close> for
  \<open>rename_experiment\<close> only.
\<close>

theorem inactive_mutation_fails:
  assumes runs: "distinct (map run_run_uuid (runs d))"
    and exps: "distinct (map exp_experiment_id (experiments d))"
  shows "(\<forall>run \<in> set (runs d). run_lifecycle_stage run \<noteq> ACTIVE \<longrightarrow>
            (let r = run_run_uuid run;
                 err = Inl (MlflowException (Run_must_be_active r (run_lifecycle_stage run))
                              INVALID_PARAMETER_VALUE)
             in log_param d r p = (err, d)
              \<and> (validate_metric V (metric_in_key m) (metric_in_value m) (metric_in_timestamp m)
                    (metric_in_step m) = None \<longrightarrow> log_metric V d r m = (err, d))
              \<and> (\<exists>x. log_metric V d r m = (Inl x, d))
              \<and> (validate_tag V (tag_in_key t) (tag_in_value t) = None \<longrightarrow> set_tag V d r t = (err, d))
              \<and> (\<exists>x. set_tag V d r t = (Inl x, d))
              \<and> delete_tag d r k = (err, d)
              \<and> update_run_info d r status end_time
                   = (Inl (MlflowException (Run_must_be_active r (run_lifecycle_stage run))
                             INVALID_PARAMETER_VALUE), d)
              \<and> delete_run d r = (err, d)))
       \<and> (\<forall>e \<in> set (experiments d). exp_lifecycle_stage e \<noteq> ACTIVE \<longrightarrow>
            (let i = exp_experiment_id e
             in (validate_experiment_tag V (tag_in_key t) (tag_in_value t) = None \<longrightarrow>
                   set_experiment_tag V d (Id_of i) t
                     = (Inl (MlflowException (Experiment_must_be_active i (exp_lifecycle_stage e))
                               INVALID_PARAMETER_VALUE), d))
              \<and> (\<exists>x. set_experiment_tag V d (Id_of i) t = (Inl x, d))
              \<and> rename_experiment d (Id_of i) new_name
                   = (Inl (MlflowException Cannot_rename_non_active INVALID_STATE), d)))"
proof (intro conjI ballI impI)
  fix run assume run: "run \<in> set (runs d)" and stage: "run_lifecycle_stage run \<noteq> ACTIVE"
  note guard = Managed_run_guard_raises[OF runs run stage]
  let ?r = "run_run_uuid run"
  let ?err = "Inl (MlflowException (Run_must_be_active ?r (run_lifecycle_stage run))
                              INVALID_PARAMETER_VALUE) :: py_exception + unit"
  have lp: "log_param d ?r p = (?err, d)"
    unfolding log_param_def by (rule guard)
  have lm: "log_metric V d ?r m = (?err, d)"
    if "validate_metric V (metric_in_key m) (metric_in_value m) (metric_in_timestamp m)
          (metric_in_step m) = None"
    using that unfolding log_metric_def by (simp add: Let_def guard)
  have lm': "\<exists>x. log_metric V d ?r m = (Inl x, d)"
  proof (cases "validate_metric V (metric_in_key m) (metric_in_value m) (metric_in_timestamp m)
          (metric_in_step m)")
    case None
    with lm show ?thesis by blast
  next
    case (Some x)
    then show ?thesis by (simp add: log_metric_def)
  qed
  have st: "set_tag V d ?r t = (?err, d)"
    if "validate_tag V (tag_in_key t) (tag_in_value t) = None"
    using that unfolding set_tag_def
    by (simp add: validated_def and_then_return guard)
  have st': "\<exists>x. set_tag V d ?r t = (Inl x, d)"
  proof (cases "validate_tag V (tag_in_key t) (tag_in_value t)")
    case None
    with st show ?thesis by blast
  next
    case (Some x)
    then have "and_then (validated (validate_tag V (tag_in_key t) (tag_in_value t))) f (SessionMaker d)
        = (Inl x, SessionMaker d)" for f :: "unit \<Rightarrow> unit action"
      by (simp add: validated_def raise_def and_then_def)
    then show ?thesis
      unfolding set_tag_def by (simp add: Managed_Inl SessionMaker_simps)
  qed
  have dt: "delete_tag d ?r k = (?err, d)"
    unfolding delete_tag_def by (rule guard)
  have ur: "update_run_info d ?r status end_time
      = (Inl (MlflowException (Run_must_be_active ?r (run_lifecycle_stage run))
                              INVALID_PARAMETER_VALUE), d)"
    unfolding update_run_info_def by (rule guard)
  have dr: "delete_run d ?r = (?err, d)"
    unfolding delete_run_def by (rule guard)
  from lp lm lm' st st' dt ur dr
  show "let r = run_run_uuid run;
            err = Inl (MlflowException (Run_must_be_active r (run_lifecycle_stage run))
                              INVALID_PARAMETER_VALUE)
        in log_param d r p = (err, d)
              \<and> (validate_metric V (metric_in_key m) (metric_in_value m) (metric_in_timestamp m)
                    (metric_in_step m) = None \<longrightarrow> log_metric V d r m = (err, d))
              \<and> (\<exists>x. log_metric V d r m = (Inl x, d))
              \<and> (validate_tag V (tag_in_key t) (tag_in_value t) = None \<longrightarrow> set_tag V d r t = (err, d))
              \<and> (\<exists>x. set_tag V d r t = (Inl x, d))
              \<and> delete_tag d r k = (err, d)
              \<and> update_run_info d r status end_time
                   = (Inl (MlflowException (Run_must_be_active r (run_lifecycle_stage run))
                             INVALID_PARAMETER_VALUE), d)
              \<and> delete_run d r = (err, d)"
    by (simp add: Let_def)
next
  fix e assume e: "e \<in> set (experiments d)" and stage: "exp_lifecycle_stage e \<noteq> ACTIVE"
  let ?i = "exp_experiment_id e"
  note found = priv_get_experiment_found[OF exps e in_all_stages]
  have guard: "ManagedSessionMaker (and_then (priv_get_experiment (Id_of ?i) ALL_STAGES)
           (\<lambda>x. and_then (priv_check_experiment_is_active x) (f x))) d
       = (Inl (MlflowException (Experiment_must_be_active ?i (exp_lifecycle_stage e))
                 INVALID_PARAMETER_VALUE), d)"
    for f :: "SqlExperiment \<Rightarrow> unit \<Rightarrow> unit action"
    using stage found
    by (intro Managed_raises)
       (simp add: and_then_def priv_check_experiment_is_active_def raise_def)
  have se: "set_experiment_tag V d (Id_of ?i) t
      = (Inl (MlflowException (Experiment_must_be_active ?i (exp_lifecycle_stage e))
                               INVALID_PARAMETER_VALUE), d)"
    if "validate_experiment_tag V (tag_in_key t) (tag_in_value t) = None"
    using that unfolding set_experiment_tag_def by (simp add: guard)
  have se': "\<exists>x. set_experiment_tag V d (Id_of ?i) t = (Inl x, d)"
  proof (cases "validate_experiment_tag V (tag_in_key t) (tag_in_value t)")
    case None
    with se show ?thesis by blast
  next
    case (Some x)
    then show ?thesis by (simp add: set_experiment_tag_def)
  qed
  have re: "rename_experiment d (Id_of ?i) new_name
      = (Inl (MlflowException Cannot_rename_non_active INVALID_STATE), d)"
    unfolding rename_experiment_def
    using stage found
    by (intro Managed_raises) (simp add: and_then_def raise_def)
  from se se' re
  show "let i = exp_experiment_id e
        in (validate_experiment_tag V (tag_in_key t) (tag_in_value t) = None \<longrightarrow>
                   set_experiment_tag V d (Id_of i) t
                     = (Inl (MlflowException (Experiment_must_be_active i (exp_lifecycle_stage e))
                               INVALID_PARAMETER_VALUE), d))
              \<and> (\<exists>x. set_experiment_tag V d (Id_of i) t = (Inl x, d))
              \<and> rename_experiment d (Id_of i) new_name
                   = (Inl (MlflowException Cannot_rename_non_active INVALID_STATE), d)"
    by (simp add: Let_def)
qed

text \<open>
  Claim C4 as stated fails: \<open>delete_run\<close> on the deleted run of the small store
  fails with \<open>INVALID_PARAMETER_VALUE\<close>, not with \<open>INVALID_STATE\<close>.
\<close>

theorem inactive_mutation_counterexample:
  "deleted_run \<in> set (runs small_store) \<and> run_lifecycle_stage deleted_run = DELETED
   \<and> delete_run small_store ''r2''
       = (Inl (MlflowException (Run_must_be_active ''r2'' DELETED) INVALID_PARAMETER_VALUE),
          small_store)
   \<and> \<not> (\<exists>m d'. delete_run small_store ''r2'' = (Inl (MlflowException m INVALID_STATE), d'))"
proof -
  have rs: "runs small_store = [active_run, deleted_run]"
    by (simp add: small_store_def)
  have ids: "distinct (map run_run_uuid (runs small_store))"
    by (simp add: rs active_run_def deleted_run_def)
  have mem: "deleted_run \<in> set (runs small_store)"
    by (simp add: rs)
  have stage: "run_lifecycle_stage deleted_run = DELETED" and uuid: "run_run_uuid deleted_run = ''r2''"
    by (simp_all add: deleted_run_def)
  have "delete_run small_store (run_run_uuid deleted_run)
      = (Inl (MlflowException (Run_must_be_active (run_run_uuid deleted_run)
                (run_lifecycle_stage deleted_run)) INVALID_PARAMETER_VALUE), small_store)"
    unfolding delete_run_def by (rule Managed_run_guard_raises[OF ids mem]) (simp add: stage)
  then have "delete_run small_store ''r2''
       = (Inl (MlflowException (Run_must_be_active ''r2'' DELETED) INVALID_PARAMETER_VALUE),
          small_store)"
    by (simp add: stage uuid)
  with mem stage show ?thesis by simp
qed

theorem inactive_mutation_fails_witness:
  "log_param small_store ''r2'' \<lparr>param_in_key = ''lr'', param_in_value = ''0.1''\<rparr>
     = (Inl (MlflowException (Run_must_be_active ''r2'' DELETED) INVALID_PARAMETER_VALUE), small_store)
   \<and> log_metric accept_all small_store ''r2''
        \<lparr>metric_in_key = ''acc'', metric_in_value = Finite 1, metric_in_timestamp = 5,
         metric_in_step = 0\<rparr>
     = (Inl (MlflowException (Run_must_be_active ''r2'' DELETED) INVALID_PARAMETER_VALUE), small_store)
   \<and> set_tag accept_all small_store ''r2'' \<lparr>tag_in_key = ''t'', tag_in_value = ''b''\<rparr>
     = (Inl (MlflowException (Run_must_be_active ''r2'' DELETED) INVALID_PARAMETER_VALUE), small_store)
   \<and> delete_tag small_store ''r2'' ''t''
     = (Inl (MlflowException (Run_must_be_active ''r2'' DELETED) INVALID_PARAMETER_VALUE), small_store)
   \<and> update_run_info small_store ''r2'' KILLED (Some 10)
     = (Inl (MlflowException (Run_must_be_active ''r2'' DELETED) INVALID_PARAMETER_VALUE), small_store)
   \<and> set_experiment_tag accept_all small_store (Id_of 1) \<lparr>tag_in_key = ''t'', tag_in_value = ''b''\<rparr>
     = (Inl (MlflowException (Experiment_must_be_active 1 DELETED) INVALID_PARAMETER_VALUE), small_store)
   \<and> rename_experiment small_store (Id_of 1) ''new''
     = (Inl (MlflowException Cannot_rename_non_active INVALID_STATE), small_store)"
proof -
  have rs: "runs small_store = [active_run, deleted_run]"
    and es: "experiments small_store = [default_experiment, old_experiment]"
    by (simp_all add: small_store_def)
  have ids: "distinct (map run_run_uuid (runs small_store))"
    by (simp add: rs active_run_def deleted_run_def)
  have eids: "distinct (map exp_experiment_id (experiments small_store))"
    by (simp add: es default_experiment_def old_experiment_def)
  note main = inactive_mutation_fails[OF ids eids,
      of "\<lparr>param_in_key = ''lr'', param_in_value = ''0.1''\<rparr>" accept_all
         "\<lparr>metric_in_key = ''acc'', metric_in_value = Finite 1, metric_in_timestamp = 5,
           metric_in_step = 0\<rparr>"
         "\<lparr>tag_in_key = ''t'', tag_in_value = ''b''\<rparr>" "''t''" KILLED "Some 10" "''new''"]
  have run: "run_lifecycle_stage deleted_run = DELETED" "run_run_uuid deleted_run = ''r2''"
    "run_lifecycle_stage active_run = ACTIVE"
    by (simp_all add: deleted_run_def active_run_def)
  have ex: "exp_lifecycle_stage old_experiment = DELETED" "exp_experiment_id old_experiment = 1"
    "exp_lifecycle_stage default_experiment = ACTIVE"
    by (simp_all add: old_experiment_def default_experiment_def)
  have acc: "validate_metric accept_all k v ts st = None" "validate_tag accept_all a b = None"
    "validate_experiment_tag accept_all a b = None" for k v ts st a b
    by (simp_all add: accept_all_def)
  from main show ?thesis
    by (simp add: rs es run ex acc Let_def)
qed

lemma distinct_map_eq:
  "distinct (map f xs) \<Longrightarrow> x \<in> set xs \<Longrightarrow> y \<in> set xs \<Longrightarrow> f x = f y \<Longrightarrow> x = y"
  by (meson distinct_map inj_on_def)

text \<open>A session that has queued one write on a fresh transaction commits it.\<close>

lemma Managed_one_write:
  assumes "body (SessionMaker d) = (Inr x, (SessionMaker d)\<lparr>pending := [q]\<rparr>)"
    and "execute q d = Inr d'"
  shows "ManagedSessionMaker body d = (Inr x, d')"
proof -
  have "flush ((SessionMaker d)\<lparr>pending := [q]\<rparr>)
      = (Inr (), (SessionMaker d)\<lparr>txn := d', pending := [],
                    new_key := (case generated_key q d of None \<Rightarrow> None | Some i \<Rightarrow> Some i)\<rparr>)"
    using assms(2) by (simp add: flush_def SessionMaker_def)
  with Managed_Inr[of body d x "(SessionMaker d)\<lparr>pending := [q]\<rparr>" "()"] assms(1)
  show ?thesis by simp
qed

lemma set_stage_experiment:
  assumes ids: "distinct (map exp_experiment_id (experiments d))" and e: "e \<in> set (experiments d)"
    and v: "exp_lifecycle_stage e \<in> set (view_type_to_stages v)"
  shows "ManagedSessionMaker
       (and_then (priv_get_experiment (Id_of (exp_experiment_id e)) v)
          (\<lambda>x. priv_save_to_db (UPDATE_experiment_lifecycle_stage (exp_experiment_id x) stage))) d
     = (Inr (), d\<lparr>experiments := map (\<lambda>x. if exp_experiment_id x = exp_experiment_id e
                                     then x\<lparr>exp_lifecycle_stage := stage\<rparr> else x)
                                (experiments d)\<rparr>)"
  using priv_get_experiment_found[OF ids e v]
  by (intro Managed_one_write[where q = "UPDATE_experiment_lifecycle_stage (exp_experiment_id e) stage"])
     (simp_all add: and_then_def priv_save_to_db_def queue_def SessionMaker_simps)

text \<open>
  Claim C9. In a store whose experiment ids are distinct, \<open>delete_experiment\<close> on
  an active experiment succeeds and changes nothing but the lifecycle stage of that
  experiment; \<open>restore_experiment\<close> then succeeds, changes nothing but that stage
  again, and leaves the database exactly as it was before the deletion (every
  experiment, run, metric, param and tag).
\<close>

theorem delete_then_restore_experiment:
  assumes ids: "distinct (map exp_experiment_id (experiments d))"
    and e: "e \<in> set (experiments d)"
    and active: "exp_lifecycle_stage e = ACTIVE"
  shows "let i = exp_experiment_id e;
             d1 = d\<lparr>experiments := map (\<lambda>x. if exp_experiment_id x = i
                                         then x\<lparr>exp_lifecycle_stage := DELETED\<rparr> else x)
                                    (experiments d)\<rparr>
         in delete_experiment d (Id_of i) = (Inr (), d1)
          \<and> restore_experiment d1 (Id_of i) = (Inr (), d)
          \<and> d = d1\<lparr>experiments := map (\<lambda>x. if exp_experiment_id x = i
                                          then x\<lparr>exp_lifecycle_stage := ACTIVE\<rparr> else x)
                                     (experiments d1)\<rparr>"
proof -
  let ?i = "exp_experiment_id e"
  let ?del = "\<lambda>x. if exp_experiment_id x = ?i then x\<lparr>exp_lifecycle_stage := DELETED\<rparr> else x"
  let ?res = "\<lambda>x. if exp_experiment_id x = ?i then x\<lparr>exp_lifecycle_stage := ACTIVE\<rparr> else x"
  let ?d1 = "d\<lparr>experiments := map ?del (experiments d)\<rparr>"
  have del: "delete_experiment d (Id_of ?i) = (Inr (), ?d1)"
    unfolding delete_experiment_def
    by (rule set_stage_experiment[OF ids e]) (simp add: active)
  have ids1: "distinct (map exp_experiment_id (experiments ?d1))"
  proof -
    have m: "map exp_experiment_id (map ?del xs) = map exp_experiment_id xs" for xs
      by (induction xs) simp_all
    have ex1: "experiments ?d1 = map ?del (experiments d)"
      by simp
    show ?thesis unfolding ex1 m by (rule ids)
  qed
  let ?e1 = "e\<lparr>exp_lifecycle_stage := DELETED\<rparr>"
  have e1: "?e1 \<in> set (experiments ?d1)"
    using e by (force simp: image_iff)
  have roundtrip: "map ?res (experiments ?d1) = experiments d"
  proof -
    have "?res (?del x) = x" if "x \<in> set (experiments d)" for x
    proof (cases "exp_experiment_id x = ?i")
      case True
      then have "x = e" using distinct_map_eq[OF ids that e] by simp
      then show ?thesis using active by simp
    next
      case False
      then show ?thesis by simp
    qed
    then have "map (\<lambda>x. ?res (?del x)) (experiments d) = experiments d"
      by (simp add: map_idI)
    then show ?thesis by (simp add: comp_def)
  qed
  have "restore_experiment ?d1 (Id_of (exp_experiment_id ?e1))
      = (Inr (), ?d1\<lparr>experiments := map (\<lambda>x. if exp_experiment_id x = exp_experiment_id ?e1
                                     then x\<lparr>exp_lifecycle_stage := ACTIVE\<rparr> else x)
                                (experiments ?d1)\<rparr>)"
    unfolding restore_experiment_def
    by (rule set_stage_experiment[OF ids1 e1]) simp
  then have res: "restore_experiment ?d1 (Id_of ?i) = (Inr (), ?d1\<lparr>experiments := map ?res (experiments ?d1)\<rparr>)"
    by simp
  have same: "?d1\<lparr>experiments := map ?res (experiments ?d1)\<rparr> = d"
    using roundtrip by simp
  from del res same show ?thesis
    by (simp add: Let_def)
qed

theorem delete_then_restore_experiment_witness:
  "delete_experiment small_store (Id_of 0)
     = (Inr (), small_store\<lparr>experiments :=
          [default_experiment\<lparr>exp_lifecycle_stage := DELETED\<rparr>, old_experiment]\<rparr>)
   \<and> restore_experiment
        (small_store\<lparr>experiments :=
          [default_experiment\<lparr>exp_lifecycle_stage := DELETED\<rparr>, old_experiment]\<rparr>) (Id_of 0)
     = (Inr (), small_store)"
proof -
  have es: "experiments small_store = [default_experiment, old_experiment]"
    by (simp add: small_store_def)
  have ids: "distinct (map exp_experiment_id (experiments small_store))"
    by (simp add: es default_experiment_def old_experiment_def)
  have mem: "default_experiment \<in> set (experiments small_store)"
    by (simp add: es)
  have active: "exp_lifecycle_stage default_experiment = ACTIVE"
    by (simp add: default_experiment_def)
  have i: "exp_experiment_id default_experiment = 0" "exp_experiment_id old_experiment = 1"
    by (simp_all add: default_experiment_def old_experiment_def)
  from delete_then_restore_experiment[OF ids mem active] show ?thesis
    by (simp add: Let_def es i)
qed

lemma get_or_create_found:
  "pending s = [] \<Longrightarrow> filter (\<lambda>r. r = kwargs) (table (txn s)) = x # xs \<Longrightarrow>
   priv_get_or_create table kwargs model s = (Inr (x, False), s)"
  by (simp add: priv_get_or_create_def and_then_def query_nopending return_def)

lemma get_or_create_new:
  "pending s = [] \<Longrightarrow> filter (\<lambda>r. r = kwargs) (table (txn s)) = [] \<Longrightarrow>
   priv_get_or_create table kwargs model s = (Inr (kwargs, True), s\<lparr>pending := [model kwargs]\<rparr>)"
  by (simp add: priv_get_or_create_def and_then_def query_nopending return_def
        priv_save_to_db_def queue_def)

lemma filter_eq_row: "(filter (\<lambda>r. r = x) xs = []) = (x \<notin> set xs)"
  by (auto simp: filter_empty_conv)

lemma filter_eq_row_Cons: "x \<in> set xs \<Longrightarrow> \<exists>ys. filter (\<lambda>r. r = x) xs = x # ys"
  by (induction xs) auto

lemma Managed_returns:
  "body (SessionMaker d) = (Inr x, sb) \<Longrightarrow> flush sb = (Inr (), sf) \<Longrightarrow> txn sf = d' \<Longrightarrow>
   ManagedSessionMaker body d = (Inr x, d')"
  using Managed_Inr[of body d x sb "()" sf] by simp

lemma Managed_fails:
  "body (SessionMaker d) = (Inl (MlflowException m c), sb) \<Longrightarrow> committed sb = d' \<Longrightarrow>
   ManagedSessionMaker body d = (Inl (MlflowException m c), d')"
  using Managed_Inl[of body d "MlflowException m c" sb] by (simp add: reraise_Mlflow)

text \<open>The operation \<open>log_param\<close> behind its guard.\<close>

lemma log_param_active:
  assumes runs: "distinct (map run_run_uuid (runs d))" and run: "run \<in> set (runs d)"
    and active: "run_lifecycle_stage run = ACTIVE"
  shows "log_param d (run_run_uuid run) p =
     ManagedSessionMaker (\<lambda>session.
                case and_then
                       (priv_get_or_create params (param_row (run_run_uuid run) p) INSERT_param)
                       (\<lambda>_. commit) session of
                  (Inl IntegrityError, s) \<Rightarrow>
                    and_then (query (\<lambda>d. filter (\<lambda>p. param_run_uuid p = run_run_uuid run) (params d)))
                      (\<lambda>run_params.
                         let existing_params =
                               map param_value
                                 (filter (\<lambda>q. param_key q = param_in_key p) run_params)
                         in case existing_params of
                              old_value # rest \<Rightarrow>
                                raise (MlflowException
                                         (Changing_param_value (param_in_key p) old_value
                                            (run_run_uuid run) (param_in_value p))
                                         INVALID_PARAMETER_VALUE)
                            | [] \<Rightarrow> raise IntegrityError)
                      (rollback s)
                | (r, s) \<Rightarrow> (r, s)) d"
proof -
  have "ManagedSessionMaker body d = ManagedSessionMaker body' d"
    if "body (SessionMaker d) = body' (SessionMaker d)" for body body' :: "unit action"
    using that by (simp add: ManagedSessionMaker_def make_managed_session_def)
  then show ?thesis
    unfolding log_param_def param_row_def
    by (rule) (simp add: run_guard_passes[OF runs run active])
qed

lemma log_param_exists:
  assumes runs: "distinct (map run_run_uuid (runs d))" and run: "run \<in> set (runs d)"
    and active: "run_lifecycle_stage run = ACTIVE"
    and row: "param_row (run_run_uuid run) p \<in> set (params d)"
  shows "log_param d (run_run_uuid run) p = (Inr (), d)"
proof -
  let ?s = "SessionMaker d"
  obtain ys where f: "filter (\<lambda>r. r = param_row (run_run_uuid run) p) (params d)
      = param_row (run_run_uuid run) p # ys"
    using filter_eq_row_Cons[OF row] by blast
  have goc: "priv_get_or_create params (param_row (run_run_uuid run) p) INSERT_param ?s
      = (Inr (param_row (run_run_uuid run) p, False), ?s)"
    by (rule get_or_create_found[where xs = ys]) (simp_all add: SessionMaker_simps f)
  have c: "commit ?s = (Inr (), ?s\<lparr>calls := [Commit]\<rparr>)"
    using commit_Inr[OF flush_nopending, of ?s] by (simp add: SessionMaker_simps SessionMaker_def)
  show ?thesis
    unfolding log_param_active[OF runs run active]
    by (rule Managed_returns[where sb = "?s\<lparr>calls := [Commit]\<rparr>"
          and sf = "?s\<lparr>calls := [Commit]\<rparr>"])
       (simp_all add: and_then_def goc c flush_nopending SessionMaker_simps)
qed

lemma param_row_simps:
  "param_run_uuid (param_row r p) = r" "param_key (param_row r p) = param_in_key p"
  "param_value (param_row r p) = param_in_value p"
  by (simp_all add: param_row_def)

lemma log_param_conflict:
  assumes runs: "distinct (map run_run_uuid (runs d))" and run: "run \<in> set (runs d)"
    and active: "run_lifecycle_stage run = ACTIVE"
    and new: "param_row (run_run_uuid run) p \<notin> set (params d)"
    and rows: "filter (\<lambda>x. param_run_uuid x = run_run_uuid run \<and> param_key x = param_in_key p)
                 (params d) = x # xs"
  shows "log_param d (run_run_uuid run) p
     = (Inl (MlflowException (Changing_param_value (param_in_key p) (param_value x)
               (run_run_uuid run) (param_in_value p)) INVALID_PARAMETER_VALUE), d)"
proof -
  let ?s = "SessionMaker d"
  let ?kw = "param_row (run_run_uuid run) p"
  let ?s1 = "?s\<lparr>pending := [INSERT_param ?kw]\<rparr>"
  let ?s2 = "?s\<lparr>calls := [Commit, Rollback]\<rparr>"
  have goc: "priv_get_or_create params ?kw INSERT_param ?s = (Inr (?kw, True), ?s1)"
    by (rule get_or_create_new) (simp_all add: SessionMaker_simps filter_eq_row new)
  have "x \<in> set (filter (\<lambda>x. param_run_uuid x = run_run_uuid run \<and> param_key x = param_in_key p)
                 (params d))"
    by (simp add: rows)
  then have "\<exists>x \<in> set (params d). param_run_uuid x = run_run_uuid run \<and> param_key x = param_in_key p"
    by auto
  then have ex: "execute (INSERT_param ?kw) d = Inl IntegrityError"
    by (simp add: param_row_simps)
  have fl: "flush ?s1 = (Inl IntegrityError, ?s)"
    by (simp add: flush_def SessionMaker_def ex del: execute.simps)
  have c: "commit ?s1 = (Inl IntegrityError, ?s\<lparr>calls := [Commit]\<rparr>)"
    using commit_Inl[OF fl] by (simp add: SessionMaker_def)
  have rb: "rollback (?s\<lparr>calls := [Commit]\<rparr>) = ?s2"
    by (simp add: rollback_def SessionMaker_def)
  have q: "query (\<lambda>d. filter (\<lambda>p. param_run_uuid p = run_run_uuid run) (params d)) ?s2
      = (Inr (filter (\<lambda>p. param_run_uuid p = run_run_uuid run) (params d)), ?s2)"
    by (simp add: query_nopending SessionMaker_def)
  show ?thesis
    unfolding log_param_active[OF runs run active]
    by (rule Managed_fails[where sb = ?s2])
       (simp_all add: and_then_def goc c rb q rows raise_def SessionMaker_simps)
qed

lemma log_param_new:
  assumes runs: "distinct (map run_run_uuid (runs d))" and run: "run \<in> set (runs d)"
    and active: "run_lifecycle_stage run = ACTIVE"
    and rows: "filter (\<lambda>x. param_run_uuid x = run_run_uuid run \<and> param_key x = param_in_key p)
                 (params d) = []"
  shows "log_param d (run_run_uuid run) p
     = (Inr (), d\<lparr>params := params d @ [param_row (run_run_uuid run) p]\<rparr>)"
proof -
  let ?s = "SessionMaker d"
  let ?kw = "param_row (run_run_uuid run) p"
  let ?d' = "d\<lparr>params := params d @ [?kw]\<rparr>"
  let ?s1 = "?s\<lparr>pending := [INSERT_param ?kw]\<rparr>"
  let ?s2 = "\<lparr>committed = ?d', txn = ?d', pending = [], new_key = None, calls = [Commit]\<rparr>"
  have none: "\<forall>x \<in> set (params d). \<not> (param_run_uuid x = run_run_uuid run \<and> param_key x = param_in_key p)"
    using rows by (simp add: filter_empty_conv)
  then have new: "?kw \<notin> set (params d)"
    by (auto simp: param_row_def)
  have goc: "priv_get_or_create params ?kw INSERT_param ?s = (Inr (?kw, True), ?s1)"
    by (rule get_or_create_new) (simp_all add: SessionMaker_simps filter_eq_row new)
  have ex: "execute (INSERT_param ?kw) d = Inr ?d'"
    using none by (simp add: param_row_simps)
  have fl: "flush ?s1 = (Inr (), \<lparr>committed = d, txn = ?d', pending = [], new_key = None, calls = []\<rparr>)"
    by (simp add: flush_def SessionMaker_def ex del: execute.simps)
  have c: "commit ?s1 = (Inr (), ?s2)"
    using commit_Inr[OF fl] by (simp add: SessionMaker_def)
  show ?thesis
    unfolding log_param_active[OF runs run active]
    by (rule Managed_returns[where sb = ?s2 and sf = ?s2])
       (simp_all add: and_then_def goc c flush_nopending)
qed

lemma param_key_rows:
  assumes keys: "distinct (map (\<lambda>x. (param_run_uuid x, param_key x)) (params d))"
    and row: "row \<in> set (params d)"
  shows "filter (\<lambda>x. param_run_uuid x = param_run_uuid row \<and> param_key x = param_key row) (params d)
       = [row]"
  using filter_key_unique[OF keys row] by simp

text \<open>
  Claim C2, amended. For an active run of a store whose run ids and param keys are
  distinct: logging a param that is stored already succeeds and leaves the database
  as it was; after any successful \<open>log_param\<close> the same call succeeds again and
  changes nothing; logging another value for a stored key fails, leaves the
  database as it was, and raises an \<open>MlflowException\<close> whose message names the key,
  the stored value, the run and the new value, with the error code
  \<open>INVALID_PARAMETER_VALUE\<close>.
\<close>

theorem log_param_duplicate_or_conflict:
  assumes runs: "distinct (map run_run_uuid (runs d))"
    and run: "run \<in> set (runs d)"
    and active: "run_lifecycle_stage run = ACTIVE"
    and keys: "distinct (map (\<lambda>x. (param_run_uuid x, param_key x)) (params d))"
  shows "(param_row (run_run_uuid run) p \<in> set (params d) \<longrightarrow>
            log_param d (run_run_uuid run) p = (Inr (), d))
       \<and> (\<forall>u d1. log_param d (run_run_uuid run) p = (Inr u, d1) \<longrightarrow>
            log_param d1 (run_run_uuid run) p = (Inr (), d1))
       \<and> (\<forall>row \<in> set (params d).
            param_run_uuid row = run_run_uuid run \<and> param_key row = param_in_key p
            \<and> param_value row \<noteq> param_in_value p \<longrightarrow>
            log_param d (run_run_uuid run) p
              = (Inl (MlflowException
                        (Changing_param_value (param_in_key p) (param_value row)
                           (run_run_uuid run) (param_in_value p))
                        INVALID_PARAMETER_VALUE), d))"
proof (intro conjI allI ballI impI)
  assume "param_row (run_run_uuid run) p \<in> set (params d)"
  then show "log_param d (run_run_uuid run) p = (Inr (), d)"
    by (rule log_param_exists[OF runs run active])
next
  fix u d1
  assume ok: "log_param d (run_run_uuid run) p = (Inr u, d1)"
  let ?kw = "param_row (run_run_uuid run) p"
  let ?rows = "filter (\<lambda>x. param_run_uuid x = run_run_uuid run \<and> param_key x = param_in_key p)
                 (params d)"
  show "log_param d1 (run_run_uuid run) p = (Inr (), d1)"
  proof (cases "?kw \<in> set (params d)")
    case True
    from log_param_exists[OF runs run active True] ok show ?thesis by simp
  next
    case False
    show ?thesis
    proof (cases ?rows)
      case Nil
      from log_param_new[OF runs run active Nil] ok
      have d1: "d1 = d\<lparr>params := params d @ [?kw]\<rparr>" by simp
      show ?thesis
        unfolding d1
        by (rule log_param_exists) (simp_all add: runs run active)
    next
      case (Cons x xs)
      from log_param_conflict[OF runs run active False Cons] ok show ?thesis by simp
    qed
  qed
next
  fix row
  assume row: "row \<in> set (params d)"
    and c: "param_run_uuid row = run_run_uuid run \<and> param_key row = param_in_key p
            \<and> param_value row \<noteq> param_in_value p"
  let ?kw = "param_row (run_run_uuid run) p"
  have rows: "filter (\<lambda>x. param_run_uuid x = run_run_uuid run \<and> param_key x = param_in_key p)
                 (params d) = [row]"
    using param_key_rows[OF keys row] c by simp
  have new: "?kw \<notin> set (params d)"
  proof
    assume "?kw \<in> set (params d)"
    then have "?kw \<in> set (filter (\<lambda>x. param_run_uuid x = run_run_uuid run
                  \<and> param_key x = param_in_key p) (params d))"
      by (simp add: param_row_simps)
    then have "row = ?kw" by (simp add: rows)
    then have "param_value row = param_in_value p" by (simp only: param_row_simps)
    with c show False by simp
  qed
  from log_param_conflict[OF runs run active new rows]
  show "log_param d (run_run_uuid run) p
              = (Inl (MlflowException
                        (Changing_param_value (param_in_key p) (param_value row)
                           (run_run_uuid run) (param_in_value p))
                        INVALID_PARAMETER_VALUE), d)" .
qed

lemma small_store_facts:
  "runs small_store = [active_run, deleted_run]"
  "experiments small_store = [default_experiment, old_experiment]"
  "params small_store = [\<lparr>param_run_uuid = ''r1'', param_key = ''lr'', param_value = ''0.1''\<rparr>]"
  "tags small_store = [\<lparr>tag_run_uuid = ''r1'', tag_key = ''t'', tag_value = ''a''\<rparr>]"
  "metrics small_store = []" "latest_metrics small_store = []" "experiment_tags small_store = []"
  "distinct (map run_run_uuid (runs small_store))"
  "distinct (map exp_experiment_id (experiments small_store))"
  "run_run_uuid active_run = ''r1''" "run_lifecycle_stage active_run = ACTIVE"
  "run_run_uuid deleted_run = ''r2''" "run_lifecycle_stage deleted_run = DELETED"
  "exp_experiment_id default_experiment = 0" "exp_lifecycle_stage default_experiment = ACTIVE"
  "exp_experiment_id old_experiment = 1" "exp_lifecycle_stage old_experiment = DELETED"
  "exp_name default_experiment = ''Default''" "exp_name old_experiment = ''old''"
  by (simp_all add: small_store_def active_run_def deleted_run_def default_experiment_def
        old_experiment_def)

text \<open>
  Claim C2 as stated fails: the conflict on the param \<open>lr\<close> of the small store is
  raised with \<open>INVALID_PARAMETER_VALUE\<close>, not with \<open>RESOURCE_ALREADY_EXISTS\<close>.
\<close>

theorem log_param_conflict_counterexample:
  "active_run \<in> set (runs small_store) \<and> run_lifecycle_stage active_run = ACTIVE
   \<and> \<lparr>param_run_uuid = ''r1'', param_key = ''lr'', param_value = ''0.1''\<rparr> \<in> set (params small_store)
   \<and> log_param small_store ''r1'' \<lparr>param_in_key = ''lr'', param_in_value = ''0.5''\<rparr>
       = (Inl (MlflowException (Changing_param_value ''lr'' ''0.1'' ''r1'' ''0.5'')
                 INVALID_PARAMETER_VALUE), small_store)
   \<and> \<not> (\<exists>m d'. log_param small_store ''r1'' \<lparr>param_in_key = ''lr'', param_in_value = ''0.5''\<rparr>
                 = (Inl (MlflowException m RESOURCE_ALREADY_EXISTS), d'))"
proof -
  let ?p = "\<lparr>param_in_key = ''lr'', param_in_value = ''0.5''\<rparr>"
  let ?row = "\<lparr>param_run_uuid = ''r1'', param_key = ''lr'', param_value = ''0.1''\<rparr>"
  have mem: "active_run \<in> set (runs small_store)"
    by (simp add: small_store_facts)
  have new: "param_row (run_run_uuid active_run) ?p \<notin> set (params small_store)"
    by (simp add: small_store_facts param_row_def)
  have rows: "filter (\<lambda>x. param_run_uuid x = run_run_uuid active_run \<and> param_key x = param_in_key ?p)
                 (params small_store) = [?row]"
    by (simp add: small_store_facts)
  from log_param_conflict[OF small_store_facts(8) mem small_store_facts(11) new rows]
  have "log_param small_store ''r1'' ?p
       = (Inl (MlflowException (Changing_param_value ''lr'' ''0.1'' ''r1'' ''0.5'')
                 INVALID_PARAMETER_VALUE), small_store)"
    by (simp add: small_store_facts)
  then show ?thesis
    by (simp add: small_store_facts)
qed

theorem log_param_duplicate_or_conflict_witness:
  "log_param small_store ''r1'' \<lparr>param_in_key = ''lr'', param_in_value = ''0.1''\<rparr>
     = (Inr (), small_store)
   \<and> log_param small_store ''r1'' \<lparr>param_in_key = ''lr'', param_in_value = ''0.5''\<rparr>
       = (Inl (MlflowException (Changing_param_value ''lr'' ''0.1'' ''r1'' ''0.5'')
                 INVALID_PARAMETER_VALUE), small_store)"
proof -
  have mem: "active_run \<in> set (runs small_store)"
    by (simp add: small_store_facts)
  have keys: "distinct (map (\<lambda>x. (param_run_uuid x, param_key x)) (params small_store))"
    by (simp add: small_store_facts)
  note a = log_param_duplicate_or_conflict[OF small_store_facts(8) mem small_store_facts(11) keys,
      of "\<lparr>param_in_key = ''lr'', param_in_value = ''0.1''\<rparr>"]
  note b = log_param_duplicate_or_conflict[OF small_store_facts(8) mem small_store_facts(11) keys,
      of "\<lparr>param_in_key = ''lr'', param_in_value = ''0.5''\<rparr>"]
  from a have 1: "log_param small_store ''r1'' \<lparr>param_in_key = ''lr'', param_in_value = ''0.1''\<rparr>
     = (Inr (), small_store)"
    by (simp add: small_store_facts param_row_def)
  from b have 2: "log_param small_store ''r1'' \<lparr>param_in_key = ''lr'', param_in_value = ''0.5''\<rparr>
       = (Inl (MlflowException (Changing_param_value ''lr'' ''0.1'' ''r1'' ''0.5'')
                 INVALID_PARAMETER_VALUE), small_store)"
    by (simp add: small_store_facts param_row_def)
  from 1 2 show ?thesis by simp
qed

subsection \<open>Metrics and the latest-metric table\<close>

lemma keeps_committedI: "(\<And>s r s'. m s = (r, s') \<Longrightarrow> committed s' = committed s) \<Longrightarrow> keeps_committed m"
  by (simp add: keeps_committed_def)

lemma keeps_committedD: "keeps_committed m \<Longrightarrow> m s = (r, s') \<Longrightarrow> committed s' = committed s"
  by (simp add: keeps_committed_def)

lemma keeps_return: "keeps_committed (return x)"
  by (rule keeps_committedI) (auto simp: return_def)

lemma keeps_raise: "keeps_committed (raise e)"
  by (rule keeps_committedI) (auto simp: raise_def)

lemma keeps_queue: "keeps_committed (queue q)"
  by (rule keeps_committedI) (auto simp: queue_def)

lemma keeps_flush: "keeps_committed flush"
  by (rule keeps_committedI) (rule flush_calls(2))

lemma keeps_and_then:
  assumes "keeps_committed m" and "\<And>x. keeps_committed (f x)"
  shows "keeps_committed (and_then m f)"
proof (rule keeps_committedI)
  fix s r s' assume a: "and_then m f s = (r, s')"
  obtain r1 s1 where m: "m s = (r1, s1)" by (cases "m s")
  have c1: "committed s1 = committed s" by (rule keeps_committedD[OF assms(1) m])
  show "committed s' = committed s"
  proof (cases r1)
    case (Inl e)
    with a m c1 show ?thesis by (simp add: and_then_def)
  next
    case (Inr x)
    with a m have "f x s1 = (r, s')" by (simp add: and_then_def)
    from keeps_committedD[OF assms(2) this] c1 show ?thesis by simp
  qed
qed

lemma keeps_query: "keeps_committed (query select)"
  unfolding query_def
  by (rule keeps_and_then[OF keeps_flush]) (rule keeps_committedI, auto)

lemma keeps_session_merge: "keeps_committed (session_merge q)"
  unfolding session_merge_def by (rule keeps_and_then[OF keeps_flush keeps_queue])


lemma keeps_priv_get_run: "keeps_committed (priv_get_run r)"
  unfolding priv_get_run_def
  by (rule keeps_and_then[OF keeps_query]) (simp add: keeps_return keeps_raise split: list.splits)

lemma keeps_check_run: "keeps_committed (priv_check_run_is_active run)"
  by (simp add: priv_check_run_is_active_def keeps_return keeps_raise)

lemma keeps_get_or_create: "keeps_committed (priv_get_or_create table kwargs model)"
  unfolding priv_get_or_create_def priv_save_to_db_def
  by (rule keeps_and_then[OF keeps_query])
     (auto simp: keeps_return intro!: keeps_and_then keeps_queue split: list.splits)

lemma keeps_update_latest: "keeps_committed (priv_update_latest_metric_if_necessary f)"
  unfolding priv_update_latest_metric_if_necessary_def
  by (rule keeps_and_then[OF keeps_query])
     (auto simp: keeps_return keeps_raise keeps_session_merge split: sum.splits)

text \<open>A block that never commits by itself leaves the database as it was when it fails.\<close>

lemma Managed_fails_unchanged:
  assumes keeps: "keeps_committed body" and fails: "ManagedSessionMaker body d = (Inl e, d')"
  shows "d' = d"
proof -
  obtain rb sb where b: "body (SessionMaker d) = (rb, sb)" by (cases "body (SessionMaker d)")
  have c: "committed sb = d"
    using keeps_committedD[OF keeps b] by (simp add: SessionMaker_simps)
  show ?thesis
  proof (cases rb)
    case (Inl x)
    with Managed_Inl[of body d x sb] b fails c show ?thesis by simp
  next
    case (Inr x)
    obtain rf sf where fl: "flush sb = (rf, sf)" by (cases "flush sb")
    show ?thesis
    proof (cases rf)
      case (Inl y)
      with Managed_Inr_rejected[of body d x sb y sf] b Inr fl fails c show ?thesis by simp
    next
      case Inr2: (Inr u)
      with Managed_Inr[of body d x sb u sf] b Inr fl fails show ?thesis by simp
    qed
  qed
qed

lemma keeps_log_metric_body:
  "keeps_committed (and_then (priv_get_run run_id)
                  (\<lambda>run. and_then (priv_check_run_is_active run)
                     (\<lambda>_. and_then (priv_get_or_create metrics kw INSERT_metric)
                        (\<lambda>(logged_metric, just_created).
                           if just_created
                           then priv_update_latest_metric_if_necessary logged_metric
                           else return ()))))"
  by (intro keeps_and_then keeps_priv_get_run keeps_check_run keeps_get_or_create)
     (auto simp: keeps_update_latest keeps_return)

lemma log_metric_fails_unchanged:
  assumes "log_metric V d run_id m = (Inl e, d')"
  shows "d' = d"
proof (cases "validate_metric V (metric_in_key m) (metric_in_value m) (metric_in_timestamp m)
          (metric_in_step m)")
  case None
  with assms show ?thesis
    by (simp add: log_metric_def Let_def)
       (erule Managed_fails_unchanged[OF keeps_log_metric_body])
next
  case (Some x)
  with assms show ?thesis by (simp add: log_metric_def)
qed


lemma priv_get_run_outcome:
  "(\<exists>e. priv_get_run r (SessionMaker d) = (Inl e, SessionMaker d))
   \<or> (\<exists>run. priv_get_run r (SessionMaker d) = (Inr run, SessionMaker d))"
  by (simp add: priv_get_run_rows SessionMaker_simps split: list.splits)


lemma guard_cases:
  obtains (fails) e where
      "\<And>f :: SqlRun \<Rightarrow> unit \<Rightarrow> 'a action.
         and_then (priv_get_run r) (\<lambda>run. and_then (priv_check_run_is_active run) (f run))
          (SessionMaker d) = (Inl e, SessionMaker d)"
    | (passes) run where
      "\<And>f :: SqlRun \<Rightarrow> unit \<Rightarrow> 'a action.
         and_then (priv_get_run r) (\<lambda>run. and_then (priv_check_run_is_active run) (f run))
          (SessionMaker d) = f run () (SessionMaker d)"
proof -
  from priv_get_run_outcome[of r d] show ?thesis
  proof (elim disjE exE)
    fix e assume "priv_get_run r (SessionMaker d) = (Inl e, SessionMaker d)"
    then have "and_then (priv_get_run r) (\<lambda>run. and_then (priv_check_run_is_active run) (f run))
          (SessionMaker d) = (Inl e, SessionMaker d)" for f :: "SqlRun \<Rightarrow> unit \<Rightarrow> 'a action"
      by (simp add: and_then_def)
    then show ?thesis by (rule fails)
  next
    fix run assume g: "priv_get_run r (SessionMaker d) = (Inr run, SessionMaker d)"
    show ?thesis
    proof (cases "run_lifecycle_stage run = ACTIVE")
      case True
      with g have "and_then (priv_get_run r) (\<lambda>run. and_then (priv_check_run_is_active run) (f run))
          (SessionMaker d) = f run () (SessionMaker d)" for f :: "SqlRun \<Rightarrow> unit \<Rightarrow> 'a action"
        by (simp add: and_then_def priv_check_run_is_active_def return_def)
      then show ?thesis by (rule passes)
    next
      case False
      with g have "and_then (priv_get_run r) (\<lambda>run. and_then (priv_check_run_is_active run) (f run))
          (SessionMaker d) = (Inl (MlflowException (Run_must_be_active (run_run_uuid run)
             (run_lifecycle_stage run)) INVALID_PARAMETER_VALUE), SessionMaker d)"
        for f :: "SqlRun \<Rightarrow> unit \<Rightarrow> 'a action"
        by (simp add: and_then_def priv_check_run_is_active_def raise_def)
      then show ?thesis by (rule fails)
    qed
  qed
qed

lemma latest_of_eq:
  "\<lparr>latest_run_uuid = metric_run_uuid f, latest_key = metric_key f,
     latest_value = metric_value f, latest_timestamp = metric_timestamp f,
     latest_step = metric_step f, latest_is_nan = metric_is_nan f\<rparr> = latest_of f"
  by (simp add: latest_of_def)

text \<open>The body of \<open>log_metric\<close> behind the guard, when the fact is new.\<close>

lemma update_latest_new_fact:
  fixes f d
  defines "s2 \<equiv> (SessionMaker d)\<lparr>txn := d\<lparr>metrics := metrics d @ [f]\<rparr>\<rparr>"
  shows "priv_update_latest_metric_if_necessary f ((SessionMaker d)\<lparr>pending := [INSERT_metric f]\<rparr>) =
     (case latest_for (metric_run_uuid f) (metric_key f) d of
        [] \<Rightarrow> (Inr (), s2\<lparr>pending := [MERGE_latest_metric (latest_of f)]\<rparr>)
      | [l] \<Rightarrow> if priv_compare_metrics f l
               then (Inr (), s2\<lparr>pending := [MERGE_latest_metric (latest_of f)]\<rparr>)
               else (Inr (), s2)
      | l # l' # rest \<Rightarrow> (Inl MultipleResultsFound, s2))"
proof -
  have fl: "flush ((SessionMaker d)\<lparr>pending := [INSERT_metric f]\<rparr>) = (Inr (), s2)"
    by (simp add: flush_def SessionMaker_def s2_def)
  have q: "query select ((SessionMaker d)\<lparr>pending := [INSERT_metric f]\<rparr>)
      = (Inr (select (d\<lparr>metrics := metrics d @ [f]\<rparr>)), s2)" for select :: "database \<Rightarrow> 'b"
    by (simp add: query_def and_then_def fl) (simp add: s2_def SessionMaker_def)
  have p2: "pending s2 = []"
    by (simp add: s2_def SessionMaker_def)
  have m: "session_merge q s2 = (Inr (), s2\<lparr>pending := [q]\<rparr>)" for q
    by (simp add: session_merge_def and_then_def flush_nopending[OF p2] queue_def p2)
  show ?thesis
    unfolding priv_update_latest_metric_if_necessary_def latest_of_eq
    by (simp add: and_then_def q latest_for_def m return_def raise_def split: list.splits)
qed

lemma log_metric_body_new_fact:
  assumes new: "f \<notin> set (metrics d)"
  shows "ManagedSessionMaker (\<lambda>s. and_then (priv_get_or_create metrics f INSERT_metric)
                        (\<lambda>(logged_metric, just_created).
                           if just_created
                           then priv_update_latest_metric_if_necessary logged_metric
                           else return ()) s) d = after_new_fact f d"
proof -
  let ?s = "SessionMaker d"
  let ?dm = "d\<lparr>metrics := metrics d @ [f]\<rparr>"
  let ?s2 = "?s\<lparr>txn := ?dm\<rparr>"
  let ?q = "MERGE_latest_metric (latest_of f)"
  let ?merged = "d\<lparr>metrics := metrics d @ [f],
                     latest_metrics := merge_row (\<lambda>x. (latest_run_uuid x, latest_key x))
                                         (latest_of f) (latest_metrics d)\<rparr>"
  have goc: "priv_get_or_create metrics f INSERT_metric ?s
      = (Inr (f, True), ?s\<lparr>pending := [INSERT_metric f]\<rparr>)"
    by (rule get_or_create_new) (simp_all add: SessionMaker_simps filter_eq_row new)
  have body: "and_then (priv_get_or_create metrics f INSERT_metric)
                        (\<lambda>(logged_metric, just_created).
                           if just_created
                           then priv_update_latest_metric_if_necessary logged_metric
                           else return ()) ?s
      = priv_update_latest_metric_if_necessary f (?s\<lparr>pending := [INSERT_metric f]\<rparr>)"
    by (simp add: and_then_def goc)
  have fl2: "flush ?s2 = (Inr (), ?s2)"
    by (rule flush_nopending) (simp add: SessionMaker_def)
  have fl3: "flush (?s2\<lparr>pending := [?q]\<rparr>) = (Inr (), ?s\<lparr>txn := ?merged\<rparr>)"
    by (simp add: flush_def SessionMaker_def)
  have c2: "committed ?s2 = d"
    by (simp add: SessionMaker_def)
  show ?thesis
  proof (cases "latest_for (metric_run_uuid f) (metric_key f) d")
    case Nil
    show ?thesis
      unfolding after_new_fact_def Let_def Nil
      by (simp, rule Managed_returns[where sb = "?s2\<lparr>pending := [?q]\<rparr>", OF _ fl3])
         (simp_all add: body update_latest_new_fact Nil)
  next
    case (Cons l ls)
    show ?thesis
    proof (cases ls)
      case Nil
      show ?thesis
      proof (cases "priv_compare_metrics f l")
        case True
        show ?thesis
          unfolding after_new_fact_def Let_def Cons Nil
          by (simp add: True, rule Managed_returns[where sb = "?s2\<lparr>pending := [?q]\<rparr>", OF _ fl3])
             (simp_all add: body update_latest_new_fact Cons Nil True)
      next
        case False
        show ?thesis
          unfolding after_new_fact_def Let_def Cons Nil
          by (simp add: False, rule Managed_returns[where sb = "?s2", OF _ fl2])
             (simp_all add: body update_latest_new_fact Cons Nil False)
      qed
    next
      case Cons2: (Cons l' rest)
      have "ManagedSessionMaker (\<lambda>s. and_then (priv_get_or_create metrics f INSERT_metric)
                        (\<lambda>(logged_metric, just_created).
                           if just_created
                           then priv_update_latest_metric_if_necessary logged_metric
                           else return ()) s) d
          = (Inl (reraise MultipleResultsFound), committed ?s2)"
        by (rule Managed_Inl) (simp add: body update_latest_new_fact Cons Cons2)
      then show ?thesis
        unfolding after_new_fact_def Let_def Cons Cons2
        by (simp add: reraise_def c2)
    qed
  qed
qed

lemma log_metric_body_existing:
  assumes old: "f \<in> set (metrics d)"
  shows "ManagedSessionMaker (\<lambda>s. and_then (priv_get_or_create metrics f INSERT_metric)
                        (\<lambda>(logged_metric, just_created).
                           if just_created
                           then priv_update_latest_metric_if_necessary logged_metric
                           else return ()) s) d = (Inr (), d)"
proof -
  obtain ys where f: "filter (\<lambda>r. r = f) (metrics d) = f # ys"
    using filter_eq_row_Cons[OF old] by blast
  have goc: "priv_get_or_create metrics f INSERT_metric (SessionMaker d)
      = (Inr (f, False), SessionMaker d)"
    by (rule get_or_create_found[where xs = ys]) (simp_all add: SessionMaker_simps f)
  show ?thesis
    by (rule Managed_readonly_Inr) (simp add: and_then_def goc return_def)
qed

lemma Managed_cong:
  "body (SessionMaker d) = body' (SessionMaker d) \<Longrightarrow>
   ManagedSessionMaker body d = ManagedSessionMaker body' d"
  by (simp add: ManagedSessionMaker_def make_managed_session_def)

lemma log_metric_cases:
  assumes "log_metric V d r m = (res, d')"
  shows "(\<exists>e. res = Inl e \<and> d' = d)
       \<or> (res = Inr () \<and> metric_row r m \<in> set (metrics d) \<and> d' = d)
       \<or> (metric_row r m \<notin> set (metrics d) \<and> after_new_fact (metric_row r m) d = (res, d'))"
proof (cases "validate_metric V (metric_in_key m) (metric_in_value m) (metric_in_timestamp m)
          (metric_in_step m)")
  case (Some x)
  with assms show ?thesis by (auto simp: log_metric_def)
next
  case None
  let ?inner = "\<lambda>(run :: SqlRun) (u :: unit). and_then (priv_get_or_create metrics (metric_row r m) INSERT_metric)
                        (\<lambda>(logged_metric, just_created).
                           if just_created
                           then priv_update_latest_metric_if_necessary logged_metric
                           else return ())"
  let ?body = "and_then (priv_get_run r) (\<lambda>run. and_then (priv_check_run_is_active run) (?inner run))"
  have lm: "log_metric V d r m = ManagedSessionMaker ?body d"
    using None by (simp add: log_metric_def Let_def metric_row_def)
  show ?thesis
  proof (cases rule: guard_cases[where r = r and d = d and 'a = unit])
    case (fails e)
    from Managed_Inl[of ?body d e "SessionMaker d"] fails[of ?inner] lm
    have "log_metric V d r m = (Inl (reraise e), d)"
      by (simp add: SessionMaker_simps)
    with assms show ?thesis by auto
  next
    case (passes run)
    have "ManagedSessionMaker ?body d = ManagedSessionMaker (\<lambda>s. ?inner run () s) d"
      by (rule Managed_cong) (simp add: passes[of ?inner])
    with lm have eq: "log_metric V d r m = ManagedSessionMaker (\<lambda>s. ?inner run () s) d"
      by simp
    show ?thesis
    proof (cases "metric_row r m \<in> set (metrics d)")
      case True
      from eq assms have "res = Inr () \<and> d' = d"
        unfolding log_metric_body_existing[OF True] by auto
      with True show ?thesis by simp
    next
      case False
      from eq assms have "after_new_fact (metric_row r m) d = (res, d')"
        unfolding log_metric_body_new_fact[OF False] by simp
      with False show ?thesis by simp
    qed
  qed
qed

lemma after_new_fact_metrics:
  "after_new_fact f d = (Inr u, d') \<Longrightarrow> metrics d' = metrics d @ [f]"
  by (auto simp: after_new_fact_def Let_def split: list.splits if_splits)

lemma log_metric_stores:
  assumes "log_metric V d r m = (Inr u, d')"
  shows "metric_row r m \<in> set (metrics d')"
  using log_metric_cases[OF assms] after_new_fact_metrics[of "metric_row r m" d u d']
  by auto

lemma power_int_le_971: "e \<le> 971 \<Longrightarrow> (2::real) powi e \<le> 2 ^ 971"
  using power_int_increasing[of e 971 "2::real"] by simp

lemma float64_bounded:
  assumes "is_float64 x"
  shows "- MAX_FLOAT64 \<le> x \<and> x \<le> MAX_FLOAT64"
proof -
  from assms obtain m :: nat and e :: int where m: "m < 2 ^ 53" and e: "e \<le> 971"
    and x: "x = real m * 2 powi e \<or> x = - (real m * 2 powi e)"
    by (auto simp: is_float64_def)
  from m have "m \<le> 2 ^ 53 - 1" by simp
  then have "real m \<le> real (2 ^ 53 - 1 :: nat)" by (simp only: of_nat_le_iff)
  then have m': "real m \<le> 2 ^ 53 - 1" by simp
  have p: "(0::real) \<le> 2 powi e" by simp
  have "real m * 2 powi e \<le> (2 ^ 53 - 1) * 2 ^ 971"
    by (rule mult_mono[OF m' power_int_le_971[OF e]]) (simp_all)
  then have "real m * 2 powi e \<le> MAX_FLOAT64"
    by (simp only: MAX_FLOAT64_def)
  moreover have "0 \<le> real m * 2 powi e" by simp
  ultimately show ?thesis
    using x by linarith
qed

lemma MAX_FLOAT64_is_float64: "is_float64 MAX_FLOAT64"
  unfolding is_float64_def MAX_FLOAT64_def
  by (rule exI[of _ "2 ^ 53 - 1"], rule exI[of _ 971]) simp

text \<open>
  The decimal literal of the source lies within half a unit in the last place of
  \<open>MAX_FLOAT64\<close> (the doubles next to the top of the range are \<open>2^971\<close> apart), so
  Python reads it as \<open>MAX_FLOAT64\<close>.
\<close>

lemma literal_rounds_to_MAX_FLOAT64:
  "\<bar>17976931348623157 * 10 ^ 292 - MAX_FLOAT64\<bar> < 2 ^ 970"
  by (simp add: MAX_FLOAT64_def)

lemma round_half_even_of_int: "round_half_even (of_int n) = n"
  by (simp add: round_half_even_def)

lemma round_half_even_le: "q \<le> of_int k \<Longrightarrow> round_half_even q \<le> k"
proof -
  assume q: "q \<le> of_int k"
  have f: "\<lfloor>q\<rfloor> \<le> k" using q by (simp add: floor_le_iff)
  have "round_half_even q \<le> k" if "q - of_int \<lfloor>q\<rfloor> < 1 / 2"
    using that f by (simp add: round_half_even_def Let_def)
  moreover have "round_half_even q \<le> k" if r: "\<not> q - of_int \<lfloor>q\<rfloor> < 1 / 2"
  proof -
    from r have "of_int \<lfloor>q\<rfloor> < q" by linarith
    with q have "of_int \<lfloor>q\<rfloor> < (of_int k :: real)" by linarith
    then have "\<lfloor>q\<rfloor> < k" by simp
    then have "\<lfloor>q\<rfloor> + 1 \<le> k" by simp
    with f show ?thesis by (simp add: round_half_even_def Let_def)
  qed
  ultimately show ?thesis by blast
qed

lemma round_half_even_ge: "of_int k \<le> q \<Longrightarrow> k \<le> round_half_even q"
proof -
  assume "of_int k \<le> q"
  then have "k \<le> \<lfloor>q\<rfloor>" by (simp add: le_floor_iff)
  then show ?thesis by (simp add: round_half_even_def Let_def)
qed

lemma round_half_even_near: "\<bar>of_int (round_half_even q) - q\<bar> \<le> 1 / 2"
proof -
  have "of_int \<lfloor>q\<rfloor> \<le> q" "q < of_int \<lfloor>q\<rfloor> + 1" by linarith+
  then show ?thesis
    by (auto simp: round_half_even_def Let_def abs_le_iff)
qed

lemma round_half_even_cases:
  "(round_half_even q = \<lfloor>q\<rfloor> \<and> q - of_int \<lfloor>q\<rfloor> \<le> 1 / 2)
   \<or> (round_half_even q = \<lfloor>q\<rfloor> + 1 \<and> 1 / 2 \<le> q - of_int \<lfloor>q\<rfloor>)"
  by (simp add: round_half_even_def Let_def)

lemma round_half_even_nearest: "\<bar>of_int (round_half_even q) - q\<bar> \<le> \<bar>of_int k - q\<bar>"
proof -
  define f :: real where "f = of_int \<lfloor>q\<rfloor>"
  have b: "f \<le> q" "q < f + 1" unfolding f_def by linarith+
  have k: "of_int k \<le> f \<or> f + 1 \<le> of_int k"
  proof (cases "k \<le> \<lfloor>q\<rfloor>")
    case True
    then show ?thesis unfolding f_def by simp
  next
    case False
    then have "\<lfloor>q\<rfloor> + 1 \<le> k" by simp
    then have "real_of_int (\<lfloor>q\<rfloor> + 1) \<le> of_int k" by (simp only: of_int_le_iff)
    then show ?thesis unfolding f_def by simp
  qed
  from round_half_even_cases[of q]
  have c: "(of_int (round_half_even q) = f \<and> q - f \<le> 1 / 2)
         \<or> (of_int (round_half_even q) = f + 1 \<and> 1 / 2 \<le> q - f)"
    unfolding f_def by auto
  from b k c show ?thesis by (auto simp: abs_if)
qed

lemma floor_log2:
  assumes "0 < a"
  shows "2 powi \<lfloor>log 2 a\<rfloor> \<le> a" and "a < 2 powi (\<lfloor>log 2 a\<rfloor> + 1)"
proof -
  have p: "(2::real) powr real_of_int n = 2 powi n" for n
    by (rule powr_real_of_int') simp_all
  have "(\<lfloor>log 2 a\<rfloor> = \<lfloor>log 2 a\<rfloor>)
      = (2 powr real_of_int \<lfloor>log 2 a\<rfloor> \<le> a \<and> a < 2 powr real_of_int (\<lfloor>log 2 a\<rfloor> + 1))"
    by (rule floor_log_eq_powr_iff) (use assms in simp_all)
  then have "2 powr real_of_int \<lfloor>log 2 a\<rfloor> \<le> a \<and> a < 2 powr real_of_int (\<lfloor>log 2 a\<rfloor> + 1)"
    by blast
  then show "2 powi \<lfloor>log 2 a\<rfloor> \<le> a" and "a < 2 powi (\<lfloor>log 2 a\<rfloor> + 1)"
    unfolding p by blast+
qed

lemma floor_log2_less:
  assumes "0 < a" and "a < 2 powi k"
  shows "\<lfloor>log 2 a\<rfloor> < k"
proof (rule ccontr)
  assume "\<not> \<lfloor>log 2 a\<rfloor> < k"
  then have "k \<le> \<lfloor>log 2 a\<rfloor>" by simp
  then have "(2::real) powi k \<le> 2 powi \<lfloor>log 2 a\<rfloor>"
    by (intro power_int_increasing) simp_all
  with floor_log2(1)[OF assms(1)] assms(2) show False by linarith
qed

lemma float64_exponent_bounds:
  assumes "x \<noteq> 0"
  shows "- 1074 \<le> float64_exponent x" and "\<bar>x\<bar> < 2 powi (float64_exponent x + 53)"
proof -
  show "- 1074 \<le> float64_exponent x" by (simp add: float64_exponent_def)
  have "\<lfloor>log 2 \<bar>x\<bar>\<rfloor> + 1 \<le> float64_exponent x + 53"
    by (simp add: float64_exponent_def)
  then have "(2::real) powi (\<lfloor>log 2 \<bar>x\<bar>\<rfloor> + 1) \<le> 2 powi (float64_exponent x + 53)"
    by (intro power_int_increasing) simp_all
  with floor_log2(2)[of "\<bar>x\<bar>"] assms show "\<bar>x\<bar> < 2 powi (float64_exponent x + 53)"
    by simp
qed

lemma float64_exponent_le:
  assumes "x \<noteq> 0" and "\<bar>x\<bar> < 2 powi (k + 53)" and "- 1074 \<le> k"
  shows "float64_exponent x \<le> k"
proof -
  from floor_log2_less[of "\<bar>x\<bar>" "k + 53"] assms have "\<lfloor>log 2 \<bar>x\<bar>\<rfloor> < k + 53" by simp
  with assms(3) show ?thesis by (simp add: float64_exponent_def)
qed

lemma is_float64_I:
  "m < 2 ^ 53 \<Longrightarrow> - 1074 \<le> e \<Longrightarrow> e \<le> 971 \<Longrightarrow> x = real m * 2 powi e \<or> x = - (real m * 2 powi e)
   \<Longrightarrow> is_float64 x"
  unfolding is_float64_def by blast

lemma is_float64_minus: "is_float64 x \<Longrightarrow> is_float64 (- x)"
  unfolding is_float64_def by (elim exE conjE disjE) (simp; blast)+

lemma is_float64_0: "is_float64 0"
  by (rule is_float64_I[of 0 0]) simp_all

lemma nearest_float64_0: "nearest_float64 0 = 0"
  by (simp add: nearest_float64_def)

lemma nearest_float64_multiple:
  assumes "x = of_int n * 2 powi float64_exponent x"
  shows "nearest_float64 x = x"
proof (cases "x = 0")
  case True
  then show ?thesis by (simp add: nearest_float64_def)
next
  case False
  have "x / 2 powi float64_exponent x = of_int n * 2 powi float64_exponent x / 2 powi float64_exponent x"
    using assms by simp
  then have "x / 2 powi float64_exponent x = of_int n" by simp
  then have "round_half_even (x / 2 powi float64_exponent x) = n"
    by (simp add: round_half_even_of_int)
  with False assms show ?thesis by (simp add: nearest_float64_def)
qed

lemma powi_split:
  assumes "e \<le> E"
  shows "(2::real) powi E = 2 ^ nat (E - e) * 2 powi e"
proof -
  have "(2::real) powi E = 2 powi ((E - e) + e)" by simp
  also have "\<dots> = 2 powi (E - e) * 2 powi e" by (rule power_int_add) simp
  also have "(2::real) powi (E - e) = 2 powi int (nat (E - e))" using assms by simp
  also have "\<dots> = 2 ^ nat (E - e)" by (rule power_int_of_nat)
  finally show ?thesis .
qed

lemma float_multiple:
  assumes x: "x = real m * 2 powi E \<or> x = - (real m * 2 powi E)" and e: "e \<le> E"
  shows "\<exists>n. x = of_int n * 2 powi e"
proof -
  have p: "(2::real) powi E = 2 ^ nat (E - e) * 2 powi e" by (rule powi_split[OF e])
  from x show ?thesis
  proof
    assume "x = real m * 2 powi E"
    then have "x = of_int (int m * 2 ^ nat (E - e)) * 2 powi e" by (simp add: p)
    then show ?thesis by blast
  next
    assume "x = - (real m * 2 powi E)"
    then have "x = of_int (- (int m * 2 ^ nat (E - e))) * 2 powi e" by (simp add: p)
    then show ?thesis by blast
  qed
qed

lemma float_abs_less:
  assumes m: "m < 2 ^ 53" and x: "x = real m * 2 powi E \<or> x = - (real m * 2 powi E)"
  shows "\<bar>x\<bar> < 2 powi (E + 53)"
proof -
  have "real m < 2 ^ 53" using m by (metis of_nat_less_iff of_nat_numeral of_nat_power)
  then have "real m * 2 powi E < 2 ^ 53 * 2 powi E" by simp
  also have "\<dots> = 2 powi (E + 53)" by (simp add: power_int_add)
  finally have "real m * 2 powi E < 2 powi (E + 53)" .
  moreover have "\<bar>x\<bar> = real m * 2 powi E" using x by auto
  ultimately show ?thesis by simp
qed

lemma nearest_float64_exact:
  assumes "is_float64 x"
  shows "nearest_float64 x = x"
proof (cases "x = 0")
  case True
  then show ?thesis by (simp add: nearest_float64_def)
next
  case False
  from assms obtain m :: nat and E :: int where m: "m < 2 ^ 53" and E: "- 1074 \<le> E"
    and x: "x = real m * 2 powi E \<or> x = - (real m * 2 powi E)"
    by (auto simp: is_float64_def)
  have "float64_exponent x \<le> E"
    by (rule float64_exponent_le[OF False float_abs_less[OF m x] E])
  from float_multiple[OF x this] obtain n where "x = of_int n * 2 powi float64_exponent x"
    by blast
  then show ?thesis by (rule nearest_float64_multiple)
qed

lemma MAX_FLOAT64_less: "MAX_FLOAT64 < 2 powi 1024"
  by (simp add: MAX_FLOAT64_def)

lemma nearest_float64_is_float64:
  assumes range: "\<bar>x\<bar> \<le> MAX_FLOAT64"
  shows "is_float64 (nearest_float64 x)"
proof (cases "x = 0")
  case True
  then show ?thesis by (simp add: nearest_float64_def is_float64_0)
next
  case False
  define e where "e = float64_exponent x"
  define q where "q = x / 2 powi e"
  define n where "n = round_half_even q"
  have r: "nearest_float64 x = of_int n * 2 powi e"
    using False by (simp add: nearest_float64_def e_def q_def n_def)
  have e1: "- 1074 \<le> e" unfolding e_def by (rule float64_exponent_bounds(1)[OF False])
  have "\<bar>x\<bar> < 2 powi (971 + 53)" using range MAX_FLOAT64_less by simp
  then have e2: "e \<le> 971" unfolding e_def by (intro float64_exponent_le[OF False]) simp_all
  have p: "(0::real) < 2 powi e" by simp
  have "\<bar>x\<bar> < 2 powi (e + 53)" unfolding e_def by (rule float64_exponent_bounds(2)[OF False])
  also have "\<dots> = 2 ^ 53 * 2 powi e" by (simp add: power_int_add)
  finally have "\<bar>x\<bar> / 2 powi e < 2 ^ 53" using p by (simp add: divide_less_eq)
  then have aq: "\<bar>q\<bar> < 2 ^ 53" by (simp add: q_def)
  then have b: "q \<le> of_int (2 ^ 53)" "of_int (- (2 ^ 53)) \<le> q" by simp_all
  have n1: "n \<le> 2 ^ 53" unfolding n_def by (rule round_half_even_le[OF b(1)])
  have n2: "- (2 ^ 53) \<le> n" unfolding n_def by (rule round_half_even_ge[OF b(2)])
  have top: "\<bar>n\<bar> < 2 ^ 53" if "e = 971"
  proof -
    have "\<bar>q\<bar> = \<bar>x\<bar> / 2 ^ 971" using that by (simp add: q_def)
    also have "\<dots> \<le> MAX_FLOAT64 / 2 ^ 971" using range by (simp add: divide_right_mono)
    also have "\<dots> = 2 ^ 53 - 1" by (simp add: MAX_FLOAT64_def)
    finally have c: "q \<le> of_int (2 ^ 53 - 1)" "of_int (- (2 ^ 53 - 1)) \<le> q" by simp_all
    have "n \<le> 2 ^ 53 - 1" unfolding n_def by (rule round_half_even_le[OF c(1)])
    moreover have "- (2 ^ 53 - 1) \<le> n" unfolding n_def by (rule round_half_even_ge[OF c(2)])
    ultimately show ?thesis by simp
  qed
  show ?thesis
  proof (cases "\<bar>n\<bar> < 2 ^ 53")
    case True
    then have m: "nat \<bar>n\<bar> < 2 ^ 53" by (simp add: nat_less_iff)
    have "of_int n * 2 powi e = real (nat \<bar>n\<bar>) * 2 powi e
        \<or> of_int n * 2 powi e = - (real (nat \<bar>n\<bar>) * 2 powi e)"
      by (cases "0 \<le> n") simp_all
    from is_float64_I[OF m e1 e2 this] r show ?thesis by simp
  next
    case False
    with n1 n2 have n: "n = 2 ^ 53 \<or> n = - (2 ^ 53)" by (auto simp: abs_if split: if_splits)
    from False top e2 have e3: "e + 1 \<le> 971" by (cases "e = 971") simp_all
    have s: "(2::real) ^ 53 * 2 powi e = 2 ^ 52 * 2 powi (e + 1)"
      by (simp add: power_int_add)
    have "of_int n * 2 powi e = real (2 ^ 52) * 2 powi (e + 1)
        \<or> of_int n * 2 powi e = - (real (2 ^ 52) * 2 powi (e + 1))"
      using n s by auto
    from is_float64_I[OF _ _ e3 this] e1 r show ?thesis by simp
  qed
qed

lemma floor_log2_ge:
  assumes "0 < a" and "2 powi k \<le> a"
  shows "k \<le> \<lfloor>log 2 a\<rfloor>"
proof (rule ccontr)
  assume "\<not> k \<le> \<lfloor>log 2 a\<rfloor>"
  then have "\<lfloor>log 2 a\<rfloor> + 1 \<le> k" by simp
  then have "(2::real) powi (\<lfloor>log 2 a\<rfloor> + 1) \<le> 2 powi k"
    by (intro power_int_increasing) simp_all
  with floor_log2(2)[OF assms(1)] assms(2) show False by linarith
qed

lemma float64_exponent_eq:
  assumes "2 powi k \<le> \<bar>x\<bar>" and "\<bar>x\<bar> < 2 powi (k + 1)"
  shows "float64_exponent x = max (- 1074) (k - 52)"
proof -
  have "(0::real) < 2 powi k" by simp
  with assms(1) have pos: "0 < \<bar>x\<bar>" by linarith
  from floor_log2_ge[OF pos assms(1)] floor_log2_less[OF pos assms(2)]
  have "\<lfloor>log 2 \<bar>x\<bar>\<rfloor> = k" by simp
  then show ?thesis by (simp add: float64_exponent_def)
qed

lemma nearest_float64_odd: "nearest_float64 9007199254740993 = 9007199254740992"
proof -
  have e: "float64_exponent 9007199254740993 = 1"
    using float64_exponent_eq[of 53 9007199254740993] by simp
  have "round_half_even (9007199254740993 / 2) = 4503599627370496"
    by (simp add: round_half_even_def Let_def)
  then show ?thesis by (simp add: nearest_float64_def e)
qed

lemma not_float64_odd: "\<not> is_float64 9007199254740993"
  using nearest_float64_exact[of 9007199254740993] nearest_float64_odd by auto

lemma is_float64_small:
  "is_float64 (1 / 4)" "is_float64 (1 / 2)" "is_float64 (3 / 4)" "is_float64 1"
     apply (rule is_float64_I[of 1 "- 2"]; simp add: power_int_minus)
    apply (rule is_float64_I[of 1 "- 1"]; simp add: power_int_minus)
   apply (rule is_float64_I[of 3 "- 2"]; simp add: power_int_minus)
  apply (rule is_float64_I[of 1 0]; simp)
  done

lemma nearest_float64_nearest:
  assumes y: "is_float64 y"
  shows "\<bar>nearest_float64 x - x\<bar> \<le> \<bar>y - x\<bar>"
proof (cases "x = 0")
  case True
  then show ?thesis by (simp add: nearest_float64_def)
next
  case False
  define e where "e = float64_exponent x"
  define q where "q = x / 2 powi e"
  define n where "n = round_half_even q"
  have p: "(0::real) < 2 powi e" by simp
  have r: "nearest_float64 x = of_int n * 2 powi e"
    using False by (simp add: nearest_float64_def e_def q_def n_def)
  have x: "x = q * 2 powi e" by (simp add: q_def)
  have dist: "\<bar>of_int k * 2 powi e - x\<bar> = \<bar>of_int k - q\<bar> * 2 powi e" for k
  proof -
    have "of_int k * 2 powi e - x = (of_int k - q) * 2 powi e"
      by (subst x) (simp add: algebra_simps)
    then show ?thesis using p by (simp add: abs_mult)
  qed
  have multiple: "\<bar>nearest_float64 x - x\<bar> \<le> \<bar>of_int k * 2 powi e - x\<bar>" for k
    unfolding r dist n_def
    by (rule mult_right_mono[OF round_half_even_nearest]) simp
  from y obtain m :: nat and E :: int where m: "m < 2 ^ 53" and E1: "- 1074 \<le> E"
    and yv: "y = real m * 2 powi E \<or> y = - (real m * 2 powi E)"
    by (auto simp: is_float64_def)
  show ?thesis
  proof (cases "e \<le> E")
    case True
    from float_multiple[OF yv True] obtain k where "y = of_int k * 2 powi e" by blast
    with multiple[of k] show ?thesis by simp
  next
    case below: False
    with E1 have "- 1074 < e" by simp
    then have "e = \<lfloor>log 2 \<bar>x\<bar>\<rfloor> - 52" by (simp add: e_def float64_exponent_def)
    then have "\<lfloor>log 2 \<bar>x\<bar>\<rfloor> = e + 52" by simp
    with floor_log2(1)[of "\<bar>x\<bar>"] False have low: "2 powi (e + 52) \<le> \<bar>x\<bar>" by simp
    from below have "E + 53 \<le> e + 52" by simp
    then have "(2::real) powi (E + 53) \<le> 2 powi (e + 52)"
      by (intro power_int_increasing) simp_all
    with float_abs_less[OF m yv] have ylt: "\<bar>y\<bar> < 2 powi (e + 52)" by linarith
    have s: "(2::real) powi (e + 52) = 2 ^ 52 * 2 powi e"
      by (simp add: power_int_add)
    have "\<bar>nearest_float64 x - x\<bar> \<le> \<bar>x\<bar> - 2 powi (e + 52)"
    proof (cases "0 < x")
      case True
      from multiple[of "2 ^ 52"] have "\<bar>nearest_float64 x - x\<bar> \<le> \<bar>2 powi (e + 52) - x\<bar>"
        by (simp add: s)
      with low True show ?thesis by simp
    next
      case neg: False
      from multiple[of "- (2 ^ 52)"] have "\<bar>nearest_float64 x - x\<bar> \<le> \<bar>- (2 powi (e + 52)) - x\<bar>"
        by (simp add: s)
      with low neg show ?thesis by simp
    qed
    with ylt show ?thesis by linarith
  qed
qed

lemma nearest_float64_MAX:
  "nearest_float64 MAX_FLOAT64 = MAX_FLOAT64" "nearest_float64 (- MAX_FLOAT64) = - MAX_FLOAT64"
  by (simp_all add: nearest_float64_exact MAX_FLOAT64_is_float64 is_float64_minus)

lemma metric_row_value:
  "metric_value (metric_row r m) =
     (case metric_in_value m of
        NaN \<Rightarrow> 0 | PosInf \<Rightarrow> MAX_FLOAT64 | NegInf \<Rightarrow> - MAX_FLOAT64
      | Finite x \<Rightarrow> nearest_float64 x)"
  "metric_is_nan (metric_row r m) = (metric_in_value m = NaN)"
  by (cases "metric_in_value m";
      simp add: metric_row_def stored_value_def nearest_float64_0 nearest_float64_MAX)+

lemma log_metric_table:
  assumes "log_metric V d r m = (Inr u, d')"
  shows "metrics d' = add_fact (metric_row r m) (metrics d)"
  using log_metric_cases[OF assms] after_new_fact_metrics[of "metric_row r m" d u d']
  by (auto simp: add_fact_def)

lemma metric_row_is_float64:
  assumes "\<And>x. metric_in_value m = Finite x \<Longrightarrow> \<bar>x\<bar> \<le> MAX_FLOAT64"
  shows "is_float64 (metric_value (metric_row r m))"
  using assms
  by (cases "metric_in_value m")
     (simp_all add: metric_row_value nearest_float64_is_float64 is_float64_0
        MAX_FLOAT64_is_float64 is_float64_minus)

text \<open>
  Claim C6, amended. Whenever \<open>log_metric\<close> succeeds, the metrics table holds a fact
  of the given run, key, timestamp and step whose value is \<open>0\<close> with \<open>is_nan\<close> set
  when the logged value is NaN, \<open>MAX_FLOAT64\<close> without \<open>is_nan\<close> when it is
  \<open>+Infinity\<close>, \<open>- MAX_FLOAT64\<close> without \<open>is_nan\<close> when it is \<open>-Infinity\<close>, and, when
  the logged value is a finite number \<open>x\<close>, the 64-bit float nearest to \<open>x\<close> without
  \<open>is_nan\<close>: no 64-bit float is nearer to \<open>x\<close>, the value is \<open>x\<close> itself when \<open>x\<close> is
  a 64-bit float, and it is a 64-bit float when \<open>x\<close> lies within their range. A
  table that holds 64-bit floats only still does after the call. \<open>MAX_FLOAT64\<close> and
  its negation are the greatest and the least finite 64-bit float.
\<close>

theorem stored_metric_value:
  assumes "log_metric V d run_id metric = (Inr u, d')"
  shows "(\<exists>f \<in> set (metrics d').
            metric_run_uuid f = run_id \<and> metric_key f = metric_in_key metric
          \<and> metric_timestamp f = metric_in_timestamp metric
          \<and> metric_step f = metric_in_step metric
          \<and> (case metric_in_value metric of
                NaN \<Rightarrow> metric_value f = 0 \<and> metric_is_nan f
              | PosInf \<Rightarrow> metric_value f = MAX_FLOAT64 \<and> \<not> metric_is_nan f
              | NegInf \<Rightarrow> metric_value f = - MAX_FLOAT64 \<and> \<not> metric_is_nan f
              | Finite x \<Rightarrow>
                  metric_value f = nearest_float64 x \<and> \<not> metric_is_nan f
                  \<and> (is_float64 x \<longrightarrow> metric_value f = x)
                  \<and> (\<bar>x\<bar> \<le> MAX_FLOAT64 \<longrightarrow> is_float64 (metric_value f))
                  \<and> (\<forall>y. is_float64 y \<longrightarrow> \<bar>metric_value f - x\<bar> \<le> \<bar>y - x\<bar>)))
       \<and> ((\<forall>g \<in> set (metrics d). is_float64 (metric_value g))
            \<and> (\<forall>x. metric_in_value metric = Finite x \<longrightarrow> \<bar>x\<bar> \<le> MAX_FLOAT64)
          \<longrightarrow> (\<forall>g \<in> set (metrics d'). is_float64 (metric_value g)))
       \<and> is_float64 MAX_FLOAT64
       \<and> (\<forall>x. is_float64 x \<longrightarrow> - MAX_FLOAT64 \<le> x \<and> x \<le> MAX_FLOAT64)"
proof -
  let ?f = "metric_row run_id metric"
  have table: "\<forall>g \<in> set (metrics d'). is_float64 (metric_value g)"
    if old: "\<forall>g \<in> set (metrics d). is_float64 (metric_value g)"
      and range: "\<forall>x. metric_in_value metric = Finite x \<longrightarrow> \<bar>x\<bar> \<le> MAX_FLOAT64"
  proof
    fix g assume "g \<in> set (metrics d')"
    then have "g = ?f \<or> g \<in> set (metrics d)"
      unfolding log_metric_table[OF assms] by (auto simp: add_fact_def split: if_splits)
    with old metric_row_is_float64[of metric run_id] range
    show "is_float64 (metric_value g)" by auto
  qed
  have v: "case metric_in_value metric of
                NaN \<Rightarrow> metric_value ?f = 0 \<and> metric_is_nan ?f
              | PosInf \<Rightarrow> metric_value ?f = MAX_FLOAT64 \<and> \<not> metric_is_nan ?f
              | NegInf \<Rightarrow> metric_value ?f = - MAX_FLOAT64 \<and> \<not> metric_is_nan ?f
              | Finite x \<Rightarrow>
                  metric_value ?f = nearest_float64 x \<and> \<not> metric_is_nan ?f
                  \<and> (is_float64 x \<longrightarrow> metric_value ?f = x)
                  \<and> (\<bar>x\<bar> \<le> MAX_FLOAT64 \<longrightarrow> is_float64 (metric_value ?f))
                  \<and> (\<forall>y. is_float64 y \<longrightarrow> \<bar>metric_value ?f - x\<bar> \<le> \<bar>y - x\<bar>)"
    by (cases "metric_in_value metric")
       (simp_all add: metric_row_value nearest_float64_exact nearest_float64_is_float64
          nearest_float64_nearest)
  have k: "metric_run_uuid ?f = run_id" "metric_key ?f = metric_in_key metric"
    "metric_timestamp ?f = metric_in_timestamp metric" "metric_step ?f = metric_in_step metric"
    by (simp_all add: metric_row_def)
  from log_metric_stores[OF assms] k v have "\<exists>f \<in> set (metrics d').
            metric_run_uuid f = run_id \<and> metric_key f = metric_in_key metric
          \<and> metric_timestamp f = metric_in_timestamp metric
          \<and> metric_step f = metric_in_step metric
          \<and> (case metric_in_value metric of
                NaN \<Rightarrow> metric_value f = 0 \<and> metric_is_nan f
              | PosInf \<Rightarrow> metric_value f = MAX_FLOAT64 \<and> \<not> metric_is_nan f
              | NegInf \<Rightarrow> metric_value f = - MAX_FLOAT64 \<and> \<not> metric_is_nan f
              | Finite x \<Rightarrow>
                  metric_value f = nearest_float64 x \<and> \<not> metric_is_nan f
                  \<and> (is_float64 x \<longrightarrow> metric_value f = x)
                  \<and> (\<bar>x\<bar> \<le> MAX_FLOAT64 \<longrightarrow> is_float64 (metric_value f))
                  \<and> (\<forall>y. is_float64 y \<longrightarrow> \<bar>metric_value f - x\<bar> \<le> \<bar>y - x\<bar>))"
    by (intro bexI[of _ ?f] conjI) assumption+
  with table MAX_FLOAT64_is_float64 float64_bounded show ?thesis by blast
qed

lemma merge_row_same:
  "filter (\<lambda>x. pk x = pk new) (merge_row pk new xs)
     = (case filter (\<lambda>x. pk x = pk new) xs of [] \<Rightarrow> [new] | y # ys \<Rightarrow> map (\<lambda>_. new) (y # ys))"
proof (cases "\<exists>r \<in> set xs. pk r = pk new")
  case False
  then have "filter (\<lambda>x. pk x = pk new) xs = []"
    by (auto simp: filter_empty_conv)
  with False show ?thesis by (simp add: merge_row_def)
next
  case True
  have "filter (\<lambda>x. pk x = pk new) (map (\<lambda>r. if pk r = pk new then new else r) ys)
      = map (\<lambda>_. new) (filter (\<lambda>x. pk x = pk new) ys)" for ys
    by (induction ys) simp_all
  moreover from True have "filter (\<lambda>x. pk x = pk new) xs \<noteq> []"
    by (auto simp: filter_empty_conv)
  ultimately show ?thesis
    using True by (simp add: merge_row_def split: list.splits)
qed

lemma merge_row_other:
  assumes "k \<noteq> pk new"
  shows "filter (\<lambda>x. pk x = k) (merge_row pk new xs) = filter (\<lambda>x. pk x = k) xs"
proof -
  have "filter (\<lambda>x. pk x = k) (map (\<lambda>r. if pk r = pk new then new else r) ys)
      = filter (\<lambda>x. pk x = k) ys" for ys
    using assms by (induction ys) auto
  then show ?thesis using assms by (auto simp: merge_row_def)
qed

lemma set_merge_row: "set (merge_row pk new xs) \<subseteq> insert new (set xs)"
  by (auto simp: merge_row_def)

lemma latest_for_pk:
  "latest_for r k d = filter (\<lambda>l. (latest_run_uuid l, latest_key l) = (r, k)) (latest_metrics d)"
  by (simp add: latest_for_def)

lemma latest_of_simps:
  "latest_run_uuid (latest_of f) = metric_run_uuid f" "latest_key (latest_of f) = metric_key f"
  by (simp_all add: latest_of_def)

lemma compare_latest_of: "priv_compare_metrics f (latest_of g) = (metric_tuple g < metric_tuple f)"
  by (simp add: priv_compare_metrics_def latest_of_def metric_tuple_def)

text \<open>The LatestMetric rows of a run and key after the merge of the row of \<open>f\<close>.\<close>

lemma latest_for_merged:
  fixes f d
  defines "d' \<equiv> d\<lparr>metrics := metrics d @ [f],
                   latest_metrics := merge_row (\<lambda>x. (latest_run_uuid x, latest_key x))
                                       (latest_of f) (latest_metrics d)\<rparr>"
  shows "latest_for (metric_run_uuid f) (metric_key f) d = [] \<or>
         (\<exists>l. latest_for (metric_run_uuid f) (metric_key f) d = [l]) \<Longrightarrow>
         latest_for (metric_run_uuid f) (metric_key f) d' = [latest_of f]"
    and "(r, k) \<noteq> (metric_run_uuid f, metric_key f) \<Longrightarrow> latest_for r k d' = latest_for r k d"
proof -
  let ?pk = "\<lambda>x. (latest_run_uuid x, latest_key x)"
  have pk: "?pk (latest_of f) = (metric_run_uuid f, metric_key f)"
    by (simp add: latest_of_simps)
  have same: "latest_for (metric_run_uuid f) (metric_key f) d'
      = (case latest_for (metric_run_uuid f) (metric_key f) d of
           [] \<Rightarrow> [latest_of f] | y # ys \<Rightarrow> map (\<lambda>_. latest_of f) (y # ys))"
    using merge_row_same[of ?pk "latest_of f" "latest_metrics d"]
    by (simp add: latest_for_pk d'_def pk)
  show "latest_for (metric_run_uuid f) (metric_key f) d' = [latest_of f]"
    if "latest_for (metric_run_uuid f) (metric_key f) d = [] \<or>
         (\<exists>l. latest_for (metric_run_uuid f) (metric_key f) d = [l])"
    using that same by auto
  show "latest_for r k d' = latest_for r k d" if "(r, k) \<noteq> (metric_run_uuid f, metric_key f)"
    using merge_row_other[of "(r, k)" ?pk "latest_of f" "latest_metrics d"] that
    by (simp add: latest_for_pk d'_def pk)
qed

lemma facts_of_appended:
  assumes "metrics d' = metrics d @ [f]"
  shows "facts_of r k d' =
     (if metric_run_uuid f = r \<and> metric_key f = k then facts_of r k d @ [f] else facts_of r k d)"
  using assms by (simp add: facts_of_def)

lemma latest_row_invI:
  assumes "facts_of r k d = earlier @ g # later" and "latest_for r k d = [latest_of g]"
    and "\<And>h. h \<in> set earlier \<Longrightarrow> metric_tuple h < metric_tuple g"
    and "\<And>h. h \<in> set later \<Longrightarrow> metric_tuple h \<le> metric_tuple g"
  shows "latest_row_inv r k d"
  unfolding latest_row_inv_def using assms by blast

lemma latest_row_inv_cases:
  assumes "latest_row_inv r k d"
  obtains (no_fact) "facts_of r k d = []" "latest_for r k d = []"
    | (row) earlier g later where "facts_of r k d = earlier @ g # later"
        "latest_for r k d = [latest_of g]"
        "\<And>h. h \<in> set earlier \<Longrightarrow> metric_tuple h < metric_tuple g"
        "\<And>h. h \<in> set later \<Longrightarrow> metric_tuple h \<le> metric_tuple g"
  using assms unfolding latest_row_inv_def by blast

text \<open>The invariant of a run and key other than those of the fact that is added.\<close>

lemma row_inv_other_key:
  assumes "latest_row_inv r k d" and "metrics d' = metrics d @ [f]"
    and "\<not> (metric_run_uuid f = r \<and> metric_key f = k)"
    and "latest_for r k d' = latest_for r k d"
  shows "latest_row_inv r k d'"
proof -
  from assms(2,3) have "facts_of r k d' = facts_of r k d"
    by (simp add: facts_of_appended)
  with assms(1,4) show ?thesis by (simp add: latest_row_inv_def)
qed

text \<open>The invariant when a fact is added and its row is merged.\<close>

lemma row_inv_merged:
  assumes inv: "latest_row_inv r k d" and m: "metrics d' = metrics d @ [f]"
    and key: "metric_run_uuid f = r" "metric_key f = k"
    and rows: "latest_for r k d = [] \<or> (\<exists>l. latest_for r k d = [l] \<and> priv_compare_metrics f l)"
    and new: "latest_for r k d' = [latest_of f]"
  shows "latest_row_inv r k d'"
proof -
  have facts: "facts_of r k d' = facts_of r k d @ f # []"
    using m key by (simp add: facts_of_appended)
  have below: "metric_tuple h < metric_tuple f" if h: "h \<in> set (facts_of r k d)" for h
    using inv
  proof (cases rule: latest_row_inv_cases)
    case no_fact
    with h show ?thesis by simp
  next
    case (row earlier g later)
    from rows row(2) have "priv_compare_metrics f (latest_of g)" by auto
    then have g: "metric_tuple g < metric_tuple f" by (simp add: compare_latest_of)
    from h row(1) have "h \<in> set earlier \<or> h = g \<or> h \<in> set later" by auto
    with row(3,4) have "metric_tuple h \<le> metric_tuple g" by (auto intro: less_imp_le)
    with g show ?thesis by simp
  qed
  show ?thesis
    by (rule latest_row_invI[OF facts new]) (simp_all add: below)
qed

text \<open>The invariant when a fact is added and the table is left alone.\<close>

lemma row_inv_kept:
  assumes inv: "latest_row_inv r k d" and m: "metrics d' = metrics d @ [f]"
    and key: "metric_run_uuid f = r" "metric_key f = k"
    and rows: "latest_for r k d = [l]" and below: "\<not> priv_compare_metrics f l"
    and same: "latest_for r k d' = latest_for r k d"
  shows "latest_row_inv r k d'"
  using inv
proof (cases rule: latest_row_inv_cases)
  case no_fact
  with rows show ?thesis by simp
next
  case (row earlier g later)
  from rows row(2) have "l = latest_of g" by simp
  with below have "\<not> metric_tuple g < metric_tuple f"
    by (simp add: compare_latest_of)
  then have fg: "metric_tuple f \<le> metric_tuple g" by (simp add: not_less)
  have facts: "facts_of r k d' = earlier @ g # (later @ [f])"
    using m key row(1) by (simp add: facts_of_appended)
  have rows': "latest_for r k d' = [latest_of g]"
    using same row(2) by simp
  show ?thesis
    by (rule latest_row_invI[OF facts rows']) (use row(3,4) fg in auto)
qed

text \<open>A database without metrics and without LatestMetric rows satisfies the invariant.\<close>

lemma latest_metric_inv_empty:
  "metrics d = [] \<Longrightarrow> latest_metrics d = [] \<Longrightarrow> latest_metric_inv d"
  by (simp add: latest_metric_inv_def latest_row_inv_def facts_of_def latest_for_def)

lemma inv_single_row:
  assumes "latest_metric_inv d"
  shows "latest_for r k d = [] \<or> (\<exists>l. latest_for r k d = [l])"
proof -
  from assms have "latest_row_inv r k d" by (simp add: latest_metric_inv_def)
  then show ?thesis by (cases rule: latest_row_inv_cases) simp_all
qed

lemma inv_fact_merged:
  assumes inv: "latest_metric_inv d"
    and rows: "latest_for (metric_run_uuid f) (metric_key f) d = []
        \<or> (\<exists>l. latest_for (metric_run_uuid f) (metric_key f) d = [l] \<and> priv_compare_metrics f l)"
  shows "latest_metric_inv (d\<lparr>metrics := metrics d @ [f],
                   latest_metrics := merge_row (\<lambda>x. (latest_run_uuid x, latest_key x))
                                       (latest_of f) (latest_metrics d)\<rparr>)"
  unfolding latest_metric_inv_def
proof (intro allI)
  fix r k
  let ?d' = "d\<lparr>metrics := metrics d @ [f],
                   latest_metrics := merge_row (\<lambda>x. (latest_run_uuid x, latest_key x))
                                       (latest_of f) (latest_metrics d)\<rparr>"
  have m: "metrics ?d' = metrics d @ [f]" by simp
  from inv have i: "latest_row_inv r k d" by (simp add: latest_metric_inv_def)
  show "latest_row_inv r k ?d'"
  proof (cases "metric_run_uuid f = r \<and> metric_key f = k")
    case True
    have new: "latest_for r k ?d' = [latest_of f]"
      using latest_for_merged(1)[of f d] rows True by blast
    from True rows show ?thesis
      by (intro row_inv_merged[OF i m _ _ _ new]) auto
  next
    case False
    then have "(r, k) \<noteq> (metric_run_uuid f, metric_key f)" by auto
    then have "latest_for r k ?d' = latest_for r k d" by (rule latest_for_merged(2))
    with False show ?thesis by (intro row_inv_other_key[OF i m]) auto
  qed
qed

lemma inv_fact_below:
  assumes inv: "latest_metric_inv d"
    and rows: "latest_for (metric_run_uuid f) (metric_key f) d = [l]"
    and below: "\<not> priv_compare_metrics f l"
  shows "latest_metric_inv (d\<lparr>metrics := metrics d @ [f]\<rparr>)"
  unfolding latest_metric_inv_def
proof (intro allI)
  fix r k
  let ?d' = "d\<lparr>metrics := metrics d @ [f]\<rparr>"
  have m: "metrics ?d' = metrics d @ [f]" by simp
  have same: "latest_for r k ?d' = latest_for r k d" by (simp add: latest_for_def)
  from inv have i: "latest_row_inv r k d" by (simp add: latest_metric_inv_def)
  show "latest_row_inv r k ?d'"
  proof (cases "metric_run_uuid f = r \<and> metric_key f = k")
    case True
    with rows have "latest_for r k d = [l]" by auto
    from row_inv_kept[OF i m _ _ this below same] True show ?thesis by simp
  next
    case False
    then show ?thesis by (intro row_inv_other_key[OF i m _ same]) auto
  qed
qed

lemma inv_after_new_fact:
  assumes inv: "latest_metric_inv d" and a: "after_new_fact f d = (res, d')"
  shows "latest_metric_inv d'"
proof (cases "latest_for (metric_run_uuid f) (metric_key f) d")
  case Nil
  with a have "d' = d\<lparr>metrics := metrics d @ [f],
                   latest_metrics := merge_row (\<lambda>x. (latest_run_uuid x, latest_key x))
                                       (latest_of f) (latest_metrics d)\<rparr>"
    by (simp add: after_new_fact_def Let_def)
  with inv_fact_merged[OF inv, of f] Nil show ?thesis by simp
next
  case (Cons l ls)
  show ?thesis
  proof (cases ls)
    case Nil
    show ?thesis
    proof (cases "priv_compare_metrics f l")
      case True
      with a Cons Nil have "d' = d\<lparr>metrics := metrics d @ [f],
                   latest_metrics := merge_row (\<lambda>x. (latest_run_uuid x, latest_key x))
                                       (latest_of f) (latest_metrics d)\<rparr>"
        by (simp add: after_new_fact_def Let_def)
      with inv_fact_merged[OF inv, of f] Cons Nil True show ?thesis by simp
    next
      case False
      with a Cons Nil have "d' = d\<lparr>metrics := metrics d @ [f]\<rparr>"
        by (simp add: after_new_fact_def Let_def)
      with inv_fact_below[OF inv _ False] Cons Nil show ?thesis by simp
    qed
  next
    case Cons2: (Cons l' rest)
    with a Cons have "d' = d" by (simp add: after_new_fact_def Let_def)
    with inv show ?thesis by simp
  qed
qed

text \<open>Under the invariant the creation of a fact never meets two rows of its key.\<close>

lemma after_new_fact_succeeds:
  assumes "latest_metric_inv d"
  shows "fst (after_new_fact f d) = Inr ()"
  using inv_single_row[OF assms, of "metric_run_uuid f" "metric_key f"]
  by (auto simp: after_new_fact_def Let_def)

lemma inv_log_metric:
  assumes inv: "latest_metric_inv d"
  shows "latest_metric_inv (snd (log_metric V d r m))"
proof -
  obtain res d' where lm: "log_metric V d r m = (res, d')" by (cases "log_metric V d r m")
  from log_metric_cases[OF lm] inv inv_after_new_fact[OF inv, of "metric_row r m" res d']
  have "latest_metric_inv d'" by auto
  with lm show ?thesis by simp
qed

lemma inv_log_metrics:
  "latest_metric_inv d \<Longrightarrow> latest_metric_inv (log_metrics V d cs)"
proof (induction cs arbitrary: d)
  case Nil
  then show ?case by simp
next
  case (Cons c cs)
  obtain r m where c: "c = (r, m)" by (cases c)
  from Cons.IH[OF inv_log_metric[OF Cons.prems, of V r m]] show ?case
    by (simp add: c)
qed

text \<open>The metrics table after a call and after a sequence of calls.\<close>

lemma log_metrics_table:
  "metrics (log_metrics V d cs) = fold add_fact (logged_facts V d cs) (metrics d)"
proof (induction cs arbitrary: d)
  case Nil
  then show ?case by simp
next
  case (Cons c cs)
  obtain r m where c: "c = (r, m)" by (cases c)
  obtain res d' where lm: "log_metric V d r m = (res, d')" by (cases "log_metric V d r m")
  show ?case
  proof (cases res)
    case (Inl e)
    with lm have "d' = d" by (simp add: log_metric_fails_unchanged)
    with Cons.IH[of d] lm Inl show ?thesis by (simp add: c)
  next
    case (Inr u)
    with lm have "metrics d' = add_fact (metric_row r m) (metrics d)"
      by (simp add: log_metric_table)
    with Cons.IH[of d'] lm Inr show ?thesis by (simp add: c)
  qed
qed

lemma set_fold_add_fact: "set (fold add_fact fs table) = set table \<union> set fs"
  by (induction fs arbitrary: table) (auto simp: add_fact_def)

lemma log_metric_active:
  assumes runs: "distinct (map run_run_uuid (runs d))" and run: "run \<in> set (runs d)"
    and active: "run_lifecycle_stage run = ACTIVE"
    and valid: "validate_metric V (metric_in_key m) (metric_in_value m) (metric_in_timestamp m)
          (metric_in_step m) = None"
  shows "log_metric V d (run_run_uuid run) m =
     (if metric_row (run_run_uuid run) m \<in> set (metrics d) then (Inr (), d)
      else after_new_fact (metric_row (run_run_uuid run) m) d)"
proof -
  let ?r = "run_run_uuid run"
  let ?inner = "\<lambda>(run :: SqlRun) (u :: unit). and_then (priv_get_or_create metrics (metric_row ?r m) INSERT_metric)
                        (\<lambda>(logged_metric, just_created).
                           if just_created
                           then priv_update_latest_metric_if_necessary logged_metric
                           else return ())"
  let ?body = "and_then (priv_get_run ?r) (\<lambda>run. and_then (priv_check_run_is_active run) (?inner run))"
  have lm: "log_metric V d ?r m = ManagedSessionMaker ?body d"
    using valid by (simp add: log_metric_def Let_def metric_row_def)
  have "ManagedSessionMaker ?body d = ManagedSessionMaker (\<lambda>s. ?inner run () s) d"
    by (rule Managed_cong) (simp add: run_guard_passes[OF runs run active])
  with lm have eq: "log_metric V d ?r m = ManagedSessionMaker (\<lambda>s. ?inner run () s) d"
    by simp
  show ?thesis
  proof (cases "metric_row ?r m \<in> set (metrics d)")
    case True
    with eq show ?thesis unfolding log_metric_body_existing[OF True] by simp
  next
    case False
    with eq show ?thesis unfolding log_metric_body_new_fact[OF False] by simp
  qed
qed

lemma latest_row_greatest:
  assumes inv: "latest_metric_inv d" and f: "f \<in> set (metrics d)"
  shows "\<exists>g \<in> set (metrics d).
           metric_run_uuid g = metric_run_uuid f \<and> metric_key g = metric_key f
           \<and> latest_for (metric_run_uuid f) (metric_key f) d = [latest_of g]
           \<and> (\<forall>h \<in> set (metrics d).
                 metric_run_uuid h = metric_run_uuid f \<and> metric_key h = metric_key f
                 \<longrightarrow> metric_tuple h \<le> metric_tuple g)"
proof -
  let ?r = "metric_run_uuid f" and ?k = "metric_key f"
  from f have mem: "f \<in> set (facts_of ?r ?k d)" by (simp add: facts_of_def)
  from inv have "latest_row_inv ?r ?k d" by (simp add: latest_metric_inv_def)
  then show ?thesis
  proof (cases rule: latest_row_inv_cases)
    case no_fact
    with mem show ?thesis by simp
  next
    case (row earlier g later)
    have "g \<in> set (facts_of ?r ?k d)" by (simp add: row(1))
    then have g: "g \<in> set (metrics d)" "metric_run_uuid g = ?r" "metric_key g = ?k"
      by (simp_all add: facts_of_def)
    have top: "metric_tuple h \<le> metric_tuple g"
      if h: "h \<in> set (metrics d)" "metric_run_uuid h = ?r \<and> metric_key h = ?k" for h
    proof -
      from h have "h \<in> set (facts_of ?r ?k d)" by (simp add: facts_of_def)
      then have "h \<in> set earlier \<or> h = g \<or> h \<in> set later" by (auto simp: row(1))
      with row(3,4) show ?thesis by (auto intro: less_imp_le)
    qed
    from g row(2) top show ?thesis by (intro bexI[of _ g]) auto
  qed
qed

lemma log_metric_succeeds:
  assumes inv: "latest_metric_inv d"
    and runs: "distinct (map run_run_uuid (runs d))" and run: "run \<in> set (runs d)"
    and active: "run_lifecycle_stage run = ACTIVE"
    and valid: "validate_metric V (metric_in_key m) (metric_in_value m) (metric_in_timestamp m)
          (metric_in_step m) = None"
  shows "fst (log_metric V d (run_run_uuid run) m) = Inr ()"
  unfolding log_metric_active[OF runs run active valid]
  by (simp add: after_new_fact_succeeds[OF inv])

text \<open>
  Claim C1. From a database that satisfies the invariant of the LatestMetric table,
  every sequence of calls of \<open>log_metric\<close> leads to a database in which

  \<^item> the metrics table is the table of the start with the facts that the sequence
    logged, appended in the order of the calls (a fact that the table holds
    already is not added again);
  \<^item> the invariant holds: a run and key without a fact have no row, a run and key
    with facts have exactly one row, and it holds the first of the facts whose
    \<open>(step, timestamp, value)\<close> is greatest;
  \<^item> so for every fact of the start and every fact logged, the row of its run and
    key holds one of these facts, and none of them of that run and key has a
    greater \<open>(step, timestamp, value)\<close>.

  A call for an active run with a metric that the validator accepts returns
  without an error. A call replaces the row that exists for the run and key only
  when the fact it logs is new and compares strictly greater than that row, and
  then the row holds the new fact; a call that finds its fact in the table already
  changes nothing.
\<close>

theorem latest_metric_maintained:
  assumes inv: "latest_metric_inv d"
  shows "metrics (log_metrics V d cs) = fold add_fact (logged_facts V d cs) (metrics d)
       \<and> latest_metric_inv (log_metrics V d cs)
       \<and> (\<forall>f \<in> set (metrics d) \<union> set (logged_facts V d cs).
            \<exists>g \<in> set (metrics d) \<union> set (logged_facts V d cs).
              metric_run_uuid g = metric_run_uuid f \<and> metric_key g = metric_key f
              \<and> latest_for (metric_run_uuid f) (metric_key f) (log_metrics V d cs) = [latest_of g]
              \<and> (\<forall>h \<in> set (metrics d) \<union> set (logged_facts V d cs).
                    metric_run_uuid h = metric_run_uuid f \<and> metric_key h = metric_key f
                    \<longrightarrow> metric_tuple h \<le> metric_tuple g))
       \<and> (\<forall>run \<in> set (runs d). \<forall>m.
            distinct (map run_run_uuid (runs d)) \<and> run_lifecycle_stage run = ACTIVE
            \<and> validate_metric V (metric_in_key m) (metric_in_value m) (metric_in_timestamp m)
                 (metric_in_step m) = None
            \<longrightarrow> fst (log_metric V d (run_run_uuid run) m) = Inr ())
       \<and> (\<forall>r m l. latest_for r (metric_in_key m) d = [l]
                 \<and> latest_for r (metric_in_key m) (snd (log_metric V d r m)) \<noteq> [l] \<longrightarrow>
             metric_row r m \<notin> set (metrics d) \<and> priv_compare_metrics (metric_row r m) l
             \<and> latest_for r (metric_in_key m) (snd (log_metric V d r m))
                 = [latest_of (metric_row r m)])
       \<and> (\<forall>r m. metric_row r m \<in> set (metrics d) \<longrightarrow> snd (log_metric V d r m) = d)"
proof -
  let ?dN = "log_metrics V d cs"
  have table: "metrics ?dN = fold add_fact (logged_facts V d cs) (metrics d)"
    by (rule log_metrics_table)
  have seq: "latest_metric_inv ?dN"
    by (rule inv_log_metrics[OF inv])
  have all: "set (metrics ?dN) = set (metrics d) \<union> set (logged_facts V d cs)"
    unfolding table by (rule set_fold_add_fact)
  have greatest: "\<forall>f \<in> set (metrics d) \<union> set (logged_facts V d cs).
            \<exists>g \<in> set (metrics d) \<union> set (logged_facts V d cs).
              metric_run_uuid g = metric_run_uuid f \<and> metric_key g = metric_key f
              \<and> latest_for (metric_run_uuid f) (metric_key f) ?dN = [latest_of g]
              \<and> (\<forall>h \<in> set (metrics d) \<union> set (logged_facts V d cs).
                    metric_run_uuid h = metric_run_uuid f \<and> metric_key h = metric_key f
                    \<longrightarrow> metric_tuple h \<le> metric_tuple g)"
    using latest_row_greatest[OF seq] unfolding all by blast
  have succeeds: "\<forall>run \<in> set (runs d). \<forall>m.
            distinct (map run_run_uuid (runs d)) \<and> run_lifecycle_stage run = ACTIVE
            \<and> validate_metric V (metric_in_key m) (metric_in_value m) (metric_in_timestamp m)
                 (metric_in_step m) = None
            \<longrightarrow> fst (log_metric V d (run_run_uuid run) m) = Inr ()"
    using log_metric_succeeds[OF inv] by blast
  have skip: "snd (log_metric V d r m) = d" if old: "metric_row r m \<in> set (metrics d)" for r m
  proof -
    obtain res d' where lm: "log_metric V d r m = (res, d')" by (cases "log_metric V d r m")
    from log_metric_cases[OF lm] old have "d' = d" by auto
    with lm show ?thesis by simp
  qed
  have replace: "metric_row r m \<notin> set (metrics d) \<and> priv_compare_metrics (metric_row r m) l
             \<and> latest_for r (metric_in_key m) (snd (log_metric V d r m))
                 = [latest_of (metric_row r m)]"
    if a: "latest_for r (metric_in_key m) d = [l]
                 \<and> latest_for r (metric_in_key m) (snd (log_metric V d r m)) \<noteq> [l]"
    for r m l
  proof -
    let ?f = "metric_row r m"
    have key: "metric_run_uuid ?f = r" "metric_key ?f = metric_in_key m"
      by (simp_all add: metric_row_def)
    obtain res d' where lm: "log_metric V d r m = (res, d')" by (cases "log_metric V d r m")
    with a have changed: "latest_for r (metric_in_key m) d' \<noteq> [l]"
      and rows: "latest_for (metric_run_uuid ?f) (metric_key ?f) d = [l]"
      by (simp_all add: key)
    from log_metric_cases[OF lm] a changed
    have new: "?f \<notin> set (metrics d)" and anf: "after_new_fact ?f d = (res, d')"
      by auto
    have cmp: "priv_compare_metrics ?f l"
    proof (rule ccontr)
      assume "\<not> priv_compare_metrics ?f l"
      with anf rows have "d' = d\<lparr>metrics := metrics d @ [?f]\<rparr>"
        by (simp add: after_new_fact_def Let_def)
      then have "latest_for r (metric_in_key m) d' = latest_for r (metric_in_key m) d"
        by (simp add: latest_for_def)
      with a changed show False by simp
    qed
    with anf rows have "d' = d\<lparr>metrics := metrics d @ [?f],
                     latest_metrics := merge_row (\<lambda>x. (latest_run_uuid x, latest_key x))
                                         (latest_of ?f) (latest_metrics d)\<rparr>"
      by (simp add: after_new_fact_def Let_def)
    then have "latest_for (metric_run_uuid ?f) (metric_key ?f) d' = [latest_of ?f]"
      using latest_for_merged(1)[of ?f d] rows by simp
    with new cmp lm show ?thesis
      by (simp add: key)
  qed
  from table seq greatest succeeds skip replace show ?thesis by blast
qed

lemma accept_all_simps:
  "validate_metric accept_all k v ts st = None" "validate_tag accept_all a b = None"
  "validate_experiment_tag accept_all a b = None" "validate_run_id accept_all r = None"
  "validate_batch_log_data accept_all ms ps tgs = None"
  "validate_batch_log_limits accept_all ms ps tgs = None"
  by (simp_all add: accept_all_def)

lemma log_metric_small_store:
  assumes "runs d = runs small_store"
  shows "log_metric accept_all d ''r1'' m =
     (if metric_row ''r1'' m \<in> set (metrics d) then (Inr (), d)
      else after_new_fact (metric_row ''r1'' m) d)"
proof -
  have "distinct (map run_run_uuid (runs d))" "active_run \<in> set (runs d)"
    by (simp_all add: assms small_store_facts)
  from log_metric_active[OF this small_store_facts(11) accept_all_simps(1), of m]
  show ?thesis by (simp add: small_store_facts)
qed

lemma log_metric_small_store_deleted:
  assumes "runs d = runs small_store"
  shows "log_metric accept_all d ''r2'' m =
     (Inl (MlflowException (Run_must_be_active ''r2'' DELETED) INVALID_PARAMETER_VALUE), d)"
proof -
  have "distinct (map run_run_uuid (runs d))" "deleted_run \<in> set (runs d)"
    "run_lifecycle_stage deleted_run \<noteq> ACTIVE"
    by (simp_all add: assms small_store_facts)
  note guard = Managed_run_guard_raises[OF this]
  show ?thesis
    unfolding log_metric_def
    by (simp add: Let_def accept_all_simps guard[unfolded small_store_facts(12,13)])
qed

lemma nearest_float64_small:
  "nearest_float64 (1 / 4) = 1 / 4" "nearest_float64 (1 / 2) = 1 / 2"
  "nearest_float64 (3 / 4) = 3 / 4" "nearest_float64 1 = 1"
  by (simp_all add: nearest_float64_exact is_float64_small)

theorem stored_metric_value_witness:
  "log_metric accept_all small_store ''r1''
      \<lparr>metric_in_key = ''acc'', metric_in_value = NaN, metric_in_timestamp = 5, metric_in_step = 0\<rparr>
     = (Inr (), small_store
          \<lparr>metrics := [\<lparr>metric_run_uuid = ''r1'', metric_key = ''acc'', metric_value = 0,
                         metric_timestamp = 5, metric_step = 0, metric_is_nan = True\<rparr>],
           latest_metrics := [\<lparr>latest_run_uuid = ''r1'', latest_key = ''acc'', latest_value = 0,
                         latest_timestamp = 5, latest_step = 0, latest_is_nan = True\<rparr>]\<rparr>)
   \<and> log_metric accept_all small_store ''r1''
      \<lparr>metric_in_key = ''acc'', metric_in_value = NegInf, metric_in_timestamp = 5, metric_in_step = 0\<rparr>
     = (Inr (), small_store
          \<lparr>metrics := [\<lparr>metric_run_uuid = ''r1'', metric_key = ''acc'', metric_value = - MAX_FLOAT64,
                         metric_timestamp = 5, metric_step = 0, metric_is_nan = False\<rparr>],
           latest_metrics := [\<lparr>latest_run_uuid = ''r1'', latest_key = ''acc'',
                         latest_value = - MAX_FLOAT64,
                         latest_timestamp = 5, latest_step = 0, latest_is_nan = False\<rparr>]\<rparr>)
   \<and> log_metric accept_all small_store ''r1''
      \<lparr>metric_in_key = ''acc'', metric_in_value = Finite (3 / 4), metric_in_timestamp = 5,
        metric_in_step = 0\<rparr>
     = (Inr (), small_store
          \<lparr>metrics := [\<lparr>metric_run_uuid = ''r1'', metric_key = ''acc'', metric_value = 3 / 4,
                         metric_timestamp = 5, metric_step = 0, metric_is_nan = False\<rparr>],
           latest_metrics := [\<lparr>latest_run_uuid = ''r1'', latest_key = ''acc'',
                         latest_value = 3 / 4,
                         latest_timestamp = 5, latest_step = 0, latest_is_nan = False\<rparr>]\<rparr>)
   \<and> is_float64 (3 / 4) \<and> is_float64 MAX_FLOAT64"
proof -
  let ?nan = "\<lparr>metric_in_key = ''acc'', metric_in_value = NaN, metric_in_timestamp = 5,
                metric_in_step = 0\<rparr>"
  let ?inf = "\<lparr>metric_in_key = ''acc'', metric_in_value = NegInf, metric_in_timestamp = 5,
                metric_in_step = 0\<rparr>"
  let ?fin = "\<lparr>metric_in_key = ''acc'', metric_in_value = Finite (3 / 4), metric_in_timestamp = 5,
                metric_in_step = 0\<rparr>"
  have logged: "log_metric accept_all small_store ''r1'' m
     = (Inr (), small_store
          \<lparr>metrics := [metric_row ''r1'' m], latest_metrics := [latest_of (metric_row ''r1'' m)]\<rparr>)"
    for m
    by (simp add: log_metric_small_store small_store_facts after_new_fact_def latest_for_def
          merge_row_def)
  have fl: "is_float64 (3 / 4)" by (rule is_float64_small(3))
  from stored_metric_value[OF logged[of ?nan]]
  have n: "metric_value (metric_row ''r1'' ?nan) = 0 \<and> metric_is_nan (metric_row ''r1'' ?nan)"
    and mx: "is_float64 MAX_FLOAT64"
    by simp_all
  from stored_metric_value[OF logged[of ?inf]]
  have i: "metric_value (metric_row ''r1'' ?inf) = - MAX_FLOAT64
      \<and> \<not> metric_is_nan (metric_row ''r1'' ?inf)"
    by simp
  from stored_metric_value[OF logged[of ?fin]] fl
  have f: "metric_value (metric_row ''r1'' ?fin) = 3 / 4
      \<and> \<not> metric_is_nan (metric_row ''r1'' ?fin)"
    by simp
  have row: "metric_row ''r1'' m = \<lparr>metric_run_uuid = ''r1'', metric_key = metric_in_key m,
        metric_value = metric_value (metric_row ''r1'' m),
        metric_timestamp = metric_in_timestamp m, metric_step = metric_in_step m,
        metric_is_nan = metric_is_nan (metric_row ''r1'' m)\<rparr>" for m
    by (simp add: metric_row_def)
  have "metric_row ''r1'' ?nan = \<lparr>metric_run_uuid = ''r1'', metric_key = ''acc'', metric_value = 0,
                         metric_timestamp = 5, metric_step = 0, metric_is_nan = True\<rparr>"
    using row[of ?nan] n by simp
  moreover have "metric_row ''r1'' ?inf = \<lparr>metric_run_uuid = ''r1'', metric_key = ''acc'',
                         metric_value = - MAX_FLOAT64,
                         metric_timestamp = 5, metric_step = 0, metric_is_nan = False\<rparr>"
    using row[of ?inf] i by simp
  moreover have "metric_row ''r1'' ?fin = \<lparr>metric_run_uuid = ''r1'', metric_key = ''acc'',
                         metric_value = 3 / 4,
                         metric_timestamp = 5, metric_step = 0, metric_is_nan = False\<rparr>"
    using row[of ?fin] f by simp
  ultimately show ?thesis
    using logged[of ?nan] logged[of ?inf] logged[of ?fin] fl mx by (simp add: latest_of_def)
qed

text \<open>
  The claim C6 says that every finite value is stored unchanged. The int
  \<open>2^53 + 1 = 9007199254740993\<close> is not a 64-bit float, and \<open>log_metric\<close> stores
  \<open>2^53\<close> for it.
\<close>

theorem stored_metric_value_counterexample:
  "log_metric accept_all small_store ''r1''
      \<lparr>metric_in_key = ''acc'', metric_in_value = Finite 9007199254740993,
        metric_in_timestamp = 5, metric_in_step = 0\<rparr>
     = (Inr (), small_store
          \<lparr>metrics := [\<lparr>metric_run_uuid = ''r1'', metric_key = ''acc'',
                         metric_value = 9007199254740992,
                         metric_timestamp = 5, metric_step = 0, metric_is_nan = False\<rparr>],
           latest_metrics := [\<lparr>latest_run_uuid = ''r1'', latest_key = ''acc'',
                         latest_value = 9007199254740992,
                         latest_timestamp = 5, latest_step = 0, latest_is_nan = False\<rparr>]\<rparr>)
   \<and> (9007199254740992 :: real) \<noteq> 9007199254740993
   \<and> \<not> is_float64 9007199254740993"
proof -
  let ?m = "\<lparr>metric_in_key = ''acc'', metric_in_value = Finite 9007199254740993,
        metric_in_timestamp = 5, metric_in_step = 0\<rparr>"
  have row: "metric_row ''r1'' ?m = \<lparr>metric_run_uuid = ''r1'', metric_key = ''acc'',
                         metric_value = 9007199254740992,
                         metric_timestamp = 5, metric_step = 0, metric_is_nan = False\<rparr>"
    by (simp add: metric_row_def stored_value_def nearest_float64_odd)
  have "log_metric accept_all small_store ''r1'' ?m
     = (Inr (), small_store
          \<lparr>metrics := [metric_row ''r1'' ?m], latest_metrics := [latest_of (metric_row ''r1'' ?m)]\<rparr>)"
    by (simp add: log_metric_small_store small_store_facts after_new_fact_def latest_for_def
          merge_row_def)
  then show ?thesis
    unfolding row by (simp add: latest_of_def not_float64_odd)
qed

theorem latest_metric_maintained_witness:
  "latest_metric_inv small_store
   \<and> logged_facts accept_all small_store
        [(''r1'', \<lparr>metric_in_key = ''acc'', metric_in_value = Finite (1 / 2),
                   metric_in_timestamp = 100, metric_in_step = 0\<rparr>),
         (''r1'', \<lparr>metric_in_key = ''acc'', metric_in_value = Finite (3 / 4),
                   metric_in_timestamp = 200, metric_in_step = 1\<rparr>),
         (''r2'', \<lparr>metric_in_key = ''acc'', metric_in_value = Finite 1,
                   metric_in_timestamp = 300, metric_in_step = 5\<rparr>),
         (''r1'', \<lparr>metric_in_key = ''acc'', metric_in_value = Finite (1 / 4),
                   metric_in_timestamp = 150, metric_in_step = 1\<rparr>)]
     = [\<lparr>metric_run_uuid = ''r1'', metric_key = ''acc'', metric_value = 1 / 2,
          metric_timestamp = 100, metric_step = 0, metric_is_nan = False\<rparr>,
        \<lparr>metric_run_uuid = ''r1'', metric_key = ''acc'', metric_value = 3 / 4,
          metric_timestamp = 200, metric_step = 1, metric_is_nan = False\<rparr>,
        \<lparr>metric_run_uuid = ''r1'', metric_key = ''acc'', metric_value = 1 / 4,
          metric_timestamp = 150, metric_step = 1, metric_is_nan = False\<rparr>]
   \<and> metrics (log_metrics accept_all small_store
        [(''r1'', \<lparr>metric_in_key = ''acc'', metric_in_value = Finite (1 / 2),
                   metric_in_timestamp = 100, metric_in_step = 0\<rparr>),
         (''r1'', \<lparr>metric_in_key = ''acc'', metric_in_value = Finite (3 / 4),
                   metric_in_timestamp = 200, metric_in_step = 1\<rparr>),
         (''r2'', \<lparr>metric_in_key = ''acc'', metric_in_value = Finite 1,
                   metric_in_timestamp = 300, metric_in_step = 5\<rparr>),
         (''r1'', \<lparr>metric_in_key = ''acc'', metric_in_value = Finite (1 / 4),
                   metric_in_timestamp = 150, metric_in_step = 1\<rparr>)])
     = [\<lparr>metric_run_uuid = ''r1'', metric_key = ''acc'', metric_value = 1 / 2,
          metric_timestamp = 100, metric_step = 0, metric_is_nan = False\<rparr>,
        \<lparr>metric_run_uuid = ''r1'', metric_key = ''acc'', metric_value = 3 / 4,
          metric_timestamp = 200, metric_step = 1, metric_is_nan = False\<rparr>,
        \<lparr>metric_run_uuid = ''r1'', metric_key = ''acc'', metric_value = 1 / 4,
          metric_timestamp = 150, metric_step = 1, metric_is_nan = False\<rparr>]
   \<and> latest_metrics (log_metrics accept_all small_store
        [(''r1'', \<lparr>metric_in_key = ''acc'', metric_in_value = Finite (1 / 2),
                   metric_in_timestamp = 100, metric_in_step = 0\<rparr>),
         (''r1'', \<lparr>metric_in_key = ''acc'', metric_in_value = Finite (3 / 4),
                   metric_in_timestamp = 200, metric_in_step = 1\<rparr>),
         (''r2'', \<lparr>metric_in_key = ''acc'', metric_in_value = Finite 1,
                   metric_in_timestamp = 300, metric_in_step = 5\<rparr>),
         (''r1'', \<lparr>metric_in_key = ''acc'', metric_in_value = Finite (1 / 4),
                   metric_in_timestamp = 150, metric_in_step = 1\<rparr>)])
     = [\<lparr>latest_run_uuid = ''r1'', latest_key = ''acc'', latest_value = 3 / 4,
         latest_timestamp = 200, latest_step = 1, latest_is_nan = False\<rparr>]"
proof -
  let ?m1 = "\<lparr>metric_in_key = ''acc'', metric_in_value = Finite (1 / 2),
                   metric_in_timestamp = 100, metric_in_step = 0\<rparr>"
  let ?m2 = "\<lparr>metric_in_key = ''acc'', metric_in_value = Finite (3 / 4),
                   metric_in_timestamp = 200, metric_in_step = 1\<rparr>"
  let ?m3 = "\<lparr>metric_in_key = ''acc'', metric_in_value = Finite 1,
                   metric_in_timestamp = 300, metric_in_step = 5\<rparr>"
  let ?m4 = "\<lparr>metric_in_key = ''acc'', metric_in_value = Finite (1 / 4),
                   metric_in_timestamp = 150, metric_in_step = 1\<rparr>"
  let ?f1 = "\<lparr>metric_run_uuid = ''r1'', metric_key = ''acc'', metric_value = 1 / 2,
          metric_timestamp = 100, metric_step = 0, metric_is_nan = False\<rparr>"
  let ?f2 = "\<lparr>metric_run_uuid = ''r1'', metric_key = ''acc'', metric_value = 3 / 4,
          metric_timestamp = 200, metric_step = 1, metric_is_nan = False\<rparr>"
  let ?f4 = "\<lparr>metric_run_uuid = ''r1'', metric_key = ''acc'', metric_value = 1 / 4,
          metric_timestamp = 150, metric_step = 1, metric_is_nan = False\<rparr>"
  let ?cs = "[(''r1'', ?m1), (''r1'', ?m2), (''r2'', ?m3), (''r1'', ?m4)]"
  let ?d1 = "small_store\<lparr>metrics := [?f1], latest_metrics := [latest_of ?f1]\<rparr>"
  let ?d2 = "small_store\<lparr>metrics := [?f1, ?f2], latest_metrics := [latest_of ?f2]\<rparr>"
  let ?d3 = "small_store\<lparr>metrics := [?f1, ?f2, ?f4], latest_metrics := [latest_of ?f2]\<rparr>"
  have rows: "metric_row ''r1'' ?m1 = ?f1" "metric_row ''r1'' ?m2 = ?f2" "metric_row ''r1'' ?m4 = ?f4"
    by (simp_all add: metric_row_def stored_value_def nearest_float64_small)
  have inv0: "latest_metric_inv small_store"
    by (rule latest_metric_inv_empty) (simp_all add: small_store_facts)
  have 1: "log_metric accept_all small_store ''r1'' ?m1 = (Inr (), ?d1)"
    unfolding log_metric_small_store[OF refl] rows
    by (simp add: small_store_facts after_new_fact_def latest_for_def merge_row_def latest_of_def)
  have 2: "log_metric accept_all ?d1 ''r1'' ?m2 = (Inr (), ?d2)"
    unfolding log_metric_small_store[of ?d1, simplified] rows
    by (simp add: small_store_facts after_new_fact_def latest_for_def merge_row_def latest_of_def
          priv_compare_metrics_def)
  have 3: "log_metric accept_all ?d2 ''r2'' ?m3
      = (Inl (MlflowException (Run_must_be_active ''r2'' DELETED) INVALID_PARAMETER_VALUE), ?d2)"
    by (rule log_metric_small_store_deleted) simp
  have 4: "log_metric accept_all ?d2 ''r1'' ?m4 = (Inr (), ?d3)"
    unfolding log_metric_small_store[of ?d2, simplified] rows
    by (simp add: small_store_facts after_new_fact_def latest_for_def merge_row_def latest_of_def
          priv_compare_metrics_def)
  have seq: "log_metrics accept_all small_store ?cs = ?d3"
    by (simp only: log_metrics.simps 1 2 3 4 snd_conv)
  have logged: "logged_facts accept_all small_store ?cs = [?f1, ?f2, ?f4]"
    by (simp only: logged_facts.simps 1 2 3 4 rows prod.case sum.case)
  from latest_metric_maintained[OF inv0, of accept_all ?cs]
  have "metrics (log_metrics accept_all small_store ?cs)
      = fold add_fact (logged_facts accept_all small_store ?cs) (metrics small_store)"
    by blast
  then have table: "metrics (log_metrics accept_all small_store ?cs) = [?f1, ?f2, ?f4]"
    unfolding logged by (simp add: add_fact_def small_store_facts)
  have latest: "latest_metrics (log_metrics accept_all small_store ?cs) = [latest_of ?f2]"
    unfolding seq by simp
  from inv0 logged table latest show ?thesis
    by (simp add: latest_of_def)
qed

subsection \<open>Creating an experiment\<close>

lemma fold_max_ge: "(a::int) \<le> fold max xs a"
  by (induction xs arbitrary: a) (auto intro: order_trans[OF max.cobounded2])

lemma fold_max_mem: "x \<in> set xs \<Longrightarrow> (x::int) \<le> fold max xs a"
proof (induction xs arbitrary: a)
  case Nil
  then show ?case by simp
next
  case (Cons y ys)
  show ?case
  proof (cases "x = y")
    case True
    have "max y a \<le> fold max ys (max y a)" by (rule fold_max_ge)
    with True show ?thesis by simp
  next
    case False
    with Cons show ?thesis by simp
  qed
qed

lemma autoincrement_fresh: "autoincrement ids \<notin> set ids"
proof
  assume "autoincrement ids \<in> set ids"
  from fold_max_mem[OF this, of 0] show False by (simp add: autoincrement_def)
qed

lemma autoincrement_positive: "1 \<le> autoincrement ids"
  using fold_max_ge[of 0 ids] by (simp add: autoincrement_def)

text \<open>The body of \<open>create_experiment\<close> on a fresh session.\<close>

lemma create_experiment_body:
  "name \<noteq> [] \<Longrightarrow> create_experiment uri d (Some name) loc =
     ManagedSessionMaker
            (\<lambda>session.
               case and_then (queue (INSERT_experiment name loc ACTIVE))
                      (\<lambda>_. if loc = None \<or> loc = Some []
                            then and_then (query (\<lambda>d. filter (\<lambda>e. exp_name e = name) (experiments d)))
                                   (\<lambda>found. case found of
                                       [] \<Rightarrow> raise AttributeError
                                     | first # rest \<Rightarrow>
                                         (\<lambda>s. case new_key s of
                                            None \<Rightarrow> return () s
                                          | Some k \<Rightarrow>
                                              queue (UPDATE_experiment_artifact_location k
                                                (priv_get_artifact_location uri
                                                   (exp_experiment_id first))) s))
                            else return ()) session of
                 (Inl IntegrityError, s) \<Rightarrow>
                   (Inl (MlflowException (Experiment_already_exists name IntegrityError)
                           RESOURCE_ALREADY_EXISTS), s)
               | (Inl e, s) \<Rightarrow> (Inl e, s)
               | (Inr u, s) \<Rightarrow> and_then flush (\<lambda>_ s'. (Inr (new_key s'), s')) s) d"
  by (simp add: create_experiment_def)

lemma insert_duplicate_rejected:
  assumes "name \<in> set (map exp_name (experiments d))"
  shows "flush ((SessionMaker d)\<lparr>pending := [INSERT_experiment name loc ACTIVE]\<rparr>)
       = (Inl IntegrityError, SessionMaker d)"
  using assms by (simp add: flush_def SessionMaker_def)

lemma create_experiment_duplicate_no_location:
  assumes name: "name \<noteq> []" and dup: "name \<in> set (map exp_name (experiments d))"
    and loc: "loc = None \<or> loc = Some []"
  shows "create_experiment uri d (Some name) loc
       = (Inl (MlflowException (Experiment_already_exists name IntegrityError)
                 RESOURCE_ALREADY_EXISTS), d)"
  unfolding create_experiment_body[OF name]
  using loc insert_duplicate_rejected[OF dup, of loc]
  by (intro Managed_fails[where sb = "SessionMaker d"])
     (auto simp: and_then_def queue_def query_def SessionMaker_simps)

lemma create_experiment_duplicate_with_location:
  assumes name: "name \<noteq> []" and dup: "name \<in> set (map exp_name (experiments d))"
    and loc: "loc \<noteq> None" "loc \<noteq> Some []"
  shows "create_experiment uri d (Some name) loc
       = (Inl (MlflowException (Wrapped IntegrityError) INTERNAL_ERROR), d)"
proof -
  from loc obtain l where l: "loc = Some l" "l \<noteq> []" by (cases loc) auto
  have "create_experiment uri d (Some name) (Some l)
      = (Inl (reraise IntegrityError), committed (SessionMaker d))"
    unfolding create_experiment_body[OF name]
    using l(2) insert_duplicate_rejected[OF dup, of "Some l"]
    by (intro Managed_Inl)
       (simp add: and_then_def queue_def return_def SessionMaker_simps)
  then show ?thesis by (simp add: reraise_def SessionMaker_simps l)
qed

text \<open>
  Claim C7. \<open>create_experiment\<close> with the name of an experiment of the table
  fails and commits nothing; the error it raises depends on the artifact location.
  Without a location the query inside the \<^verbatim>\<open>try\<close> block flushes the INSERT, the
  handler catches the integrity error and the error code is
  \<open>RESOURCE_ALREADY_EXISTS\<close>. With a location nothing inside the \<^verbatim>\<open>try\<close> block
  flushes: the INSERT is sent by \<^verbatim>\<open>session.flush()\<close> behind the handler, and the
  integrity error reaches the session manager, which raises it wrapped with
  \<open>INTERNAL_ERROR\<close>.
\<close>

theorem create_experiment_duplicate_name:
  assumes "name \<noteq> []" and "name \<in> set (map exp_name (experiments d))"
  shows "((loc = None \<or> loc = Some []) \<longrightarrow>
            create_experiment uri d (Some name) loc
              = (Inl (MlflowException (Experiment_already_exists name IntegrityError)
                        RESOURCE_ALREADY_EXISTS), d))
       \<and> (loc \<noteq> None \<and> loc \<noteq> Some [] \<longrightarrow>
            create_experiment uri d (Some name) loc
              = (Inl (MlflowException (Wrapped IntegrityError) INTERNAL_ERROR), d))"
  using create_experiment_duplicate_no_location[OF assms]
    create_experiment_duplicate_with_location[OF assms]
  by blast

theorem create_experiment_duplicate_name_witness:
  "create_experiment ''root'' small_store (Some ''Default'') None
     = (Inl (MlflowException (Experiment_already_exists ''Default'' IntegrityError)
               RESOURCE_ALREADY_EXISTS), small_store)
   \<and> create_experiment ''root'' small_store (Some ''Default'') (Some ''s3://bucket/a'')
     = (Inl (MlflowException (Wrapped IntegrityError) INTERNAL_ERROR), small_store)"
proof -
  have n: "''Default'' \<noteq> []" by simp
  have dup: "''Default'' \<in> set (map exp_name (experiments small_store))"
    by (simp add: small_store_facts)
  from create_experiment_duplicate_name[OF n dup, of None "''root''"]
    create_experiment_duplicate_name[OF n dup, of "Some ''s3://bucket/a''" "''root''"]
  show ?thesis by simp
qed

lemma digit_char_not_slash: "n < 10 \<Longrightarrow> digit_char n \<noteq> CHR ''/''"
proof
  assume n: "n < 10" and "digit_char n = CHR ''/''"
  then have "of_char (char_of (48 + n) :: char) = (of_char (CHR ''/'') :: nat)"
    by (simp only: digit_char_def)
  with n show False by simp
qed

lemma str_nat_small: "n < 10 \<Longrightarrow> str_nat n = [digit_char n]"
  by (simp only: str_nat.simps[of n] if_True)

lemma str_nat_large: "\<not> n < 10 \<Longrightarrow> str_nat n = str_nat (n div 10) @ [digit_char (n mod 10)]"
  by (simp only: str_nat.simps[of n] if_False)

lemma str_nat_no_slash: "CHR ''/'' \<notin> set (str_nat n)"
proof (induction n rule: str_nat.induct)
  case (1 n)
  show ?case
  proof (cases "n < 10")
    case True
    from digit_char_not_slash[OF True] show ?thesis
      by (simp only: str_nat_small[OF True] list.set) (metis singletonD)
  next
    case False
    have "n mod 10 < 10" by simp
    from digit_char_not_slash[OF this] 1[OF False] show ?thesis
      by (simp only: str_nat_large[OF False] set_append list.set) (metis Un_iff singletonD)
  qed
qed

lemma str_int_no_slash: "CHR ''/'' \<notin> set (str_int i)"
proof (cases "i < 0")
  case True
  then have "str_int i = CHR ''-'' # str_nat (nat (- i))"
    by (simp only: str_int_def if_True append_Cons append_Nil)
  with str_nat_no_slash[of "nat (- i)"] show ?thesis by simp
next
  case False
  then have "str_int i = str_nat (nat i)"
    by (simp only: str_int_def if_False)
  with str_nat_no_slash[of "nat i"] show ?thesis by simp
qed

lemma prefix_singleton_mem: "prefix [c] s \<Longrightarrow> c \<in> set s"
  by (auto simp: prefix_def)

lemma join_suffix: "CHR ''/'' \<notin> set b \<Longrightarrow> suffix b (posixpath_join a b)"
  using prefix_singleton_mem[of "CHR ''/''" b]
  by (auto simp: posixpath_join_def suffix_def)

lemma create_experiment_new:
  fixes d name loc uri
  defines "k \<equiv> autoincrement (map exp_experiment_id (experiments d))"
  assumes name: "name \<noteq> []" and new: "name \<notin> set (map exp_name (experiments d))"
    and loc: "loc = None \<or> loc = Some []"
  shows "create_experiment uri d (Some name) loc
       = (Inr (Some k), d\<lparr>experiments := experiments d @
            [\<lparr>exp_experiment_id = k, exp_name = name,
              exp_artifact_location = Some (priv_get_artifact_location uri k),
              exp_lifecycle_stage = ACTIVE\<rparr>]\<rparr>)"
proof -
  let ?s = "SessionMaker d"
  let ?ins = "\<lparr>exp_experiment_id = k, exp_name = name, exp_artifact_location = loc,
              exp_lifecycle_stage = ACTIVE\<rparr>"
  let ?e = "\<lparr>exp_experiment_id = k, exp_name = name,
              exp_artifact_location = Some (priv_get_artifact_location uri k),
              exp_lifecycle_stage = ACTIVE\<rparr>"
  let ?d1 = "d\<lparr>experiments := experiments d @ [?ins]\<rparr>"
  let ?d2 = "d\<lparr>experiments := experiments d @ [?e]\<rparr>"
  let ?s2 = "?s\<lparr>txn := ?d1, new_key := Some k\<rparr>"
  let ?u = "UPDATE_experiment_artifact_location k (priv_get_artifact_location uri k)"
  let ?s4 = "?s\<lparr>txn := ?d2, new_key := Some k\<rparr>"
  have fl1: "flush (?s\<lparr>pending := [INSERT_experiment name loc ACTIVE]\<rparr>) = (Inr (), ?s2)"
    using new by (simp add: flush_def SessionMaker_def k_def)
  have rows: "filter (\<lambda>e. exp_name e = name) (experiments ?d1) = [?ins]"
    using new by (auto simp: filter_empty_conv)
  have q: "query (\<lambda>d. filter (\<lambda>e. exp_name e = name) (experiments d))
             (?s\<lparr>pending := [INSERT_experiment name loc ACTIVE]\<rparr>) = (Inr [?ins], ?s2)"
    unfolding query_def and_then_def fl1 using rows by (simp add: SessionMaker_def)
  have fresh: "k \<notin> set (map exp_experiment_id (experiments d))"
    unfolding k_def by (rule autoincrement_fresh)
  then have "\<forall>x \<in> set (experiments d). exp_experiment_id x \<noteq> k"
    by (metis imageI list.set_map)
  then have same: "map (\<lambda>e. if exp_experiment_id e = k
                     then e\<lparr>exp_artifact_location := Some (priv_get_artifact_location uri k)\<rparr>
                     else e) (experiments d) = experiments d"
    by (intro map_idI) simp
  have ex: "execute ?u ?d1 = Inr ?d2"
    by (simp add: same)
  have fl3: "flush (?s2\<lparr>pending := [?u]\<rparr>) = (Inr (), ?s4)"
    by (simp add: flush_def SessionMaker_def ex del: execute.simps)
  have fl4: "flush ?s4 = (Inr (), ?s4)"
    by (rule flush_nopending) (simp add: SessionMaker_def)
  show ?thesis
    unfolding create_experiment_body[OF name]
    using loc
    by (intro Managed_returns[where sb = ?s4 and sf = ?s4])
       (auto simp: and_then_def queue_def q fl3 fl4 SessionMaker_simps)
qed

text \<open>
  Claim C8. \<open>create_experiment\<close> with a new, non-empty name and no artifact
  location succeeds: it returns an id that no experiment of the table had, commits
  one new active experiment with that id and name whose artifact location is
  \<^verbatim>\<open>posixpath.join\<close> of the artifact root and the decimal text of the id (so the
  location ends with the id), and \<open>get_experiment\<close> with the returned id returns
  that experiment at once.
\<close>

theorem create_experiment_default_location:
  assumes name: "name \<noteq> []" and new: "name \<notin> set (map exp_name (experiments d))"
    and loc: "loc = None \<or> loc = Some []"
    and ids: "distinct (map exp_experiment_id (experiments d))"
  shows "let k = autoincrement (map exp_experiment_id (experiments d));
             e = \<lparr>exp_experiment_id = k, exp_name = name,
                  exp_artifact_location = Some (posixpath_join uri (str_int k)),
                  exp_lifecycle_stage = ACTIVE\<rparr>;
             d' = d\<lparr>experiments := experiments d @ [e]\<rparr>
         in create_experiment uri d (Some name) loc = (Inr (Some k), d')
          \<and> k \<notin> set (map exp_experiment_id (experiments d))
          \<and> suffix (str_int k) (posixpath_join uri (str_int k))
          \<and> get_experiment d' (Id_of k) = (Inr e, d')"
proof -
  let ?k = "autoincrement (map exp_experiment_id (experiments d))"
  let ?e = "\<lparr>exp_experiment_id = ?k, exp_name = name,
                  exp_artifact_location = Some (posixpath_join uri (str_int ?k)),
                  exp_lifecycle_stage = ACTIVE\<rparr>"
  let ?d' = "d\<lparr>experiments := experiments d @ [?e]\<rparr>"
  have c: "create_experiment uri d (Some name) loc = (Inr (Some ?k), ?d')"
    using create_experiment_new[OF name new loc, of uri]
    by (simp add: priv_get_artifact_location_def)
  have fresh: "?k \<notin> set (map exp_experiment_id (experiments d))"
    by (rule autoincrement_fresh)
  have s: "suffix (str_int ?k) (posixpath_join uri (str_int ?k))"
    by (rule join_suffix[OF str_int_no_slash])
  have "\<forall>x \<in> set (experiments d). exp_experiment_id x \<noteq> ?k"
    using fresh by (metis imageI list.set_map)
  then have "filter (\<lambda>x. exp_experiment_id x = ?k) (experiments ?d') = [?e]"
    by (simp add: filter_empty_conv)
  then have g: "get_experiment ?d' (Id_of ?k) = (Inr ?e, ?d')"
    by (simp add: get_experiment_rows[of "Id_of ?k" ?k ?d'])
  from c fresh s g show ?thesis
    by (simp add: Let_def)
qed

theorem create_experiment_default_location_witness:
  "create_experiment ''root'' small_store (Some ''exp1'') None
     = (Inr (Some 2), small_store\<lparr>experiments := [default_experiment, old_experiment,
          \<lparr>exp_experiment_id = 2, exp_name = ''exp1'', exp_artifact_location = Some ''root/2'',
            exp_lifecycle_stage = ACTIVE\<rparr>]\<rparr>)
   \<and> get_experiment (small_store\<lparr>experiments := [default_experiment, old_experiment,
          \<lparr>exp_experiment_id = 2, exp_name = ''exp1'', exp_artifact_location = Some ''root/2'',
            exp_lifecycle_stage = ACTIVE\<rparr>]\<rparr>) (Id_of 2)
     = (Inr \<lparr>exp_experiment_id = 2, exp_name = ''exp1'', exp_artifact_location = Some ''root/2'',
            exp_lifecycle_stage = ACTIVE\<rparr>,
        small_store\<lparr>experiments := [default_experiment, old_experiment,
          \<lparr>exp_experiment_id = 2, exp_name = ''exp1'', exp_artifact_location = Some ''root/2'',
            exp_lifecycle_stage = ACTIVE\<rparr>]\<rparr>)
   \<and> suffix ''2'' ''root/2''"
proof -
  have n: "''exp1'' \<noteq> []" by simp
  have es: "experiments small_store = [default_experiment, old_experiment]"
    by (simp add: small_store_facts)
  have ids: "map exp_experiment_id [default_experiment, old_experiment] = [0, 1]"
    by (simp add: small_store_facts)
  have new: "''exp1'' \<notin> set (map exp_name (experiments small_store))"
    by (simp add: small_store_facts)
  have k: "autoincrement [0, 1] = 2"
    by (simp add: autoincrement_def)
  have str: "str_int 2 = ''2''"
    by code_simp
  have join: "posixpath_join ''root'' ''2'' = ''root/2''"
    by code_simp
  note main = create_experiment_default_location[OF n new _ small_store_facts(9),
      of None "''root''", unfolded Let_def es ids k str join append_Cons append_Nil]
  have "None = None \<or> None = Some []" by simp
  from main[OF this] show ?thesis by (elim conjE, intro conjI) assumption+
qed

subsection \<open>Logging a batch\<close>

















end
